theory Spec2Isabelle
  imports Main
begin

section \<open>Python values shared by the three modules\<close>

text \<open>
  Exceptions of the source are values.  Each \<open>raise\<close> and each \<open>assert\<close> of the
  modelled functions has a constructor of its own, so that a theorem can tell them apart.
\<close>

datatype py_error =
    KeyError                      \<comment> \<open>a dictionary lookup such as \<open>_ID_TO_KIND[id_]\<close> on a missing key\<close>
  | AttributeError                \<comment> \<open>\<open>Id.Name\<close> on a name never set, or a method call on \<open>None\<close>\<close>
  | AssertionError_VarLike        \<comment> \<open>\<open>assert self.token.val.endswith('=')\<close>\<close>
  | AssertionError_LexMode        \<comment> \<open>\<open>assert lex_mode == LexMode.DBRACKET\<close> in \<open>_NextOne\<close>\<close>
  | AssertionError_LookAhead      \<comment> \<open>\<open>raise AssertionError(self.words)\<close> in \<open>_LookAhead\<close>\<close>
  | AssertionError_UnexpectedToken \<comment> \<open>\<open>raise AssertionError("Unexpected token: %s")\<close>\<close>
  | RuntimeError_ExpectedRParen   \<comment> \<open>\<open>raise RuntimeError("Expected ), got %s", ...)\<close>\<close>
  | NotImplementedError           \<comment> \<open>\<open>raise NotImplementedError\<close> of a base class method\<close>

section \<open>core/id\_kind.py: the Id and Kind registry\<close>

text \<open>
  \<open>Id\<close> and \<open>Kind\<close> are classes whose attributes are set with \<open>setattr\<close> while the
  module is imported; the attribute values are Python integers.  The classes are the
  dictionaries \<open>id_enum\<close> and \<open>kind_enum\<close> from attribute name to integer.
\<close>

type_synonym Id = nat
type_synonym Kind = nat

datatype OperandType =
  OperandType_Undefined | OperandType_Path | OperandType_Int | OperandType_Str | OperandType_Other

record IdSpec =
  id_enum :: "string \<rightharpoonup> Id"
  kind_enum :: "string \<rightharpoonup> Kind"
  token_names :: "Id \<rightharpoonup> string"
  kind_lookup :: "Id \<rightharpoonup> Kind"
  kind_sizes :: "nat list"
  lexer_pairs :: "Kind \<rightharpoonup> (bool \<times> string \<times> Id) list"
  bool_ops :: "Id \<rightharpoonup> OperandType"
  token_index :: nat
  kind_index :: nat

definition IdSpec_init :: IdSpec where
  "IdSpec_init = \<lparr> id_enum = Map.empty, kind_enum = Map.empty, token_names = Map.empty,
     kind_lookup = Map.empty, kind_sizes = [], lexer_pairs = Map.empty, bool_ops = Map.empty,
     token_index = 0, kind_index = 0 \<rparr>"

definition priv_AddId :: "string \<Rightarrow> IdSpec \<Rightarrow> IdSpec" where
  "priv_AddId token_name s =
     (let i = token_index s + 1 in
      s\<lparr> token_index := i,
         id_enum := (id_enum s)(token_name \<mapsto> i),
         token_names := (token_names s)(i \<mapsto> token_name),
         kind_lookup := (kind_lookup s)(i \<mapsto> kind_index s) \<rparr>)"

definition priv_AddKind :: "string \<Rightarrow> IdSpec \<Rightarrow> IdSpec" where
  "priv_AddKind kind_name s =
     s\<lparr> kind_enum := (kind_enum s)(kind_name \<mapsto> kind_index s),
        kind_index := kind_index s + 1 \<rparr>"

definition AddKind :: "string \<Rightarrow> string list \<Rightarrow> IdSpec \<Rightarrow> IdSpec" where
  "AddKind kind_name tokens s =
     (let s1 = fold (\<lambda>name. priv_AddId (kind_name @ ''_'' @ name)) tokens s;
          s2 = priv_AddKind kind_name s1
      in s2\<lparr> kind_sizes := kind_sizes s2 @ [length tokens] \<rparr>)"

text \<open>The body of the loop of \<open>AddKindPairs\<close>: the spec and the local list \<open>lexer_pairs\<close>.\<close>

definition AddKindPairs_step ::
  "string \<Rightarrow> string \<times> string \<Rightarrow> IdSpec \<times> (bool \<times> string \<times> Id) list
     \<Rightarrow> IdSpec \<times> (bool \<times> string \<times> Id) list" where
  "AddKindPairs_step kind_name p acc =
     (let s1 = priv_AddId (kind_name @ ''_'' @ fst p) (fst acc)
      in (s1, snd acc @ [(False, snd p, token_index s1)]))"

definition AddKindPairs :: "string \<Rightarrow> (string \<times> string) list \<Rightarrow> IdSpec \<Rightarrow> IdSpec" where
  "AddKindPairs kind_name pairs s =
     (let r = fold (AddKindPairs_step kind_name) pairs (s, []);
          s1 = (fst r)\<lparr> lexer_pairs := (lexer_pairs (fst r))(kind_index (fst r) \<mapsto> snd r) \<rparr>;
          s2 = priv_AddKind kind_name s1
      in s2\<lparr> kind_sizes := kind_sizes s2 @ [length pairs] \<rparr>)"

definition AddBoolOp :: "Id \<Rightarrow> OperandType \<Rightarrow> IdSpec \<Rightarrow> IdSpec" where
  "AddBoolOp idn arg_type s = s\<lparr> bool_ops := (bool_ops s)(idn \<mapsto> arg_type) \<rparr>"

text \<open>The inner loop of \<open>AddBoolKind\<close>, over the pairs of one operand type.\<close>

definition AddBoolKind_step ::
  "string \<Rightarrow> OperandType \<Rightarrow> string \<times> string \<Rightarrow> IdSpec \<times> (bool \<times> string \<times> Id) list
     \<Rightarrow> IdSpec \<times> (bool \<times> string \<times> Id) list" where
  "AddBoolKind_step kind_name arg_type p acc =
     (let s1 = priv_AddId (kind_name @ ''_'' @ fst p) (fst acc);
          s2 = AddBoolOp (token_index s1) arg_type s1
      in (s2, snd acc @ [(False, snd p, token_index s2)]))"

text \<open>
  \<open>arg_type_pairs\<close> is a dictionary literal; its items are taken in the order in which
  the literal is written.  Only the integer values of the Ids depend on that order.
\<close>

definition AddBoolKind ::
  "string \<Rightarrow> (OperandType \<times> (string \<times> string) list) list \<Rightarrow> IdSpec \<Rightarrow> IdSpec" where
  "AddBoolKind kind_name arg_type_pairs s =
     (let r = fold (\<lambda>item. fold (AddBoolKind_step kind_name (fst item)) (snd item))
                arg_type_pairs (s, []);
          num_tokens = sum_list (map (\<lambda>item. length (snd item)) arg_type_pairs);
          s1 = (fst r)\<lparr> lexer_pairs := (lexer_pairs (fst r))(kind_index (fst r) \<mapsto> snd r) \<rparr>;
          s2 = priv_AddKind kind_name s1
      in s2\<lparr> kind_sizes := kind_sizes s2 @ [num_tokens] \<rparr>)"

definition priv_AddKinds :: "IdSpec \<Rightarrow> IdSpec" where
  "priv_AddKinds spec =
    (AddKind ''Assign'' [''Declare'', ''Export'', ''Local'', ''Readonly'']
    (AddKind ''KW'' [''DLeftBracket'', ''Bang'',
       ''For'', ''While'', ''Until'', ''Do'', ''Done'', ''In'', ''Case'',
       ''Esac'', ''If'', ''Fi'', ''Then'', ''Else'', ''Elif'', ''Function'']
    (AddKind ''Word'' [''Compound'']
    (AddKind ''Node'' [''PostDPlus'', ''PostDMinus'', ''UnaryPlus'', ''UnaryMinus'', ''ArithVar'',
       ''Command'', ''Assign'', ''AndOr'', ''Block'', ''Subshell'', ''Fork'',
       ''FuncDef'', ''ForEach'', ''ForExpr'', ''NoOp'',
       ''UnaryExpr'', ''BinaryExpr'', ''TernaryExpr'', ''FuncCall'', ''ConstInt'']
    (AddKindPairs ''Arith'' [
       (''Semi'', '';''), (''Comma'', '',''),
       (''Plus'', ''+''), (''Minus'', ''-''), (''Star'', ''*''), (''Slash'', ''/''),
       (''Percent'', ''%''),
       (''DPlus'', ''++''), (''DMinus'', ''--''), (''DStar'', ''**''),
       (''LParen'', ''(''), (''RParen'', '')''),
       (''LBracket'', ''[''), (''RBracket'', '']''),
       (''RBrace'', ''}''),
       (''QMark'', ''?''), (''Colon'', '':''),
       (''LessEqual'', ''<=''), (''Less'', ''<''), (''GreatEqual'', ''>=''), (''Great'', ''>''),
       (''DEqual'', ''==''), (''NEqual'', ''!=''),
       (''DAmp'', ''&&''), (''DPipe'', ''||''), (''Bang'', ''!''),
       (''DGreat'', ''>>''), (''DLess'', ''<<''),
       (''Amp'', ''&''), (''Pipe'', ''|''), (''Caret'', ''^''), (''Tilde'', ''~''),
       (''Equal'', ''=''),
       (''PlusEqual'', ''+=''), (''MinusEqual'', ''-=''), (''StarEqual'', ''*=''),
       (''SlashEqual'', ''/=''), (''PercentEqual'', ''%=''),
       (''DGreatEqual'', ''>>=''), (''DLessEqual'', ''<<=''),
       (''AmpEqual'', ''&=''), (''PipeEqual'', ''|=''),
       (''CaretEqual'', ''^='')]
    (AddKindPairs ''VOp2'' [
       (''Slash'', ''/''), (''Colon'', '':''), (''LBracket'', ''[''), (''RBracket'', '']'')]
    (AddKindPairs ''VOp1'' [
       (''Percent'', ''%''), (''DPercent'', ''%%''), (''Pound'', ''#''), (''DPound'', ''##''),
       (''Caret'', ''^''), (''DCaret'', ''^^''), (''Comma'', '',''), (''DComma'', '',,'')]
    (AddKindPairs ''VTest'' [
       (''ColonHyphen'', '':-''), (''Hyphen'', ''-''), (''ColonEquals'', '':=''),
       (''Equals'', ''=''), (''ColonQMark'', '':?''), (''QMark'', ''?''),
       (''ColonPlus'', '':+''), (''Plus'', ''+'')]
    (AddKind ''VSub'' [''Name'', ''Number'', ''Bang'', ''At'', ''Pound'', ''Dollar'', ''Amp'',
       ''Star'', ''Hyphen'', ''QMark'']
    (AddKind ''Right'' [''DoubleQuote'', ''SingleQuote'', ''Backtick'', ''CommandSub'', ''VarSub'',
       ''ArithSub'', ''DollarDoubleQuote'', ''DollarSingleQuote'',
       ''Subshell'', ''FuncDef'', ''CasePat'', ''ArrayLiteral'']
    (AddKind ''Left'' [''DoubleQuote'', ''SingleQuote'', ''Backtick'', ''CommandSub'', ''VarSub'',
       ''ArithSub'', ''ArithSub2'', ''DollarDoubleQuote'', ''DollarSingleQuote'',
       ''ProcSubIn'', ''ProcSubOut'']
    (AddKind ''Redir'' [''Less'', ''Great'', ''DLess'', ''TLess'', ''DGreat'', ''GreatAnd'',
       ''LessAnd'', ''DLessDash'', ''LessGreat'', ''Clobber'']
    (AddKind ''Op'' [''Newline'', ''Amp'', ''Pipe'', ''PipeAmp'', ''DAmp'', ''DPipe'', ''Semi'',
       ''DSemi'', ''LParen'', ''RParen'', ''DLeftParen'', ''DRightParen'']
    (AddKind ''Lit'' [''Chars'', ''VarLike'', ''Other'', ''EscapedChar'',
       ''LBrace'', ''RBrace'', ''Comma'', ''DRightBracket'', ''Tilde'', ''Pound'',
       ''Slash'', ''Percent'', ''Digits'', ''At'', ''ArithVarLike'']
    (AddKind ''WS'' [''Space'']
    (AddKind ''Ignored'' [''LineCont'', ''Space'', ''Comment'']
    (AddKind ''Eof'' [''Real'', ''RParen'', ''Backtick'']
    (AddKind ''Unknown'' [''Tok'']
    (AddKind ''Undefined'' [''Tok''] spec)))))))))))))))))))"

definition UNARY_FILE_CHARS :: "string list" where
  "UNARY_FILE_CHARS = map (\<lambda>c. [c]) ''abcdefghLprsStuwxOGN''"

definition priv_Dash :: "string list \<Rightarrow> (string \<times> string) list" where
  "priv_Dash strs = map (\<lambda>s. (s, ''-'' @ s)) strs"

text \<open>
  \<open>spec.AddBoolOp(Id.Op_DAmp, ...)\<close> reads an attribute of the class \<open>Id\<close>; reading a name
  that was never registered raises \<open>AttributeError\<close>.
\<close>

definition AddBoolOp_named :: "string \<Rightarrow> OperandType \<Rightarrow> py_error + IdSpec \<Rightarrow> py_error + IdSpec" where
  "AddBoolOp_named name arg_type r =
     (case r of Inl e \<Rightarrow> Inl e
      | Inr s \<Rightarrow> (case id_enum s name of None \<Rightarrow> Inl AttributeError
                  | Some i \<Rightarrow> Inr (AddBoolOp i arg_type s)))"

text \<open>The two calls of \<open>AddBoolKind\<close> at the head of \<open>_AddBoolKinds\<close>.\<close>

definition priv_AddBoolKinds_kinds :: "IdSpec \<Rightarrow> IdSpec" where
  "priv_AddBoolKinds_kinds spec =
    (AddBoolKind ''BoolBinary'' [
       (OperandType_Str, [(''Equal'', ''=''), (''DEqual'', ''==''), (''NEqual'', ''!=''),
                          (''EqualTilde'', ''=~'')]),
       (OperandType_Path, priv_Dash [''ef'', ''nt'', ''ot'']),
       (OperandType_Int, priv_Dash [''eq'', ''ne'', ''gt'', ''ge'', ''lt'', ''le''])]
    (AddBoolKind ''BoolUnary'' [
       (OperandType_Str, priv_Dash (map (\<lambda>c. [c]) ''zn'')),
       (OperandType_Other, priv_Dash (map (\<lambda>c. [c]) ''ovR'')),
       (OperandType_Path, priv_Dash UNARY_FILE_CHARS)]
     spec))"

definition priv_AddBoolKinds :: "IdSpec \<Rightarrow> py_error + IdSpec" where
  "priv_AddBoolKinds spec =
    (AddBoolOp_named ''Redir_Great'' OperandType_Str
    (AddBoolOp_named ''Redir_Less'' OperandType_Str
    (AddBoolOp_named ''KW_Bang'' OperandType_Undefined
    (AddBoolOp_named ''Op_DPipe'' OperandType_Undefined
    (AddBoolOp_named ''Op_DAmp'' OperandType_Undefined
    (Inr (priv_AddBoolKinds_kinds spec)))))))"

text \<open>
  The module level: \<open>ID_SPEC = IdSpec(...)\<close>, \<open>_AddKinds(ID_SPEC)\<close>,
  \<open>_AddBoolKinds(ID_SPEC)\<close>.  \<open>ID_SPEC_build\<close> is the outcome of the import.
\<close>

definition ID_SPEC_build :: "py_error + IdSpec" where
  "ID_SPEC_build = priv_AddBoolKinds (priv_AddKinds IdSpec_init)"


text \<open>
  The state of the module after a successful import (\<open>ID_SPEC_build_ok\<close> below shows that
  the import does succeed).
\<close>

definition ID_SPEC :: IdSpec where
  "ID_SPEC = projr ID_SPEC_build"

text \<open>An auxiliary step used to describe \<open>AddBoolKind\<close>: \<open>_AddId\<close> followed by \<open>AddBoolOp\<close>.\<close>

definition add_bool_id :: "OperandType \<times> string \<Rightarrow> IdSpec \<Rightarrow> IdSpec" where
  "add_bool_id tn s = (let s1 = priv_AddId (snd tn) s in AddBoolOp (token_index s1) (fst tn) s1)"

text \<open>\<open>BOOL_OPS\<close> is the dictionary that \<open>ID_SPEC\<close> fills: from Id to operand type.\<close>

definition BOOL_OPS :: "Id \<rightharpoonup> OperandType" where
  "BOOL_OPS = bool_ops ID_SPEC"

definition LookupKind :: "Id \<Rightarrow> py_error + Kind" where
  "LookupKind i = (case kind_lookup ID_SPEC i of None \<Rightarrow> Inl KeyError | Some k \<Rightarrow> Inr k)"

text \<open>\<open>Id.Name\<close> and \<open>Kind.Name\<close>, for the names the other modules use.\<close>

definition Id_attr :: "string \<Rightarrow> Id" where
  "Id_attr name = the (id_enum ID_SPEC name)"

definition Kind_attr :: "string \<Rightarrow> Kind" where
  "Kind_attr name = the (kind_enum ID_SPEC name)"

definition Id_Undefined_Tok :: Id where "Id_Undefined_Tok = Id_attr ''Undefined_Tok''"
definition Id_Eof_Real :: Id where "Id_Eof_Real = Id_attr ''Eof_Real''"
definition Id_Lit_Chars :: Id where "Id_Lit_Chars = Id_attr ''Lit_Chars''"
definition Id_Lit_VarLike :: Id where "Id_Lit_VarLike = Id_attr ''Lit_VarLike''"
definition Id_Lit_EscapedChar :: Id where "Id_Lit_EscapedChar = Id_attr ''Lit_EscapedChar''"
definition Id_Lit_DRightBracket :: Id where "Id_Lit_DRightBracket = Id_attr ''Lit_DRightBracket''"
definition Id_Lit_Tilde :: Id where "Id_Lit_Tilde = Id_attr ''Lit_Tilde''"
definition Id_Lit_ArithVarLike :: Id where "Id_Lit_ArithVarLike = Id_attr ''Lit_ArithVarLike''"
definition Id_Op_Newline :: Id where "Id_Op_Newline = Id_attr ''Op_Newline''"
definition Id_Op_DAmp :: Id where "Id_Op_DAmp = Id_attr ''Op_DAmp''"
definition Id_Op_DPipe :: Id where "Id_Op_DPipe = Id_attr ''Op_DPipe''"
definition Id_Op_LParen :: Id where "Id_Op_LParen = Id_attr ''Op_LParen''"
definition Id_Op_RParen :: Id where "Id_Op_RParen = Id_attr ''Op_RParen''"
definition Id_Left_DoubleQuote :: Id where "Id_Left_DoubleQuote = Id_attr ''Left_DoubleQuote''"
definition Id_Left_SingleQuote :: Id where "Id_Left_SingleQuote = Id_attr ''Left_SingleQuote''"
definition Id_Left_CommandSub :: Id where "Id_Left_CommandSub = Id_attr ''Left_CommandSub''"
definition Id_Left_VarSub :: Id where "Id_Left_VarSub = Id_attr ''Left_VarSub''"
definition Id_Left_ArithSub :: Id where "Id_Left_ArithSub = Id_attr ''Left_ArithSub''"
definition Id_Right_ArrayLiteral :: Id where "Id_Right_ArrayLiteral = Id_attr ''Right_ArrayLiteral''"
definition Id_Word_Compound :: Id where "Id_Word_Compound = Id_attr ''Word_Compound''"
definition Id_KW_Bang :: Id where "Id_KW_Bang = Id_attr ''KW_Bang''"
definition Id_BoolUnary_z :: Id where "Id_BoolUnary_z = Id_attr ''BoolUnary_z''"
definition Id_BoolBinary_DEqual :: Id where "Id_BoolBinary_DEqual = Id_attr ''BoolBinary_DEqual''"
definition Id_BoolBinary_EqualTilde :: Id where
  "Id_BoolBinary_EqualTilde = Id_attr ''BoolBinary_EqualTilde''"

definition Kind_Undefined :: Kind where "Kind_Undefined = Kind_attr ''Undefined''"
definition Kind_Redir :: Kind where "Kind_Redir = Kind_attr ''Redir''"
definition Kind_Word :: Kind where "Kind_Word = Kind_attr ''Word''"
definition Kind_BoolUnary :: Kind where "Kind_BoolUnary = Kind_attr ''BoolUnary''"
definition Kind_BoolBinary :: Kind where "Kind_BoolBinary = Kind_attr ''BoolBinary''"

text \<open>The names of the Kinds, in the order of registration (the closed Kind set).\<close>

definition Kind_names :: "string list" where
  "Kind_names = [''Undefined'', ''Unknown'', ''Eof'', ''Ignored'', ''WS'', ''Lit'', ''Op'',
     ''Redir'', ''Left'', ''Right'', ''VSub'', ''VTest'', ''VOp1'', ''VOp2'', ''Arith'', ''Node'',
     ''Word'', ''KW'', ''Assign'', ''BoolUnary'', ''BoolBinary'']"


section \<open>core/word\_node.py: word parts and words\<close>

text \<open>
  Modelled from the spec: the class \<open>Token\<close> (core/tokens.py is not part of the sources
  at hand) is the triple of an Id, the text and a source location.
\<close>

record Token =
  token_id :: Id
  token_val :: string
  token_span :: nat

text \<open>
  The command list of a command substitution, the arithmetic node of an arithmetic
  substitution and the three operator slots of a variable substitution are built by other
  parsers; they are opaque handles here.
\<close>

datatype WordPart =
    ArrayLiteralPart "Word list"
  | LiteralPart Token
  | EscapedLiteralPart Token
  | SingleQuotedPart "Token list"
  | DoubleQuotedPart "WordPart list"
  | CommandSubPart Token nat
  | VarSubPart string "Token option" "nat option" "nat option" "nat option"
  | TildeSubPart string
  | ArithSubPart nat
and Word =
    CompoundWord "WordPart list"
  | TokenWord Token

text \<open>A method that returns a string or \<open>False\<close>.\<close>

datatype str_or_false = PyFalse | PyStr string

text \<open>The truth value Python gives to such a result: \<open>False\<close> and \<open>""\<close> are false.\<close>

fun truthy :: "str_or_false \<Rightarrow> bool" where
  "truthy PyFalse = False"
| "truthy (PyStr t) = (t \<noteq> [])"

text \<open>\<open>self.id\<close> of a part: the Id its constructor hands to \<open>_Node.__init__\<close>.\<close>

fun part_id :: "WordPart \<Rightarrow> Id" where
  "part_id (ArrayLiteralPart ws) = Id_Right_ArrayLiteral"
| "part_id (LiteralPart t) = Id_Lit_Chars"
| "part_id (EscapedLiteralPart t) = Id_Lit_EscapedChar"
| "part_id (SingleQuotedPart ts) = Id_Left_SingleQuote"
| "part_id (DoubleQuotedPart ps) = Id_Left_DoubleQuote"
| "part_id (CommandSubPart t c) = Id_Left_CommandSub"
| "part_id (VarSubPart n t pre br suf) = Id_Left_VarSub"
| "part_id (TildeSubPart pre) = Id_Lit_Tilde"
| "part_id (ArithSubPart a) = Id_Left_ArithSub"

fun VarLikeName :: "WordPart \<Rightarrow> py_error + str_or_false" where
  "VarLikeName (LiteralPart t) =
     (if token_id t = Id_Lit_VarLike then
        (if token_val t \<noteq> [] \<and> last (token_val t) = CHR ''=''
         then Inr (PyStr (butlast (token_val t)))
         else Inl AssertionError_VarLike)
      else Inr PyFalse)"
| "VarLikeName p = Inr PyFalse"

fun ArithVarLikeName :: "WordPart \<Rightarrow> str_or_false" where
  "ArithVarLikeName (LiteralPart t) =
     (if token_id t = Id_Lit_ArithVarLike then PyStr (token_val t) else PyFalse)"
| "ArithVarLikeName p = PyFalse"

fun LiteralId :: "WordPart \<Rightarrow> Id" where
  "LiteralId (LiteralPart t) = token_id t"
| "LiteralId p = Id_Undefined_Tok"

fun IsSubst :: "WordPart \<Rightarrow> bool" where
  "IsSubst (CommandSubPart t c) = True"
| "IsSubst (VarSubPart n t pre br suf) = True"
| "IsSubst (ArithSubPart a) = True"
| "IsSubst p = False"

text \<open>
  \<open>EvalStatic\<close> of a part returns \<open>(ok, value, quoted)\<close>.  \<open>ArrayLiteralPart\<close> does not
  override the method of \<open>WordPart\<close>, which raises \<open>NotImplementedError\<close>.
  \<open>DoubleQuotedPart_loop\<close> is the \<open>for\<close> loop of \<open>DoubleQuotedPart.EvalStatic\<close> with its
  accumulator \<open>ret\<close>.
\<close>

fun WordPart_EvalStatic :: "WordPart \<Rightarrow> py_error + (bool \<times> string \<times> bool)"
  and DoubleQuotedPart_loop :: "WordPart list \<Rightarrow> string \<Rightarrow> py_error + (bool \<times> string \<times> bool)"
where
  "WordPart_EvalStatic (ArrayLiteralPart ws) = Inl NotImplementedError"
| "WordPart_EvalStatic (LiteralPart t) = Inr (True, token_val t, False)"
| "WordPart_EvalStatic (EscapedLiteralPart t) = Inr (True, drop 1 (token_val t), True)"
| "WordPart_EvalStatic (SingleQuotedPart ts) = Inr (True, concat (map token_val ts), True)"
| "WordPart_EvalStatic (DoubleQuotedPart ps) = DoubleQuotedPart_loop ps []"
| "WordPart_EvalStatic (CommandSubPart t c) = Inr (False, [], False)"
| "WordPart_EvalStatic (VarSubPart n t pre br suf) = Inr (False, [], False)"
| "WordPart_EvalStatic (TildeSubPart pre) = Inr (False, [], False)"
| "WordPart_EvalStatic (ArithSubPart a) = Inr (False, [], False)"
| "DoubleQuotedPart_loop [] ret = Inr (True, ret, True)"
| "DoubleQuotedPart_loop (p # ps) ret =
     (case WordPart_EvalStatic p of
        Inl e \<Rightarrow> Inl e
      | Inr r \<Rightarrow>
          if \<not> fst r then Inr (False, [], True)
          else DoubleQuotedPart_loop ps (ret @ fst (snd r)))"

text \<open>The \<open>for\<close> loop of \<open>CompoundWord.EvalStatic\<close> with its accumulators \<open>ret\<close> and \<open>quoted\<close>.\<close>

fun CompoundWord_loop :: "WordPart list \<Rightarrow> string \<Rightarrow> bool \<Rightarrow> py_error + (bool \<times> string \<times> bool)" where
  "CompoundWord_loop [] ret quoted = Inr (True, ret, quoted)"
| "CompoundWord_loop (p # ps) ret quoted =
     (case WordPart_EvalStatic p of
        Inl e \<Rightarrow> Inl e
      | Inr r \<Rightarrow>
          if \<not> fst r then Inr (False, [], quoted)
          else CompoundWord_loop ps (ret @ fst (snd r)) (if snd (snd r) then True else quoted))"

text \<open>
  The methods below are methods of \<open>CompoundWord\<close>; \<open>TokenWord\<close> has none of them, and
  calling one on a \<open>TokenWord\<close> raises \<open>AttributeError\<close>.  \<open>BoolId\<close> is a method of both.
\<close>

fun EvalStatic :: "Word \<Rightarrow> py_error + (bool \<times> string \<times> bool)" where
  "EvalStatic (CompoundWord parts) = CompoundWord_loop parts [] False"
| "EvalStatic (TokenWord t) = Inl AttributeError"

fun HasArrayPart :: "Word \<Rightarrow> py_error + bool" where
  "HasArrayPart (CompoundWord parts) = Inr (\<exists>p \<in> set parts. part_id p = Id_Right_ArrayLiteral)"
| "HasArrayPart (TokenWord t) = Inl AttributeError"

text \<open>\<open>LooksLikeAssignment\<close> returns \<open>False\<close> (here \<open>None\<close>) or the pair \<open>(name, rhs)\<close>.\<close>

fun LooksLikeAssignment :: "Word \<Rightarrow> py_error + (str_or_false \<times> Word) option" where
  "LooksLikeAssignment (CompoundWord parts) =
     (if length parts = 0 then Inr None
      else case VarLikeName (parts ! 0) of
        Inl e \<Rightarrow> Inl e
      | Inr name \<Rightarrow>
          if truthy name then
            (if length parts = 1
             then Inr (Some (name, CompoundWord [SingleQuotedPart []]))
             else Inr (Some (name, CompoundWord (drop 1 parts))))
          else Inr None)"
| "LooksLikeAssignment (TokenWord t) = Inl AttributeError"

fun AsArithVarName :: "Word \<Rightarrow> py_error + str_or_false" where
  "AsArithVarName (CompoundWord parts) =
     (if length parts \<noteq> 1 then Inr (PyStr [])
      else Inr (ArithVarLikeName (parts ! 0)))"
| "AsArithVarName (TokenWord t) = Inl AttributeError"

fun BoolId :: "Word \<Rightarrow> py_error + Id" where
  "BoolId (CompoundWord parts) =
     (if length parts \<noteq> 1 then Inr Id_Word_Compound
      else let token_type = LiteralId (parts ! 0) in
        if token_type = Id_Undefined_Tok then Inr Id_Word_Compound
        else if token_type = Id_KW_Bang \<or> token_type = Id_Lit_DRightBracket then Inr token_type
        else case LookupKind token_type of
          Inl e \<Rightarrow> Inl e
        | Inr token_kind \<Rightarrow>
            if token_kind = Kind_BoolUnary \<or> token_kind = Kind_BoolBinary then Inr token_type
            else Inr Id_Word_Compound)"
| "BoolId (TokenWord t) = Inr (token_id t)"


section \<open>osh/bool\_parse.py: the parser of boolean expressions\<close>

text \<open>
  Modelled from the spec: the lexical modes of osh/lex.py that this parser requests, and
  the record that \<open>base.MakeError\<close> builds (core/base.py is not part of the sources at
  hand): a message, the values passed along to be formatted into it, an optional token
  and an optional word.  Python's \<open>%\<close> operator is not evaluated: a message that the
  caller has already formatted, \<open>fmt % args\<close>, is the value \<open>Formatted fmt args\<close>, and a
  message passed as it is written is \<open>Text msg\<close>.
\<close>

datatype LexMode = DBRACKET | BASH_REGEX

datatype fmt_arg = ArgStr string | ArgWord "Word option"

datatype py_message = Text string | Formatted string "fmt_arg list"

record ErrorContext =
  err_msg :: py_message
  err_args :: "fmt_arg list"
  err_token :: "Token option"
  err_word :: "Word option"

text \<open>
  The nodes the parser returns.  A bare word is returned as it is for the implicit
  \<open>-n\<close> test; \<open>None\<close> is a value like any other and can end up as a child.
\<close>

datatype py_node =
    PyNone
  | WordNode Word
  | UnaryExprNode Id py_node
  | BinaryExprNode Id py_node py_node
  | LogicalNot py_node

fun node_of :: "Word option \<Rightarrow> py_node" where
  "node_of None = PyNone"
| "node_of (Some w) = WordNode w"

text \<open>
  The word parser is a collaborator: \<open>ReadWord\<close> returns the next word under the requested
  mode, or \<open>None\<close>; \<open>Error\<close> returns its pending errors.  Its state has the type \<open>'r\<close>.
\<close>

record 'r WordParser =
  ReadWord :: "LexMode \<Rightarrow> 'r \<Rightarrow> Word option \<times> 'r"
  Error :: "'r \<Rightarrow> ErrorContext list"

record 'r BoolParser =
  w_parser :: 'r
  words :: "Word option list"
  cur_word :: "Word option"
  op_id :: Id
  b_kind :: Kind
  error_stack :: "ErrorContext list"

definition BoolParser_init :: "'r \<Rightarrow> 'r BoolParser" where
  "BoolParser_init r = \<lparr> w_parser = r, words = [], cur_word = None,
     op_id = Id_Undefined_Tok, b_kind = Kind_Undefined, error_stack = [] \<rparr>"

text \<open>
  A method returns a value and the new state, or raises an exception and leaves the state
  it had reached.  Loops and recursion run on fuel: \<open>None\<close> means that the fuel ran out
  before the method returned.
\<close>

type_synonym ('a, 'r) outcome = "(py_error \<times> 'r BoolParser) + ('a \<times> 'r BoolParser)"

definition AddErrorContext ::
  "py_message \<Rightarrow> fmt_arg list \<Rightarrow> Token option \<Rightarrow> Word option \<Rightarrow> 'r BoolParser \<Rightarrow> 'r BoolParser" where
  "AddErrorContext m args tok w s =
     s\<lparr> error_stack := error_stack s @
          [\<lparr> err_msg = m, err_args = args, err_token = tok, err_word = w \<rparr>] \<rparr>"

text \<open>The last two statements of \<open>_NextOne\<close>, which set \<open>op_id\<close> and \<open>b_kind\<close>.\<close>

definition set_op_id :: "'r BoolParser \<Rightarrow> (bool, 'r) outcome" where
  "set_op_id s =
     (case cur_word s of
        None \<Rightarrow> Inl (AttributeError, s)
      | Some w \<Rightarrow>
          (case BoolId w of
             Inl e \<Rightarrow> Inl (e, s)
           | Inr i \<Rightarrow>
               (case LookupKind i of
                  Inl e \<Rightarrow> Inl (e, s\<lparr> op_id := i \<rparr>)
                | Inr k \<Rightarrow> Inr (True, s\<lparr> op_id := i, b_kind := k \<rparr>))))"

definition priv_NextOne :: "'r WordParser \<Rightarrow> LexMode \<Rightarrow> 'r BoolParser \<Rightarrow> (bool, 'r) outcome" where
  "priv_NextOne rd lex_mode s =
     (let n = length (words s) in
      if n = 2 then
        (if lex_mode \<noteq> DBRACKET then Inl (AssertionError_LexMode, s)
         else set_op_id (s\<lparr> words := [words s ! 1], cur_word := words s ! 1 \<rparr>))
      else if n = 0 \<or> n = 1 then
        (case ReadWord rd lex_mode (w_parser s) of
           (None, r) \<Rightarrow>
             Inr (False, s\<lparr> w_parser := r, error_stack := error_stack s @ Error rd r \<rparr>)
         | (Some w, r) \<Rightarrow>
             set_op_id (s\<lparr> w_parser := r, words := [Some w], cur_word := Some w \<rparr>))
      else set_op_id s)"

fun priv_Next :: "nat \<Rightarrow> 'r WordParser \<Rightarrow> LexMode \<Rightarrow> 'r BoolParser \<Rightarrow> (bool, 'r) outcome option" where
  "priv_Next 0 rd lex_mode s = None"
| "priv_Next (Suc n) rd lex_mode s =
     (case priv_NextOne rd lex_mode s of
        Inl e \<Rightarrow> Some (Inl e)
      | Inr r \<Rightarrow>
          if \<not> fst r then Some (Inr (False, snd r))
          else if op_id (snd r) \<noteq> Id_Op_Newline then Some (Inr (True, snd r))
          else priv_Next n rd lex_mode (snd r))"

definition AtEnd :: "'r BoolParser \<Rightarrow> bool" where
  "AtEnd s = (op_id s = Id_Lit_DRightBracket)"

definition priv_LookAhead :: "'r WordParser \<Rightarrow> 'r BoolParser \<Rightarrow> (Word option, 'r) outcome" where
  "priv_LookAhead rd s =
     (if length (words s) \<noteq> 1 then Inl (AssertionError_LookAhead, s)
      else case ReadWord rd DBRACKET (w_parser s) of
        (w, r) \<Rightarrow> Inr (w, s\<lparr> w_parser := r, words := words s @ [w] \<rparr>))"

text \<open>
  \<open>x = f(...)\<close> followed by the rest of the method, and
  \<open>if not self._Next(...): return None\<close> followed by the rest of the method.
\<close>

definition bind_outcome ::
  "('a, 'r) outcome option \<Rightarrow> ('a \<Rightarrow> 'r BoolParser \<Rightarrow> ('b, 'r) outcome option)
     \<Rightarrow> ('b, 'r) outcome option" where
  "bind_outcome x k =
     (case x of None \<Rightarrow> None
      | Some (Inl e) \<Rightarrow> Some (Inl e)
      | Some (Inr r) \<Rightarrow> k (fst r) (snd r))"

definition or_return_None ::
  "(bool, 'r) outcome option \<Rightarrow> ('r BoolParser \<Rightarrow> (py_node, 'r) outcome option)
     \<Rightarrow> (py_node, 'r) outcome option" where
  "or_return_None x k =
     bind_outcome x (\<lambda>ok s. if \<not> ok then Some (Inr (PyNone, s)) else k s)"

text \<open>
  The regex check of \<open>ParseFactor\<close>: \<open>True\<close> when the right operand of \<open>=~\<close> evaluates
  statically to a string that \<open>libc.regex_parse\<close> (the parameter \<open>regex_parse\<close>) rejects.
\<close>

definition invalid_regex ::
  "(string \<Rightarrow> bool) \<Rightarrow> Word option \<Rightarrow> py_error + (bool \<times> string)" where
  "invalid_regex regex_parse right =
     (case right of
        None \<Rightarrow> Inl AttributeError
      | Some w \<Rightarrow>
          (case EvalStatic w of
             Inl e \<Rightarrow> Inl e
           | Inr r \<Rightarrow> Inr (fst r \<and> \<not> regex_parse (fst (snd r)), fst (snd r))))"

fun ParseExpr :: "nat \<Rightarrow> 'r WordParser \<Rightarrow> (string \<Rightarrow> bool) \<Rightarrow> 'r BoolParser \<Rightarrow> (py_node, 'r) outcome option"
  and ParseTerm :: "nat \<Rightarrow> 'r WordParser \<Rightarrow> (string \<Rightarrow> bool) \<Rightarrow> 'r BoolParser \<Rightarrow> (py_node, 'r) outcome option"
  and ParseNegatedFactor :: "nat \<Rightarrow> 'r WordParser \<Rightarrow> (string \<Rightarrow> bool) \<Rightarrow> 'r BoolParser \<Rightarrow> (py_node, 'r) outcome option"
  and ParseFactor :: "nat \<Rightarrow> 'r WordParser \<Rightarrow> (string \<Rightarrow> bool) \<Rightarrow> 'r BoolParser \<Rightarrow> (py_node, 'r) outcome option"
where
  "ParseExpr 0 rd regex_parse s = None"
| "ParseExpr (Suc n) rd regex_parse s =
     bind_outcome (ParseTerm n rd regex_parse s) (\<lambda>left s1.
       if op_id s1 = Id_Op_DPipe then
         or_return_None (priv_Next n rd DBRACKET s1) (\<lambda>s2.
           bind_outcome (ParseExpr n rd regex_parse s2) (\<lambda>right s3.
             Some (Inr (BinaryExprNode Id_Op_DPipe left right, s3))))
       else Some (Inr (left, s1)))"
| "ParseTerm 0 rd regex_parse s = None"
| "ParseTerm (Suc n) rd regex_parse s =
     bind_outcome (ParseNegatedFactor n rd regex_parse s) (\<lambda>left s1.
       if op_id s1 = Id_Op_DAmp then
         or_return_None (priv_Next n rd DBRACKET s1) (\<lambda>s2.
           bind_outcome (ParseTerm n rd regex_parse s2) (\<lambda>right s3.
             Some (Inr (BinaryExprNode Id_Op_DAmp left right, s3))))
       else Some (Inr (left, s1)))"
| "ParseNegatedFactor 0 rd regex_parse s = None"
| "ParseNegatedFactor (Suc n) rd regex_parse s =
     (if op_id s = Id_KW_Bang then
        or_return_None (priv_Next n rd DBRACKET s) (\<lambda>s1.
          bind_outcome (ParseFactor n rd regex_parse s1) (\<lambda>child s2.
            Some (Inr (LogicalNot child, s2))))
      else ParseFactor n rd regex_parse s)"
| "ParseFactor 0 rd regex_parse s = None"
| "ParseFactor (Suc n) rd regex_parse s =
     (if b_kind s = Kind_BoolUnary then
        (let op = op_id s in
         or_return_None (priv_Next n rd DBRACKET s) (\<lambda>s1.
           let word = cur_word s1 in
           or_return_None (priv_Next n rd DBRACKET s1) (\<lambda>s2.
             Some (Inr (UnaryExprNode op (node_of word), s2)))))
      else if b_kind s = Kind_Word then
        bind_outcome (Some (priv_LookAhead rd s)) (\<lambda>t2 s1.
          case t2 of
            None \<Rightarrow> Some (Inl (AttributeError, s1))
          | Some w2 \<Rightarrow>
             (case BoolId w2 of
                Inl e \<Rightarrow> Some (Inl (e, s1))
              | Inr t2_op_id \<Rightarrow>
                 (case LookupKind t2_op_id of
                    Inl e \<Rightarrow> Some (Inl (e, s1))
                  | Inr t2_b_kind \<Rightarrow>
                     if t2_b_kind = Kind_BoolBinary \<or> t2_b_kind = Kind_Redir then
                       (let left = cur_word s1 in
                        or_return_None (priv_Next n rd DBRACKET s1) (\<lambda>s2.
                          let op = op_id s2;
                              is_regex = (t2_op_id = Id_BoolBinary_EqualTilde)
                          in
                          or_return_None
                            (priv_Next n rd (if is_regex then BASH_REGEX else DBRACKET) s2) (\<lambda>s3.
                            let right = cur_word s3 in
                            case (if is_regex then invalid_regex regex_parse right
                                  else Inr (False, [])) of
                              Inl e \<Rightarrow> Some (Inl (e, s3))
                            | Inr chk \<Rightarrow>
                                if fst chk then
                                  Some (Inr (PyNone,
                                    AddErrorContext (Formatted ''Invalid regex: %r'' [ArgStr (snd chk)]) []
                                      None right s3))
                                else
                                  or_return_None (priv_Next n rd DBRACKET s3) (\<lambda>s4.
                                    Some (Inr (BinaryExprNode op (node_of left) (node_of right),
                                               s4))))))
                     else
                       (let word = cur_word s1 in
                        or_return_None (priv_Next n rd DBRACKET s1) (\<lambda>s2.
                          Some (Inr (node_of word, s2)))))))
      else if op_id s = Id_Op_LParen then
        or_return_None (priv_Next n rd DBRACKET s) (\<lambda>s1.
          bind_outcome (ParseExpr n rd regex_parse s1) (\<lambda>node s2.
            if op_id s2 \<noteq> Id_Op_RParen then Some (Inl (RuntimeError_ExpectedRParen, s2))
            else or_return_None (priv_Next n rd DBRACKET s2) (\<lambda>s3. Some (Inr (node, s3)))))
      else Some (Inl (AssertionError_UnexpectedToken, s)))"

definition Parse :: "nat \<Rightarrow> 'r WordParser \<Rightarrow> (string \<Rightarrow> bool) \<Rightarrow> 'r BoolParser \<Rightarrow> (py_node, 'r) outcome option" where
  "Parse n rd regex_parse s =
     or_return_None (priv_Next n rd DBRACKET s) (\<lambda>s1.
       bind_outcome (ParseExpr n rd regex_parse s1) (\<lambda>node s2.
         if \<not> AtEnd s2 then
           Some (Inr (PyNone,
             AddErrorContext (Text ''Unexpected extra word %r'') [ArgWord (cur_word s2)]
               None (cur_word s2) s2))
         else Some (Inr (node, s2))))"

text \<open>
  A word parser over a finite list of results, for running the parser on explicit
  inputs.  It hands out the entries of the list one by one, whatever the mode, and logs
  the modes it was asked for; when the list is used up it returns \<open>None\<close>.
\<close>

definition list_reader :: "(Word option list \<times> LexMode list) WordParser" where
  "list_reader = \<lparr>
     ReadWord = (\<lambda>lex_mode r. case fst r of
        [] \<Rightarrow> (None, ([], snd r @ [lex_mode]))
      | w # ws \<Rightarrow> (w, (ws, snd r @ [lex_mode]))),
     Error = (\<lambda>r. [\<lparr> err_msg = Text ''word parser error'', err_args = [], err_token = None,
                     err_word = None \<rparr>]) \<rparr>"


text \<open>
  Words and parser states for explicit inputs: a compound word of one literal token, an
  operator token as a word, and the state in which the word \<open>w\<close> with Id \<open>i\<close> and Kind \<open>k\<close>
  is the current word, no other word is buffered and no error has been recorded.
\<close>

definition lit_word :: "Id \<Rightarrow> string \<Rightarrow> Word" where
  "lit_word i v = CompoundWord [LiteralPart \<lparr> token_id = i, token_val = v, token_span = 0 \<rparr>]"

definition op_word :: "Id \<Rightarrow> string \<Rightarrow> Word" where
  "op_word i v = TokenWord \<lparr> token_id = i, token_val = v, token_span = 0 \<rparr>"

definition at_word ::
  "Word \<Rightarrow> Id \<Rightarrow> Kind \<Rightarrow> Word option list \<times> LexMode list
     \<Rightarrow> (Word option list \<times> LexMode list) BoolParser" where
  "at_word w i k r = \<lparr> w_parser = r, words = [Some w], cur_word = Some w,
     op_id = i, b_kind = k, error_stack = [] \<rparr>"


section \<open>Auxiliary notions for the proofs\<close>

text \<open>The Ids that one call of \<open>AddBoolKind\<close> registers, each with its operand type.\<close>

definition bool_names ::
  "string \<Rightarrow> (OperandType \<times> (string \<times> string) list) list \<Rightarrow> (OperandType \<times> string) list" where
  "bool_names k items =
     concat (map (\<lambda>item. map (\<lambda>p. (fst item, k @ ''_'' @ fst p)) (snd item)) items)"

text \<open>
  The invariant of the registry: every attribute of \<open>Id\<close> is a counter value already
  handed out and \<open>token_names\<close> maps it back to its name; every counter value handed out
  has a Kind below the bound \<open>b\<close>; and \<open>kind_lookup\<close> knows no other Id.
\<close>

definition reg_inv :: "nat \<Rightarrow> IdSpec \<Rightarrow> bool" where
  "reg_inv b s \<longleftrightarrow>
     (\<forall>x i. id_enum s x = Some i \<longrightarrow> 0 < i \<and> i \<le> token_index s \<and> token_names s i = Some x) \<and>
     (\<forall>i. 0 < i \<and> i \<le> token_index s \<longrightarrow> (\<exists>k. kind_lookup s i = Some k \<and> k < b)) \<and>
     (\<forall>i k. kind_lookup s i = Some k \<longrightarrow> 0 < i \<and> i \<le> token_index s)"

text \<open>
  The reading of static evaluation that the specification gives, to compare
  \<open>EvalStatic\<close> with: which parts are literal, escaped or quoted (\<open>static_part\<close>), the text
  each contributes (\<open>static_text\<close>), whether it counts as quoted (\<open>part_quoted\<close>),
  whether a part is or holds an array literal (\<open>has_array\<close>), and whether it is a command,
  variable or arithmetic substitution or holds one between double quotes (\<open>has_subst\<close>).
\<close>

fun has_array :: "WordPart \<Rightarrow> bool" where
  "has_array (ArrayLiteralPart ws) = True"
| "has_array (DoubleQuotedPart ps) = (\<exists>p \<in> set ps. has_array p)"
| "has_array p = False"

fun has_subst :: "WordPart \<Rightarrow> bool" where
  "has_subst (CommandSubPart t c) = True"
| "has_subst (VarSubPart n t pre br suf) = True"
| "has_subst (ArithSubPart a) = True"
| "has_subst (DoubleQuotedPart ps) = (\<exists>p \<in> set ps. has_subst p)"
| "has_subst p = False"

fun static_part :: "WordPart \<Rightarrow> bool" where
  "static_part (LiteralPart t) = True"
| "static_part (EscapedLiteralPart t) = True"
| "static_part (SingleQuotedPart ts) = True"
| "static_part (DoubleQuotedPart ps) = (\<forall>p \<in> set ps. static_part p)"
| "static_part p = False"

fun static_text :: "WordPart \<Rightarrow> string" where
  "static_text (LiteralPart t) = token_val t"
| "static_text (EscapedLiteralPart t) = drop 1 (token_val t)"
| "static_text (SingleQuotedPart ts) = concat (map token_val ts)"
| "static_text (DoubleQuotedPart ps) = concat (map static_text ps)"
| "static_text p = []"

fun part_quoted :: "WordPart \<Rightarrow> bool" where
  "part_quoted (LiteralPart t) = False"
| "part_quoted p = True"

text \<open>
  Notions for the parser.  \<open>no_assert\<close>: the exception is neither of the two assertions on
  the buffer of pending words.  \<open>reports_errors\<close>: the word parser has an error to report
  whenever it returns no word.  \<open>parse_post\<close>: what holds when one of the four parsing
  methods, entered with one word buffered and the error stack \<open>st\<close>, has finished.
\<close>

definition no_assert :: "py_error \<Rightarrow> bool" where
  "no_assert e \<longleftrightarrow> e \<noteq> AssertionError_LexMode \<and> e \<noteq> AssertionError_LookAhead"

definition reports_errors :: "'r WordParser \<Rightarrow> bool" where
  "reports_errors rd \<longleftrightarrow> (\<forall>m r r'. ReadWord rd m r = (None, r') \<longrightarrow> Error rd r' \<noteq> [])"

definition parse_post :: "'r WordParser \<Rightarrow> ErrorContext list \<Rightarrow> (py_node, 'r) outcome \<Rightarrow> bool" where
  "parse_post rd st out \<longleftrightarrow>
     (case out of
        Inl x \<Rightarrow> no_assert (fst x) \<and> length (words (snd x)) \<le> 2
      | Inr x \<Rightarrow> length (words (snd x)) = 1 \<and> cur_word (snd x) \<noteq> None \<and>
          (\<exists>es. error_stack (snd x) = st @ es \<and>
             (reports_errors rd \<longrightarrow> fst x = PyNone \<longrightarrow> es \<noteq> [])))"

text \<open>
  Notions for the runs over a finite list of words: \<open>pending\<close> counts the words not yet
  consumed (those left in the list and those buffered); \<open>one_word\<close> says that exactly one
  word is buffered and is the current word; \<open>ret p x\<close> says that the call \<open>x\<close> returns
  within its fuel and that \<open>p\<close> holds of its value and state when it does not raise.
\<close>

definition pending :: "(Word option list \<times> LexMode list) BoolParser \<Rightarrow> nat" where
  "pending s = length (fst (w_parser s)) + length (words s)"

definition one_word :: "'r BoolParser \<Rightarrow> bool" where
  "one_word s \<longleftrightarrow> length (words s) = 1 \<and> cur_word s \<noteq> None"

definition ret :: "('a \<Rightarrow> 'r BoolParser \<Rightarrow> bool) \<Rightarrow> ('a, 'r) outcome option \<Rightarrow> bool" where
  "ret p x \<longleftrightarrow> (\<exists>out. x = Some out \<and> (\<forall>v s. out = Inr (v, s) \<longrightarrow> p v s))"

section \<open>The registry: how each registration changes the tables\<close>

lemma fold_AddId_fields:
  "token_index (fold priv_AddId ns s) = token_index s + length ns"
  "kind_index (fold priv_AddId ns s) = kind_index s"
  "kind_enum (fold priv_AddId ns s) = kind_enum s"
  "bool_ops (fold priv_AddId ns s) = bool_ops s"
  by (induction ns arbitrary: s) (simp_all add: priv_AddId_def Let_def)

lemma fold_AddId_kind_lookup:
  "kind_lookup (fold priv_AddId ns s) i =
     (if token_index s < i \<and> i \<le> token_index s + length ns then Some (kind_index s)
      else kind_lookup s i)"
  by (induction ns arbitrary: s) (auto simp add: priv_AddId_def Let_def)

lemma fold_AddId_id_enum:
  "id_enum (fold priv_AddId ns s) =
     id_enum s ++ map_of (rev (zip ns [Suc (token_index s) ..< Suc (token_index s + length ns)]))"
proof (induction ns arbitrary: s)
  case Nil
  show ?case by simp
next
  case (Cons x xs)
  have upt: "[Suc (token_index s) ..< Suc (token_index s + length (x # xs))] =
       Suc (token_index s) # [Suc (Suc (token_index s)) ..< Suc (Suc (token_index s) + length xs)]"
    by (subst upt_conv_Cons) simp_all
  have step: "id_enum (priv_AddId x s) = (id_enum s)(x \<mapsto> Suc (token_index s))"
    "token_index (priv_AddId x s) = Suc (token_index s)"
    by (simp_all add: priv_AddId_def Let_def)
  show ?case
    unfolding fold_Cons comp_apply Cons.IH step upt
    by (simp add: map_add_upd_left)
qed


lemma fold_AddId_id_enum_apply:
  "id_enum (fold priv_AddId ns s) x =
     (case map_of (rev (zip ns [Suc (token_index s) ..< Suc (token_index s + length ns)])) x of
        None \<Rightarrow> id_enum s x | Some i \<Rightarrow> Some i)"
  by (simp add: fold_AddId_id_enum map_add_def)

lemma fold_add_bool_id_fields:
  "token_index (fold add_bool_id tns s) = token_index s + length tns"
  "kind_index (fold add_bool_id tns s) = kind_index s"
  "kind_enum (fold add_bool_id tns s) = kind_enum s"
  by (induction tns arbitrary: s) (simp_all add: add_bool_id_def priv_AddId_def AddBoolOp_def Let_def)

lemma fold_add_bool_id_kind_lookup:
  "kind_lookup (fold add_bool_id tns s) i =
     (if token_index s < i \<and> i \<le> token_index s + length tns then Some (kind_index s)
      else kind_lookup s i)"
  by (induction tns arbitrary: s) (auto simp add: add_bool_id_def priv_AddId_def AddBoolOp_def Let_def)

lemma fold_add_bool_id_bool_ops:
  "bool_ops (fold add_bool_id tns s) i =
     (if token_index s < i \<and> i \<le> token_index s + length tns
      then Some (fst (tns ! (i - Suc (token_index s))))
      else bool_ops s i)"
proof (induction tns arbitrary: s i)
  case Nil
  show ?case by auto
next
  case (Cons x xs)
  have step: "token_index (add_bool_id x s) = Suc (token_index s)"
    "bool_ops (add_bool_id x s) = (bool_ops s)(Suc (token_index s) \<mapsto> fst x)"
    by (simp_all add: add_bool_id_def priv_AddId_def AddBoolOp_def Let_def)
  show ?case
    unfolding fold_Cons comp_apply Cons.IH step
    by (auto simp add: nth_Cons' Suc_diff_Suc)
qed

lemma fold_add_bool_id_id_enum:
  "id_enum (fold add_bool_id tns s) =
     id_enum s ++ map_of (rev (zip (map snd tns) [Suc (token_index s) ..< Suc (token_index s + length tns)]))"
proof (induction tns arbitrary: s)
  case Nil
  show ?case by simp
next
  case (Cons x xs)
  have upt: "[Suc (token_index s) ..< Suc (token_index s + length (x # xs))] =
       Suc (token_index s) # [Suc (Suc (token_index s)) ..< Suc (Suc (token_index s) + length xs)]"
    by (subst upt_conv_Cons) simp_all
  have step: "id_enum (add_bool_id x s) = (id_enum s)(snd x \<mapsto> Suc (token_index s))"
    "token_index (add_bool_id x s) = Suc (token_index s)"
    by (simp_all add: add_bool_id_def priv_AddId_def AddBoolOp_def Let_def)
  show ?case
    unfolding fold_Cons comp_apply Cons.IH step upt
    by (simp add: map_add_upd_left)
qed

lemma fold_add_bool_id_id_enum_apply:
  "id_enum (fold add_bool_id tns s) x =
     (case map_of (rev (zip (map snd tns) [Suc (token_index s) ..< Suc (token_index s + length tns)])) x of
        None \<Rightarrow> id_enum s x | Some i \<Rightarrow> Some i)"
  by (simp add: fold_add_bool_id_id_enum map_add_def)

lemma fst_fold_AddKindPairs_step:
  "fst (fold (AddKindPairs_step k) ps acc) = fold priv_AddId (map (\<lambda>p. k @ ''_'' @ fst p) ps) (fst acc)"
  by (induction ps arbitrary: acc) (simp_all add: AddKindPairs_step_def Let_def)

lemma fst_fold_AddBoolKind_step:
  "fst (fold (AddBoolKind_step k ty) ps acc) =
     fold add_bool_id (map (\<lambda>p. (ty, k @ ''_'' @ fst p)) ps) (fst acc)"
  by (induction ps arbitrary: acc) (simp_all add: AddBoolKind_step_def add_bool_id_def Let_def)

lemma fst_fold_AddBoolKind_items:
  "fst (fold (\<lambda>item. fold (AddBoolKind_step k (fst item)) (snd item)) items acc) =
     fold add_bool_id (bool_names k items) (fst acc)"
  by (induction items arbitrary: acc) (simp_all add: bool_names_def fst_fold_AddBoolKind_step)

lemma AddKind_fold:
  "fold (\<lambda>name. priv_AddId (k @ ''_'' @ name)) ts s = fold priv_AddId (map (\<lambda>t. k @ ''_'' @ t) ts) s"
  by (simp add: fold_map comp_def)

lemma AddKind_fields:
  "token_index (AddKind k ts s) = token_index s + length ts"
  "kind_index (AddKind k ts s) = Suc (kind_index s)"
  "kind_enum (AddKind k ts s) = (kind_enum s)(k \<mapsto> kind_index s)"
  "bool_ops (AddKind k ts s) = bool_ops s"
  "kind_lookup (AddKind k ts s) i =
     (if token_index s < i \<and> i \<le> token_index s + length ts then Some (kind_index s)
      else kind_lookup s i)"
  "id_enum (AddKind k ts s) x =
     (case map_of (rev (zip (map (\<lambda>t. k @ ''_'' @ t) ts)
                     [Suc (token_index s) ..< Suc (token_index s + length ts)])) x of
        None \<Rightarrow> id_enum s x | Some i \<Rightarrow> Some i)"
  unfolding AddKind_def AddKind_fold
  by (simp_all add: priv_AddKind_def Let_def
        fold_AddId_fields fold_AddId_kind_lookup fold_AddId_id_enum_apply del: upt_Suc)

lemma AddKindPairs_fields:
  "token_index (AddKindPairs k ps s) = token_index s + length ps"
  "kind_index (AddKindPairs k ps s) = Suc (kind_index s)"
  "kind_enum (AddKindPairs k ps s) = (kind_enum s)(k \<mapsto> kind_index s)"
  "bool_ops (AddKindPairs k ps s) = bool_ops s"
  "kind_lookup (AddKindPairs k ps s) i =
     (if token_index s < i \<and> i \<le> token_index s + length ps then Some (kind_index s)
      else kind_lookup s i)"
  "id_enum (AddKindPairs k ps s) x =
     (case map_of (rev (zip (map (\<lambda>p. k @ ''_'' @ fst p) ps)
                     [Suc (token_index s) ..< Suc (token_index s + length ps)])) x of
        None \<Rightarrow> id_enum s x | Some i \<Rightarrow> Some i)"
  by (simp_all add: AddKindPairs_def priv_AddKind_def Let_def fst_fold_AddKindPairs_step
        fold_AddId_fields fold_AddId_kind_lookup fold_AddId_id_enum_apply del: upt_Suc)

lemma AddBoolKind_fields:
  "token_index (AddBoolKind k items s) = token_index s + length (bool_names k items)"
  "kind_index (AddBoolKind k items s) = Suc (kind_index s)"
  "kind_enum (AddBoolKind k items s) = (kind_enum s)(k \<mapsto> kind_index s)"
  "bool_ops (AddBoolKind k items s) i =
     (if token_index s < i \<and> i \<le> token_index s + length (bool_names k items)
      then Some (fst (bool_names k items ! (i - Suc (token_index s))))
      else bool_ops s i)"
  "kind_lookup (AddBoolKind k items s) i =
     (if token_index s < i \<and> i \<le> token_index s + length (bool_names k items) then Some (kind_index s)
      else kind_lookup s i)"
  "id_enum (AddBoolKind k items s) x =
     (case map_of (rev (zip (map snd (bool_names k items))
                     [Suc (token_index s) ..< Suc (token_index s + length (bool_names k items))])) x of
        None \<Rightarrow> id_enum s x | Some i \<Rightarrow> Some i)"
  by (simp_all add: AddBoolKind_def priv_AddKind_def Let_def fst_fold_AddBoolKind_items
        fold_add_bool_id_fields fold_add_bool_id_kind_lookup fold_add_bool_id_id_enum_apply
        fold_add_bool_id_bool_ops del: upt_Suc)


lemma reg_inv_init: "reg_inv 0 IdSpec_init"
  by (auto simp add: reg_inv_def IdSpec_init_def)

lemma priv_AddId_fields:
  "token_index (priv_AddId x s) = Suc (token_index s)"
  "kind_index (priv_AddId x s) = kind_index s"
  "id_enum (priv_AddId x s) = (id_enum s)(x \<mapsto> Suc (token_index s))"
  "token_names (priv_AddId x s) = (token_names s)(Suc (token_index s) \<mapsto> x)"
  "kind_lookup (priv_AddId x s) = (kind_lookup s)(Suc (token_index s) \<mapsto> kind_index s)"
  "bool_ops (priv_AddId x s) = bool_ops s"
  "kind_enum (priv_AddId x s) = kind_enum s"
  by (simp_all add: priv_AddId_def Let_def)

lemma reg_inv_AddId:
  assumes inv: "reg_inv b s" and b: "b \<le> Suc (kind_index s)"
  shows "reg_inv (Suc (kind_index s)) (priv_AddId x s)"
proof -
  from inv have
    a1: "\<And>y i. id_enum s y = Some i \<Longrightarrow> 0 < i \<and> i \<le> token_index s \<and> token_names s i = Some y" and
    a2: "\<And>i. 0 < i \<Longrightarrow> i \<le> token_index s \<Longrightarrow> \<exists>k. kind_lookup s i = Some k \<and> k < b" and
    a3: "\<And>i k. kind_lookup s i = Some k \<Longrightarrow> 0 < i \<and> i \<le> token_index s"
    unfolding reg_inv_def by blast+
  have c1: "0 < i \<and> i \<le> token_index (priv_AddId x s) \<and> token_names (priv_AddId x s) i = Some y"
    if "id_enum (priv_AddId x s) y = Some i" for y i
  proof (cases "y = x")
    case True
    with that show ?thesis by (auto simp add: priv_AddId_fields)
  next
    case False
    with that have "id_enum s y = Some i" by (simp add: priv_AddId_fields)
    from a1[OF this] show ?thesis by (auto simp add: priv_AddId_fields)
  qed
  have c2: "\<exists>k. kind_lookup (priv_AddId x s) i = Some k \<and> k < Suc (kind_index s)"
    if "0 < i" and "i \<le> token_index (priv_AddId x s)" for i
  proof (cases "i = Suc (token_index s)")
    case True
    then show ?thesis by (simp add: priv_AddId_fields)
  next
    case False
    with that have "i \<le> token_index s" by (simp add: priv_AddId_fields)
    from a2[OF that(1) this] obtain k where "kind_lookup s i = Some k" "k < b" by blast
    with False b show ?thesis by (auto simp add: priv_AddId_fields)
  qed
  have c3: "0 < i \<and> i \<le> token_index (priv_AddId x s)"
    if "kind_lookup (priv_AddId x s) i = Some k" for i k
  proof (cases "i = Suc (token_index s)")
    case True
    then show ?thesis by (simp add: priv_AddId_fields)
  next
    case False
    with that have "kind_lookup s i = Some k" by (simp add: priv_AddId_fields)
    from a3[OF this] show ?thesis by (auto simp add: priv_AddId_fields)
  qed
  show ?thesis
    unfolding reg_inv_def using c1 c2 c3 by blast
qed

lemma reg_inv_fold_AddId:
  "reg_inv b s \<Longrightarrow> b \<le> Suc (kind_index s) \<Longrightarrow> ns \<noteq> [] \<Longrightarrow>
     reg_inv (Suc (kind_index s)) (fold priv_AddId ns s)"
proof (induction ns arbitrary: s b)
  case Nil
  then show ?case by simp
next
  case (Cons x xs)
  have step: "reg_inv (Suc (kind_index s)) (priv_AddId x s)"
    using reg_inv_AddId[OF Cons.prems(1,2)] .
  show ?case
  proof (cases "xs = []")
    case True
    with step show ?thesis by simp
  next
    case False
    from Cons.IH[OF step _ False] show ?thesis by (simp add: priv_AddId_fields)
  qed
qed

lemma reg_inv_mono: "reg_inv b s \<Longrightarrow> b \<le> c \<Longrightarrow> reg_inv c s"
  unfolding reg_inv_def by (meson less_le_trans)

lemma reg_inv_fold_AddId':
  assumes "reg_inv (kind_index s) s"
  shows "reg_inv (Suc (kind_index s)) (fold priv_AddId ns s)"
proof (cases "ns = []")
  case True
  with assms show ?thesis by (simp add: reg_inv_mono)
next
  case False
  from reg_inv_fold_AddId[OF assms _ False] show ?thesis by simp
qed

lemma reg_inv_cong:
  assumes "reg_inv b s"
    and "id_enum s' = id_enum s" "token_index s' = token_index s"
    and "token_names s' = token_names s" "kind_lookup s' = kind_lookup s"
  shows "reg_inv b s'"
  using assms unfolding reg_inv_def by simp

lemma reg_inv_add_bool_id:
  assumes inv: "reg_inv b s" and b: "b \<le> Suc (kind_index s)"
  shows "reg_inv (Suc (kind_index s)) (add_bool_id tn s)"
  by (rule reg_inv_cong[OF reg_inv_AddId[OF inv b, of "snd tn"]])
     (simp_all add: add_bool_id_def AddBoolOp_def Let_def)

lemma add_bool_id_kind_index: "kind_index (add_bool_id tn s) = kind_index s"
  by (simp add: add_bool_id_def AddBoolOp_def priv_AddId_fields Let_def)

lemma reg_inv_fold_add_bool_id:
  "reg_inv b s \<Longrightarrow> b \<le> Suc (kind_index s) \<Longrightarrow> tns \<noteq> [] \<Longrightarrow>
     reg_inv (Suc (kind_index s)) (fold add_bool_id tns s)"
proof (induction tns arbitrary: s b)
  case Nil
  then show ?case by simp
next
  case (Cons x xs)
  have step: "reg_inv (Suc (kind_index s)) (add_bool_id x s)"
    using reg_inv_add_bool_id[OF Cons.prems(1,2)] .
  show ?case
  proof (cases "xs = []")
    case True
    with step show ?thesis by simp
  next
    case False
    from Cons.IH[OF step _ False] show ?thesis by (simp add: add_bool_id_kind_index)
  qed
qed

lemma reg_inv_fold_add_bool_id':
  assumes "reg_inv (kind_index s) s"
  shows "reg_inv (Suc (kind_index s)) (fold add_bool_id tns s)"
proof (cases "tns = []")
  case True
  with assms show ?thesis by (simp add: reg_inv_mono)
next
  case False
  from reg_inv_fold_add_bool_id[OF assms _ False] show ?thesis by simp
qed

lemma reg_inv_AddKind:
  assumes "reg_inv (kind_index s) s"
  shows "reg_inv (kind_index (AddKind k ts s)) (AddKind k ts s)"
  apply (subst AddKind_fields(2))
  unfolding AddKind_def AddKind_fold
  by (rule reg_inv_cong[OF reg_inv_fold_AddId'[OF assms, of "map (\<lambda>t. k @ ''_'' @ t) ts"]])
     (simp_all add: priv_AddKind_def Let_def)

lemma reg_inv_AddKindPairs:
  assumes "reg_inv (kind_index s) s"
  shows "reg_inv (kind_index (AddKindPairs k ps s)) (AddKindPairs k ps s)"
  unfolding AddKindPairs_fields
  by (rule reg_inv_cong[OF reg_inv_fold_AddId'[OF assms, of "map (\<lambda>p. k @ ''_'' @ fst p) ps"]])
     (simp_all add: AddKindPairs_def fst_fold_AddKindPairs_step priv_AddKind_def Let_def)

lemma reg_inv_AddBoolKind:
  assumes "reg_inv (kind_index s) s"
  shows "reg_inv (kind_index (AddBoolKind k items s)) (AddBoolKind k items s)"
  unfolding AddBoolKind_fields
  by (rule reg_inv_cong[OF reg_inv_fold_add_bool_id'[OF assms, of "bool_names k items"]])
     (simp_all add: AddBoolKind_def fst_fold_AddBoolKind_items priv_AddKind_def Let_def)

lemma reg_inv_AddBoolOp:
  assumes "reg_inv b s"
  shows "reg_inv b (AddBoolOp i t s)"
  by (rule reg_inv_cong[OF assms]) (simp_all add: AddBoolOp_def)

lemma kind_index_init: "kind_index IdSpec_init = 0"
  by (simp add: IdSpec_init_def)

lemma reg_inv_AddKinds: "reg_inv (kind_index (priv_AddKinds IdSpec_init)) (priv_AddKinds IdSpec_init)"
  unfolding priv_AddKinds_def
  by (intro reg_inv_AddKind reg_inv_AddKindPairs) (simp add: reg_inv_init kind_index_init)



lemma AddBoolOp_fields:
  "token_index (AddBoolOp i t s) = token_index s"
  "kind_index (AddBoolOp i t s) = kind_index s"
  "kind_enum (AddBoolOp i t s) = kind_enum s"
  "id_enum (AddBoolOp i t s) = id_enum s"
  "kind_lookup (AddBoolOp i t s) = kind_lookup s"
  "token_names (AddBoolOp i t s) = token_names s"
  by (simp_all add: AddBoolOp_def)

lemma AddBoolOp_bool_ops: "bool_ops (AddBoolOp i t s) = (bool_ops s)(i \<mapsto> t)"
  by (simp add: AddBoolOp_def)

lemma map_of_prefix_skip:
  assumes "\<forall>n \<in> set ns. take m n = pre" and "take m x \<noteq> pre"
  shows "map_of (rev (zip ns js)) x = None"
proof -
  have "x \<notin> set ns" using assms by auto
  then have "x \<notin> fst ` set (rev (zip ns js))"
    by (auto dest: set_zip_leftD)
  then show ?thesis by (simp add: map_of_eq_None_iff)
qed

lemma map_of_map_key_inj:
  assumes "inj f"
  shows "map_of (map (\<lambda>p. (f (fst p), snd p)) ps) (f x) = map_of ps x"
  using assms by (induction ps) (auto simp add: inj_eq)

lemma map_of_zip_map_inj:
  assumes "inj f"
  shows "map_of (rev (zip (map f ts) js)) (f x) = map_of (rev (zip ts js)) x"
proof -
  have "rev (zip (map f ts) js) = map (\<lambda>p. (f (fst p), snd p)) (rev (zip ts js))"
    by (simp add: zip_map1 rev_map case_prod_unfold)
  then show ?thesis by (simp add: map_of_map_key_inj[OF assms])
qed

lemma inj_kind_prefix: "inj (\<lambda>t. k @ ''_'' @ t)"
  by (rule injI) simp

lemma snd_bool_names:
  "map snd (bool_names k items) =
     map (\<lambda>t. k @ ''_'' @ t) (concat (map (\<lambda>item. map fst (snd item)) items))"
  by (simp add: bool_names_def map_concat comp_def)

lemma map_of_zip_upt:
  "map_of (zip [a ..< a + length xs] xs) i =
     (if a \<le> i \<and> i < a + length xs then Some (xs ! (i - a)) else None)"
proof (induction xs arbitrary: a)
  case Nil
  show ?case by simp
next
  case (Cons x xs)
  have upt: "[a ..< a + length (x # xs)] = a # [Suc a ..< Suc a + length xs]"
    by (subst upt_conv_Cons) simp_all
  show ?case
    unfolding upt using Cons.IH[of "Suc a"]
    by (auto simp add: nth_Cons' Suc_diff_le)
qed

lemma AddKind_stage:
  assumes "s' = AddKind k ts s"
  shows "token_index s' = token_index s + length ts"
    and "kind_index s' = Suc (kind_index s)"
    and "kind_enum s' = (kind_enum s)(k \<mapsto> kind_index s)"
    and "bool_ops s' = bool_ops s"
    and "kind_lookup s' i =
     (if token_index s < i \<and> i \<le> token_index s + length ts then Some (kind_index s)
      else kind_lookup s i)"
    and "id_enum s' x =
     (case map_of (rev (zip (map (\<lambda>t. k @ ''_'' @ t) ts)
                     [Suc (token_index s) ..< Suc (token_index s + length ts)])) x of
        None \<Rightarrow> id_enum s x | Some i \<Rightarrow> Some i)"
    and "take (Suc (length k)) x \<noteq> k @ ''_'' \<Longrightarrow> id_enum s' x = id_enum s x"
    and "id_enum s' (k @ ''_'' @ y) =
     (case map_of (rev (zip ts [Suc (token_index s) ..< Suc (token_index s + length ts)])) y of
        None \<Rightarrow> id_enum s (k @ ''_'' @ y) | Some i \<Rightarrow> Some i)"
  unfolding assms
       apply (simp_all only: AddKind_fields)
   apply (simp add: map_of_prefix_skip[where m = "Suc (length k)" and pre = "k @ ''_''"])
  apply (simp only: map_of_zip_map_inj[OF inj_kind_prefix])
  done

lemma AddKindPairs_stage:
  assumes "s' = AddKindPairs k ps s"
  shows "token_index s' = token_index s + length ps"
    and "kind_index s' = Suc (kind_index s)"
    and "kind_enum s' = (kind_enum s)(k \<mapsto> kind_index s)"
    and "bool_ops s' = bool_ops s"
    and "kind_lookup s' i =
     (if token_index s < i \<and> i \<le> token_index s + length ps then Some (kind_index s)
      else kind_lookup s i)"
    and "id_enum s' x =
     (case map_of (rev (zip (map (\<lambda>p. k @ ''_'' @ fst p) ps)
                     [Suc (token_index s) ..< Suc (token_index s + length ps)])) x of
        None \<Rightarrow> id_enum s x | Some i \<Rightarrow> Some i)"
    and "take (Suc (length k)) x \<noteq> k @ ''_'' \<Longrightarrow> id_enum s' x = id_enum s x"
    and "id_enum s' (k @ ''_'' @ y) =
     (case map_of (rev (zip (map fst ps) [Suc (token_index s) ..< Suc (token_index s + length ps)])) y of
        None \<Rightarrow> id_enum s (k @ ''_'' @ y) | Some i \<Rightarrow> Some i)"
proof -
  have names: "map (\<lambda>p. k @ ''_'' @ fst p) ps = map (\<lambda>t. k @ ''_'' @ t) (map fst ps)"
    by (simp add: comp_def)
  show "token_index s' = token_index s + length ps"
    and "kind_index s' = Suc (kind_index s)"
    and "kind_enum s' = (kind_enum s)(k \<mapsto> kind_index s)"
    and "bool_ops s' = bool_ops s"
    and "kind_lookup s' i =
     (if token_index s < i \<and> i \<le> token_index s + length ps then Some (kind_index s)
      else kind_lookup s i)"
    and "id_enum s' x =
     (case map_of (rev (zip (map (\<lambda>p. k @ ''_'' @ fst p) ps)
                     [Suc (token_index s) ..< Suc (token_index s + length ps)])) x of
        None \<Rightarrow> id_enum s x | Some i \<Rightarrow> Some i)"
    unfolding assms by (simp_all only: AddKindPairs_fields)
  show "take (Suc (length k)) x \<noteq> k @ ''_'' \<Longrightarrow> id_enum s' x = id_enum s x"
    unfolding assms AddKindPairs_fields
    by (simp add: map_of_prefix_skip[where m = "Suc (length k)" and pre = "k @ ''_''"])
  show "id_enum s' (k @ ''_'' @ y) =
     (case map_of (rev (zip (map fst ps) [Suc (token_index s) ..< Suc (token_index s + length ps)])) y of
        None \<Rightarrow> id_enum s (k @ ''_'' @ y) | Some i \<Rightarrow> Some i)"
    unfolding assms AddKindPairs_fields names
    by (simp only: map_of_zip_map_inj[OF inj_kind_prefix])
qed

lemma AddBoolKind_stage:
  assumes "s' = AddBoolKind k items s"
  shows "token_index s' = token_index s + length (bool_names k items)"
    and "kind_index s' = Suc (kind_index s)"
    and "kind_enum s' = (kind_enum s)(k \<mapsto> kind_index s)"
    and "bool_ops s' i =
     (if token_index s < i \<and> i \<le> token_index s + length (bool_names k items)
      then Some (fst (bool_names k items ! (i - Suc (token_index s))))
      else bool_ops s i)"
    and "kind_lookup s' i =
     (if token_index s < i \<and> i \<le> token_index s + length (bool_names k items) then Some (kind_index s)
      else kind_lookup s i)"
    and "id_enum s' x =
     (case map_of (rev (zip (map snd (bool_names k items))
                     [Suc (token_index s) ..< Suc (token_index s + length (bool_names k items))])) x of
        None \<Rightarrow> id_enum s x | Some i \<Rightarrow> Some i)"
    and "take (Suc (length k)) x \<noteq> k @ ''_'' \<Longrightarrow> id_enum s' x = id_enum s x"
    and "id_enum s' (k @ ''_'' @ y) =
     (case map_of (rev (zip (concat (map (\<lambda>item. map fst (snd item)) items))
                     [Suc (token_index s) ..< Suc (token_index s + length (bool_names k items))])) y of
        None \<Rightarrow> id_enum s (k @ ''_'' @ y) | Some i \<Rightarrow> Some i)"
    and "bool_ops s' i =
     (case map_of (zip [Suc (token_index s) ..< Suc (token_index s) + length (map fst (bool_names k items))]
                       (map fst (bool_names k items))) i of
        None \<Rightarrow> bool_ops s i | Some t \<Rightarrow> Some t)"
proof -
  show "bool_ops s' i =
     (case map_of (zip [Suc (token_index s) ..< Suc (token_index s) + length (map fst (bool_names k items))]
                       (map fst (bool_names k items))) i of
        None \<Rightarrow> bool_ops s i | Some t \<Rightarrow> Some t)"
    unfolding assms AddBoolKind_fields map_of_zip_upt
    by (auto simp add: Suc_le_eq)
  show "token_index s' = token_index s + length (bool_names k items)"
    and "kind_index s' = Suc (kind_index s)"
    and "kind_enum s' = (kind_enum s)(k \<mapsto> kind_index s)"
    and "bool_ops s' i =
     (if token_index s < i \<and> i \<le> token_index s + length (bool_names k items)
      then Some (fst (bool_names k items ! (i - Suc (token_index s))))
      else bool_ops s i)"
    and "kind_lookup s' i =
     (if token_index s < i \<and> i \<le> token_index s + length (bool_names k items) then Some (kind_index s)
      else kind_lookup s i)"
    and "id_enum s' x =
     (case map_of (rev (zip (map snd (bool_names k items))
                     [Suc (token_index s) ..< Suc (token_index s + length (bool_names k items))])) x of
        None \<Rightarrow> id_enum s x | Some i \<Rightarrow> Some i)"
    unfolding assms by (simp_all only: AddBoolKind_fields)
  show "take (Suc (length k)) x \<noteq> k @ ''_'' \<Longrightarrow> id_enum s' x = id_enum s x"
    unfolding assms AddBoolKind_fields
    by (simp add: map_of_prefix_skip[where m = "Suc (length k)" and pre = "k @ ''_''"] bool_names_def)
  show "id_enum s' (k @ ''_'' @ y) =
     (case map_of (rev (zip (concat (map (\<lambda>item. map fst (snd item)) items))
                     [Suc (token_index s) ..< Suc (token_index s + length (bool_names k items))])) y of
        None \<Rightarrow> id_enum s (k @ ''_'' @ y) | Some i \<Rightarrow> Some i)"
    unfolding assms AddBoolKind_fields snd_bool_names
    by (simp only: map_of_zip_map_inj[OF inj_kind_prefix])
qed

lemmas stage_eval = bool_names_def priv_Dash_def UNARY_FILE_CHARS_def

lemma ID_SPEC_tables:
  shows ID_SPEC_build_ok: "ID_SPEC_build = Inr ID_SPEC"
    and ID_SPEC_index: "token_index ID_SPEC = 221" "kind_index ID_SPEC = 21"
    and kind_lookup_ID_SPEC: "kind_lookup ID_SPEC i =
       (if 208 < i \<and> i \<le> 221 then Some 20
        else (if 183 < i \<and> i \<le> 208 then Some 19
        else (if 179 < i \<and> i \<le> 183 then Some 18
        else (if 163 < i \<and> i \<le> 179 then Some 17
        else (if 162 < i \<and> i \<le> 163 then Some 16
        else (if 142 < i \<and> i \<le> 162 then Some 15
        else (if 99 < i \<and> i \<le> 142 then Some 14
        else (if 95 < i \<and> i \<le> 99 then Some 13
        else (if 87 < i \<and> i \<le> 95 then Some 12
        else (if 79 < i \<and> i \<le> 87 then Some 11
        else (if 69 < i \<and> i \<le> 79 then Some 10
        else (if 57 < i \<and> i \<le> 69 then Some 9
        else (if 46 < i \<and> i \<le> 57 then Some 8
        else (if 36 < i \<and> i \<le> 46 then Some 7
        else (if 24 < i \<and> i \<le> 36 then Some 6
        else (if 9 < i \<and> i \<le> 24 then Some 5
        else (if 8 < i \<and> i \<le> 9 then Some 4
        else (if 5 < i \<and> i \<le> 8 then Some 3
        else (if 2 < i \<and> i \<le> 5 then Some 2
        else (if 1 < i \<and> i \<le> 2 then Some 1
        else (if 0 < i \<and> i \<le> 1 then Some 0
        else None)))))))))))))))))))))"
    and kind_enum_ID_SPEC: "kind_enum ID_SPEC =
       Map.empty(''Undefined'' \<mapsto> 0, ''Unknown'' \<mapsto> 1, ''Eof'' \<mapsto> 2, ''Ignored'' \<mapsto> 3, ''WS'' \<mapsto> 4, ''Lit'' \<mapsto> 5, ''Op'' \<mapsto> 6, ''Redir'' \<mapsto> 7, 
         ''Left'' \<mapsto> 8, ''Right'' \<mapsto> 9, ''VSub'' \<mapsto> 10, ''VTest'' \<mapsto> 11, ''VOp1'' \<mapsto> 12, ''VOp2'' \<mapsto> 13, ''Arith'' \<mapsto> 14, 
         ''Node'' \<mapsto> 15, ''Word'' \<mapsto> 16, ''KW'' \<mapsto> 17, ''Assign'' \<mapsto> 18, ''BoolUnary'' \<mapsto> 19, ''BoolBinary'' \<mapsto> 20)"
    and bool_ops_ID_SPEC_dom: "\<forall>i. 183 < i \<and> i \<le> 221 \<longrightarrow> bool_ops ID_SPEC i \<noteq> None"
    and id_enum_ID_SPEC:
      "id_enum ID_SPEC ''Undefined_Tok'' = Some 1"
      "id_enum ID_SPEC ''Eof_Real'' = Some 3"
      "id_enum ID_SPEC ''Lit_Chars'' = Some 10"
      "id_enum ID_SPEC ''Lit_VarLike'' = Some 11"
      "id_enum ID_SPEC ''Lit_EscapedChar'' = Some 13"
      "id_enum ID_SPEC ''Lit_DRightBracket'' = Some 17"
      "id_enum ID_SPEC ''Lit_Tilde'' = Some 18"
      "id_enum ID_SPEC ''Lit_ArithVarLike'' = Some 24"
      "id_enum ID_SPEC ''Op_Newline'' = Some 25"
      "id_enum ID_SPEC ''Op_DAmp'' = Some 29"
      "id_enum ID_SPEC ''Op_DPipe'' = Some 30"
      "id_enum ID_SPEC ''Op_LParen'' = Some 33"
      "id_enum ID_SPEC ''Op_RParen'' = Some 34"
      "id_enum ID_SPEC ''Redir_Less'' = Some 37"
      "id_enum ID_SPEC ''Redir_Great'' = Some 38"
      "id_enum ID_SPEC ''Left_DoubleQuote'' = Some 47"
      "id_enum ID_SPEC ''Left_SingleQuote'' = Some 48"
      "id_enum ID_SPEC ''Left_CommandSub'' = Some 50"
      "id_enum ID_SPEC ''Left_VarSub'' = Some 51"
      "id_enum ID_SPEC ''Left_ArithSub'' = Some 52"
      "id_enum ID_SPEC ''Right_ArrayLiteral'' = Some 69"
      "id_enum ID_SPEC ''Word_Compound'' = Some 163"
      "id_enum ID_SPEC ''KW_Bang'' = Some 165"
      "id_enum ID_SPEC ''BoolUnary_z'' = Some 184"
      "id_enum ID_SPEC ''BoolUnary_n'' = Some 185"
      "id_enum ID_SPEC ''BoolUnary_o'' = Some 186"
      "id_enum ID_SPEC ''BoolUnary_v'' = Some 187"
      "id_enum ID_SPEC ''BoolUnary_R'' = Some 188"
      "id_enum ID_SPEC ''BoolUnary_a'' = Some 189"
      "id_enum ID_SPEC ''BoolUnary_b'' = Some 190"
      "id_enum ID_SPEC ''BoolUnary_c'' = Some 191"
      "id_enum ID_SPEC ''BoolUnary_d'' = Some 192"
      "id_enum ID_SPEC ''BoolUnary_e'' = Some 193"
      "id_enum ID_SPEC ''BoolUnary_f'' = Some 194"
      "id_enum ID_SPEC ''BoolUnary_g'' = Some 195"
      "id_enum ID_SPEC ''BoolUnary_h'' = Some 196"
      "id_enum ID_SPEC ''BoolUnary_L'' = Some 197"
      "id_enum ID_SPEC ''BoolUnary_p'' = Some 198"
      "id_enum ID_SPEC ''BoolUnary_r'' = Some 199"
      "id_enum ID_SPEC ''BoolUnary_s'' = Some 200"
      "id_enum ID_SPEC ''BoolUnary_S'' = Some 201"
      "id_enum ID_SPEC ''BoolUnary_t'' = Some 202"
      "id_enum ID_SPEC ''BoolUnary_u'' = Some 203"
      "id_enum ID_SPEC ''BoolUnary_w'' = Some 204"
      "id_enum ID_SPEC ''BoolUnary_x'' = Some 205"
      "id_enum ID_SPEC ''BoolUnary_O'' = Some 206"
      "id_enum ID_SPEC ''BoolUnary_G'' = Some 207"
      "id_enum ID_SPEC ''BoolUnary_N'' = Some 208"
      "id_enum ID_SPEC ''BoolBinary_Equal'' = Some 209"
      "id_enum ID_SPEC ''BoolBinary_DEqual'' = Some 210"
      "id_enum ID_SPEC ''BoolBinary_NEqual'' = Some 211"
      "id_enum ID_SPEC ''BoolBinary_EqualTilde'' = Some 212"
      "id_enum ID_SPEC ''BoolBinary_ef'' = Some 213"
      "id_enum ID_SPEC ''BoolBinary_nt'' = Some 214"
      "id_enum ID_SPEC ''BoolBinary_ot'' = Some 215"
      "id_enum ID_SPEC ''BoolBinary_eq'' = Some 216"
      "id_enum ID_SPEC ''BoolBinary_ne'' = Some 217"
      "id_enum ID_SPEC ''BoolBinary_gt'' = Some 218"
      "id_enum ID_SPEC ''BoolBinary_ge'' = Some 219"
      "id_enum ID_SPEC ''BoolBinary_lt'' = Some 220"
      "id_enum ID_SPEC ''BoolBinary_le'' = Some 221"
    and bool_ops_ID_SPEC:
      "bool_ops ID_SPEC 184 = Some OperandType_Str"
      "bool_ops ID_SPEC 185 = Some OperandType_Str"
      "bool_ops ID_SPEC 186 = Some OperandType_Other"
      "bool_ops ID_SPEC 187 = Some OperandType_Other"
      "bool_ops ID_SPEC 188 = Some OperandType_Other"
      "bool_ops ID_SPEC 189 = Some OperandType_Path"
      "bool_ops ID_SPEC 190 = Some OperandType_Path"
      "bool_ops ID_SPEC 191 = Some OperandType_Path"
      "bool_ops ID_SPEC 192 = Some OperandType_Path"
      "bool_ops ID_SPEC 193 = Some OperandType_Path"
      "bool_ops ID_SPEC 194 = Some OperandType_Path"
      "bool_ops ID_SPEC 195 = Some OperandType_Path"
      "bool_ops ID_SPEC 196 = Some OperandType_Path"
      "bool_ops ID_SPEC 197 = Some OperandType_Path"
      "bool_ops ID_SPEC 198 = Some OperandType_Path"
      "bool_ops ID_SPEC 199 = Some OperandType_Path"
      "bool_ops ID_SPEC 200 = Some OperandType_Path"
      "bool_ops ID_SPEC 201 = Some OperandType_Path"
      "bool_ops ID_SPEC 202 = Some OperandType_Path"
      "bool_ops ID_SPEC 203 = Some OperandType_Path"
      "bool_ops ID_SPEC 204 = Some OperandType_Path"
      "bool_ops ID_SPEC 205 = Some OperandType_Path"
      "bool_ops ID_SPEC 206 = Some OperandType_Path"
      "bool_ops ID_SPEC 207 = Some OperandType_Path"
      "bool_ops ID_SPEC 208 = Some OperandType_Path"
      "bool_ops ID_SPEC 209 = Some OperandType_Str"
      "bool_ops ID_SPEC 210 = Some OperandType_Str"
      "bool_ops ID_SPEC 211 = Some OperandType_Str"
      "bool_ops ID_SPEC 212 = Some OperandType_Str"
      "bool_ops ID_SPEC 213 = Some OperandType_Path"
      "bool_ops ID_SPEC 214 = Some OperandType_Path"
      "bool_ops ID_SPEC 215 = Some OperandType_Path"
      "bool_ops ID_SPEC 216 = Some OperandType_Int"
      "bool_ops ID_SPEC 217 = Some OperandType_Int"
      "bool_ops ID_SPEC 218 = Some OperandType_Int"
      "bool_ops ID_SPEC 219 = Some OperandType_Int"
      "bool_ops ID_SPEC 220 = Some OperandType_Int"
      "bool_ops ID_SPEC 221 = Some OperandType_Int"
      "bool_ops ID_SPEC 29 = Some OperandType_Undefined"
      "bool_ops ID_SPEC 30 = Some OperandType_Undefined"
      "bool_ops ID_SPEC 165 = Some OperandType_Undefined"
      "bool_ops ID_SPEC 37 = Some OperandType_Str"
      "bool_ops ID_SPEC 38 = Some OperandType_Str"
proof -
  define s0 where "s0 = IdSpec_init"
  define s1 where "s1 = AddKind ''Undefined'' [''Tok''] s0"
  define s2 where "s2 = AddKind ''Unknown'' [''Tok''] s1"
  define s3 where "s3 = AddKind ''Eof'' [''Real'', ''RParen'', ''Backtick''] s2"
  define s4 where "s4 = AddKind ''Ignored'' [''LineCont'', ''Space'', ''Comment''] s3"
  define s5 where "s5 = AddKind ''WS'' [''Space''] s4"
  define s6 where "s6 = AddKind ''Lit'' [''Chars'', ''VarLike'', ''Other'', ''EscapedChar'', ''LBrace'', ''RBrace'', ''Comma'', ''DRightBracket'', ''Tilde'', ''Pound'', ''Slash'', ''Percent'', ''Digits'', ''At'', ''ArithVarLike''] s5"
  define s7 where "s7 = AddKind ''Op'' [''Newline'', ''Amp'', ''Pipe'', ''PipeAmp'', ''DAmp'', ''DPipe'', ''Semi'', ''DSemi'', ''LParen'', ''RParen'', ''DLeftParen'', ''DRightParen''] s6"
  define s8 where "s8 = AddKind ''Redir'' [''Less'', ''Great'', ''DLess'', ''TLess'', ''DGreat'', ''GreatAnd'', ''LessAnd'', ''DLessDash'', ''LessGreat'', ''Clobber''] s7"
  define s9 where "s9 = AddKind ''Left'' [''DoubleQuote'', ''SingleQuote'', ''Backtick'', ''CommandSub'', ''VarSub'', ''ArithSub'', ''ArithSub2'', ''DollarDoubleQuote'', ''DollarSingleQuote'', ''ProcSubIn'', ''ProcSubOut''] s8"
  define s10 where "s10 = AddKind ''Right'' [''DoubleQuote'', ''SingleQuote'', ''Backtick'', ''CommandSub'', ''VarSub'', ''ArithSub'', ''DollarDoubleQuote'', ''DollarSingleQuote'', ''Subshell'', ''FuncDef'', ''CasePat'', ''ArrayLiteral''] s9"
  define s11 where "s11 = AddKind ''VSub'' [''Name'', ''Number'', ''Bang'', ''At'', ''Pound'', ''Dollar'', ''Amp'', ''Star'', ''Hyphen'', ''QMark''] s10"
  define s12 where "s12 = AddKindPairs ''VTest'' [ (''ColonHyphen'', '':-''), (''Hyphen'', ''-''), (''ColonEquals'', '':=''), (''Equals'', ''=''), (''ColonQMark'', '':?''), (''QMark'', ''?''), (''ColonPlus'', '':+''), (''Plus'', ''+'')] s11"
  define s13 where "s13 = AddKindPairs ''VOp1'' [ (''Percent'', ''%''), (''DPercent'', ''%%''), (''Pound'', ''#''), (''DPound'', ''##''), (''Caret'', ''^''), (''DCaret'', ''^^''), (''Comma'', '',''), (''DComma'', '',,'')] s12"
  define s14 where "s14 = AddKindPairs ''VOp2'' [ (''Slash'', ''/''), (''Colon'', '':''), (''LBracket'', ''[''), (''RBracket'', '']'')] s13"
  define s15 where "s15 = AddKindPairs ''Arith'' [ (''Semi'', '';''), (''Comma'', '',''), (''Plus'', ''+''), (''Minus'', ''-''), (''Star'', ''*''), (''Slash'', ''/''), (''Percent'', ''%''), (''DPlus'', ''++''), (''DMinus'', ''--''), (''DStar'', ''**''), (''LParen'', ''(''), (''RParen'', '')''), (''LBracket'', ''[''), (''RBracket'', '']''), (''RBrace'', ''}''), (''QMark'', ''?''), (''Colon'', '':''), (''LessEqual'', ''<=''), (''Less'', ''<''), (''GreatEqual'', ''>=''), (''Great'', ''>''), (''DEqual'', ''==''), (''NEqual'', ''!=''), (''DAmp'', ''&&''), (''DPipe'', ''||''), (''Bang'', ''!''), (''DGreat'', ''>>''), (''DLess'', ''<<''), (''Amp'', ''&''), (''Pipe'', ''|''), (''Caret'', ''^''), (''Tilde'', ''~''), (''Equal'', ''=''), (''PlusEqual'', ''+=''), (''MinusEqual'', ''-=''), (''StarEqual'', ''*=''), (''SlashEqual'', ''/=''), (''PercentEqual'', ''%=''), (''DGreatEqual'', ''>>=''), (''DLessEqual'', ''<<=''), (''AmpEqual'', ''&=''), (''PipeEqual'', ''|=''), (''CaretEqual'', ''^='')] s14"
  define s16 where "s16 = AddKind ''Node'' [''PostDPlus'', ''PostDMinus'', ''UnaryPlus'', ''UnaryMinus'', ''ArithVar'', ''Command'', ''Assign'', ''AndOr'', ''Block'', ''Subshell'', ''Fork'', ''FuncDef'', ''ForEach'', ''ForExpr'', ''NoOp'', ''UnaryExpr'', ''BinaryExpr'', ''TernaryExpr'', ''FuncCall'', ''ConstInt''] s15"
  define s17 where "s17 = AddKind ''Word'' [''Compound''] s16"
  define s18 where "s18 = AddKind ''KW'' [''DLeftBracket'', ''Bang'', ''For'', ''While'', ''Until'', ''Do'', ''Done'', ''In'', ''Case'', ''Esac'', ''If'', ''Fi'', ''Then'', ''Else'', ''Elif'', ''Function''] s17"
  define s19 where "s19 = AddKind ''Assign'' [''Declare'', ''Export'', ''Local'', ''Readonly''] s18"
  define s20 where "s20 = AddBoolKind ''BoolUnary'' [ (OperandType_Str, priv_Dash (map (\<lambda>c. [c]) ''zn'')), (OperandType_Other, priv_Dash (map (\<lambda>c. [c]) ''ovR'')), (OperandType_Path, priv_Dash UNARY_FILE_CHARS)] s19"
  define s21 where "s21 = AddBoolKind ''BoolBinary'' [ (OperandType_Str, [(''Equal'', ''=''), (''DEqual'', ''==''), (''NEqual'', ''!=''), (''EqualTilde'', ''=~'')]), (OperandType_Path, priv_Dash [''ef'', ''nt'', ''ot'']), (OperandType_Int, priv_Dash [''eq'', ''ne'', ''gt'', ''ge'', ''lt'', ''le''])] s20"
  have kinds: "priv_AddKinds IdSpec_init = s19"
    unfolding priv_AddKinds_def s0_def s1_def s2_def s3_def s4_def s5_def s6_def s7_def s8_def s9_def s10_def s11_def s12_def s13_def s14_def s15_def s16_def s17_def s18_def s19_def
    by (rule refl)
  have bools: "priv_AddBoolKinds_kinds s19 = s21"
    unfolding priv_AddBoolKinds_kinds_def s20_def s21_def
    by (rule refl)
  have t0: "token_index s0 = 0" "kind_index s0 = 0"
    by (simp_all add: s0_def IdSpec_init_def)
  have e0: "id_enum s0 = Map.empty" "kind_enum s0 = Map.empty" "kind_lookup s0 = Map.empty"
    "bool_ops s0 = Map.empty"
    by (simp_all add: s0_def IdSpec_init_def)
  note st1 = AddKind_stage[OF s1_def]
  have t1: "token_index s1 = 1" "kind_index s1 = 1"
    by (simp_all add: st1(1,2) t0 stage_eval)
  note st2 = AddKind_stage[OF s2_def]
  have t2: "token_index s2 = 2" "kind_index s2 = 2"
    by (simp_all add: st2(1,2) t1 stage_eval)
  note st3 = AddKind_stage[OF s3_def]
  have t3: "token_index s3 = 5" "kind_index s3 = 3"
    by (simp_all add: st3(1,2) t2 stage_eval)
  note st4 = AddKind_stage[OF s4_def]
  have t4: "token_index s4 = 8" "kind_index s4 = 4"
    by (simp_all add: st4(1,2) t3 stage_eval)
  note st5 = AddKind_stage[OF s5_def]
  have t5: "token_index s5 = 9" "kind_index s5 = 5"
    by (simp_all add: st5(1,2) t4 stage_eval)
  note st6 = AddKind_stage[OF s6_def]
  have t6: "token_index s6 = 24" "kind_index s6 = 6"
    by (simp_all add: st6(1,2) t5 stage_eval)
  note st7 = AddKind_stage[OF s7_def]
  have t7: "token_index s7 = 36" "kind_index s7 = 7"
    by (simp_all add: st7(1,2) t6 stage_eval)
  note st8 = AddKind_stage[OF s8_def]
  have t8: "token_index s8 = 46" "kind_index s8 = 8"
    by (simp_all add: st8(1,2) t7 stage_eval)
  note st9 = AddKind_stage[OF s9_def]
  have t9: "token_index s9 = 57" "kind_index s9 = 9"
    by (simp_all add: st9(1,2) t8 stage_eval)
  note st10 = AddKind_stage[OF s10_def]
  have t10: "token_index s10 = 69" "kind_index s10 = 10"
    by (simp_all add: st10(1,2) t9 stage_eval)
  note st11 = AddKind_stage[OF s11_def]
  have t11: "token_index s11 = 79" "kind_index s11 = 11"
    by (simp_all add: st11(1,2) t10 stage_eval)
  note st12 = AddKindPairs_stage[OF s12_def]
  have t12: "token_index s12 = 87" "kind_index s12 = 12"
    by (simp_all add: st12(1,2) t11 stage_eval)
  note st13 = AddKindPairs_stage[OF s13_def]
  have t13: "token_index s13 = 95" "kind_index s13 = 13"
    by (simp_all add: st13(1,2) t12 stage_eval)
  note st14 = AddKindPairs_stage[OF s14_def]
  have t14: "token_index s14 = 99" "kind_index s14 = 14"
    by (simp_all add: st14(1,2) t13 stage_eval)
  note st15 = AddKindPairs_stage[OF s15_def]
  have t15: "token_index s15 = 142" "kind_index s15 = 15"
    by (simp_all add: st15(1,2) t14 stage_eval)
  note st16 = AddKind_stage[OF s16_def]
  have t16: "token_index s16 = 162" "kind_index s16 = 16"
    by (simp_all add: st16(1,2) t15 stage_eval)
  note st17 = AddKind_stage[OF s17_def]
  have t17: "token_index s17 = 163" "kind_index s17 = 17"
    by (simp_all add: st17(1,2) t16 stage_eval)
  note st18 = AddKind_stage[OF s18_def]
  have t18: "token_index s18 = 179" "kind_index s18 = 18"
    by (simp_all add: st18(1,2) t17 stage_eval)
  note st19 = AddKind_stage[OF s19_def]
  have t19: "token_index s19 = 183" "kind_index s19 = 19"
    by (simp_all add: st19(1,2) t18 stage_eval)
  note st20 = AddBoolKind_stage[OF s20_def]
  have t20: "token_index s20 = 208" "kind_index s20 = 20"
    by (simp_all add: st20(1,2) t19 stage_eval)
  note st21 = AddBoolKind_stage[OF s21_def]
  have t21: "token_index s21 = 221" "kind_index s21 = 21"
    by (simp_all add: st21(1,2) t20 stage_eval)
  have kl1: "kind_lookup s1 i = (if 0 < i \<and> i \<le> 1 then Some 0 else kind_lookup s0 i)" for i
    by (simp add: st1(5) t0 stage_eval)
  have ke1: "kind_enum s1 = (kind_enum s0)(''Undefined'' \<mapsto> 0)"
    by (simp add: st1(3) t0)
  have kl2: "kind_lookup s2 i = (if 1 < i \<and> i \<le> 2 then Some 1 else kind_lookup s1 i)" for i
    by (simp add: st2(5) t1 stage_eval)
  have ke2: "kind_enum s2 = (kind_enum s1)(''Unknown'' \<mapsto> 1)"
    by (simp add: st2(3) t1)
  have kl3: "kind_lookup s3 i = (if 2 < i \<and> i \<le> 5 then Some 2 else kind_lookup s2 i)" for i
    by (simp add: st3(5) t2 stage_eval)
  have ke3: "kind_enum s3 = (kind_enum s2)(''Eof'' \<mapsto> 2)"
    by (simp add: st3(3) t2)
  have kl4: "kind_lookup s4 i = (if 5 < i \<and> i \<le> 8 then Some 3 else kind_lookup s3 i)" for i
    by (simp add: st4(5) t3 stage_eval)
  have ke4: "kind_enum s4 = (kind_enum s3)(''Ignored'' \<mapsto> 3)"
    by (simp add: st4(3) t3)
  have kl5: "kind_lookup s5 i = (if 8 < i \<and> i \<le> 9 then Some 4 else kind_lookup s4 i)" for i
    by (simp add: st5(5) t4 stage_eval)
  have ke5: "kind_enum s5 = (kind_enum s4)(''WS'' \<mapsto> 4)"
    by (simp add: st5(3) t4)
  have kl6: "kind_lookup s6 i = (if 9 < i \<and> i \<le> 24 then Some 5 else kind_lookup s5 i)" for i
    by (simp add: st6(5) t5 stage_eval)
  have ke6: "kind_enum s6 = (kind_enum s5)(''Lit'' \<mapsto> 5)"
    by (simp add: st6(3) t5)
  have kl7: "kind_lookup s7 i = (if 24 < i \<and> i \<le> 36 then Some 6 else kind_lookup s6 i)" for i
    by (simp add: st7(5) t6 stage_eval)
  have ke7: "kind_enum s7 = (kind_enum s6)(''Op'' \<mapsto> 6)"
    by (simp add: st7(3) t6)
  have kl8: "kind_lookup s8 i = (if 36 < i \<and> i \<le> 46 then Some 7 else kind_lookup s7 i)" for i
    by (simp add: st8(5) t7 stage_eval)
  have ke8: "kind_enum s8 = (kind_enum s7)(''Redir'' \<mapsto> 7)"
    by (simp add: st8(3) t7)
  have kl9: "kind_lookup s9 i = (if 46 < i \<and> i \<le> 57 then Some 8 else kind_lookup s8 i)" for i
    by (simp add: st9(5) t8 stage_eval)
  have ke9: "kind_enum s9 = (kind_enum s8)(''Left'' \<mapsto> 8)"
    by (simp add: st9(3) t8)
  have kl10: "kind_lookup s10 i = (if 57 < i \<and> i \<le> 69 then Some 9 else kind_lookup s9 i)" for i
    by (simp add: st10(5) t9 stage_eval)
  have ke10: "kind_enum s10 = (kind_enum s9)(''Right'' \<mapsto> 9)"
    by (simp add: st10(3) t9)
  have kl11: "kind_lookup s11 i = (if 69 < i \<and> i \<le> 79 then Some 10 else kind_lookup s10 i)" for i
    by (simp add: st11(5) t10 stage_eval)
  have ke11: "kind_enum s11 = (kind_enum s10)(''VSub'' \<mapsto> 10)"
    by (simp add: st11(3) t10)
  have kl12: "kind_lookup s12 i = (if 79 < i \<and> i \<le> 87 then Some 11 else kind_lookup s11 i)" for i
    by (simp add: st12(5) t11 stage_eval)
  have ke12: "kind_enum s12 = (kind_enum s11)(''VTest'' \<mapsto> 11)"
    by (simp add: st12(3) t11)
  have kl13: "kind_lookup s13 i = (if 87 < i \<and> i \<le> 95 then Some 12 else kind_lookup s12 i)" for i
    by (simp add: st13(5) t12 stage_eval)
  have ke13: "kind_enum s13 = (kind_enum s12)(''VOp1'' \<mapsto> 12)"
    by (simp add: st13(3) t12)
  have kl14: "kind_lookup s14 i = (if 95 < i \<and> i \<le> 99 then Some 13 else kind_lookup s13 i)" for i
    by (simp add: st14(5) t13 stage_eval)
  have ke14: "kind_enum s14 = (kind_enum s13)(''VOp2'' \<mapsto> 13)"
    by (simp add: st14(3) t13)
  have kl15: "kind_lookup s15 i = (if 99 < i \<and> i \<le> 142 then Some 14 else kind_lookup s14 i)" for i
    by (simp add: st15(5) t14 stage_eval)
  have ke15: "kind_enum s15 = (kind_enum s14)(''Arith'' \<mapsto> 14)"
    by (simp add: st15(3) t14)
  have kl16: "kind_lookup s16 i = (if 142 < i \<and> i \<le> 162 then Some 15 else kind_lookup s15 i)" for i
    by (simp add: st16(5) t15 stage_eval)
  have ke16: "kind_enum s16 = (kind_enum s15)(''Node'' \<mapsto> 15)"
    by (simp add: st16(3) t15)
  have kl17: "kind_lookup s17 i = (if 162 < i \<and> i \<le> 163 then Some 16 else kind_lookup s16 i)" for i
    by (simp add: st17(5) t16 stage_eval)
  have ke17: "kind_enum s17 = (kind_enum s16)(''Word'' \<mapsto> 16)"
    by (simp add: st17(3) t16)
  have kl18: "kind_lookup s18 i = (if 163 < i \<and> i \<le> 179 then Some 17 else kind_lookup s17 i)" for i
    by (simp add: st18(5) t17 stage_eval)
  have ke18: "kind_enum s18 = (kind_enum s17)(''KW'' \<mapsto> 17)"
    by (simp add: st18(3) t17)
  have kl19: "kind_lookup s19 i = (if 179 < i \<and> i \<le> 183 then Some 18 else kind_lookup s18 i)" for i
    by (simp add: st19(5) t18 stage_eval)
  have ke19: "kind_enum s19 = (kind_enum s18)(''Assign'' \<mapsto> 18)"
    by (simp add: st19(3) t18)
  have kl20: "kind_lookup s20 i = (if 183 < i \<and> i \<le> 208 then Some 19 else kind_lookup s19 i)" for i
    by (simp add: st20(5) t19 stage_eval)
  have ke20: "kind_enum s20 = (kind_enum s19)(''BoolUnary'' \<mapsto> 19)"
    by (simp add: st20(3) t19)
  have kl21: "kind_lookup s21 i = (if 208 < i \<and> i \<le> 221 then Some 20 else kind_lookup s20 i)" for i
    by (simp add: st21(5) t20 stage_eval)
  have ke21: "kind_enum s21 = (kind_enum s20)(''BoolBinary'' \<mapsto> 20)"
    by (simp add: st21(3) t20)
  have kl: "kind_lookup s21 i =
       (if 208 < i \<and> i \<le> 221 then Some 20
        else (if 183 < i \<and> i \<le> 208 then Some 19
        else (if 179 < i \<and> i \<le> 183 then Some 18
        else (if 163 < i \<and> i \<le> 179 then Some 17
        else (if 162 < i \<and> i \<le> 163 then Some 16
        else (if 142 < i \<and> i \<le> 162 then Some 15
        else (if 99 < i \<and> i \<le> 142 then Some 14
        else (if 95 < i \<and> i \<le> 99 then Some 13
        else (if 87 < i \<and> i \<le> 95 then Some 12
        else (if 79 < i \<and> i \<le> 87 then Some 11
        else (if 69 < i \<and> i \<le> 79 then Some 10
        else (if 57 < i \<and> i \<le> 69 then Some 9
        else (if 46 < i \<and> i \<le> 57 then Some 8
        else (if 36 < i \<and> i \<le> 46 then Some 7
        else (if 24 < i \<and> i \<le> 36 then Some 6
        else (if 9 < i \<and> i \<le> 24 then Some 5
        else (if 8 < i \<and> i \<le> 9 then Some 4
        else (if 5 < i \<and> i \<le> 8 then Some 3
        else (if 2 < i \<and> i \<le> 5 then Some 2
        else (if 1 < i \<and> i \<le> 2 then Some 1
        else (if 0 < i \<and> i \<le> 1 then Some 0
        else None)))))))))))))))))))))"
    unfolding kl21 kl20 kl19 kl18 kl17 kl16 kl15 kl14 kl13 kl12 kl11 kl10 kl9 kl8 kl7 kl6 kl5 kl4 kl3 kl2 kl1 e0(3) by (rule refl)
  have ke: "kind_enum s21 =
       Map.empty(''Undefined'' \<mapsto> 0, ''Unknown'' \<mapsto> 1, ''Eof'' \<mapsto> 2, ''Ignored'' \<mapsto> 3, ''WS'' \<mapsto> 4, ''Lit'' \<mapsto> 5, ''Op'' \<mapsto> 6, ''Redir'' \<mapsto> 7, 
         ''Left'' \<mapsto> 8, ''Right'' \<mapsto> 9, ''VSub'' \<mapsto> 10, ''VTest'' \<mapsto> 11, ''VOp1'' \<mapsto> 12, ''VOp2'' \<mapsto> 13, ''Arith'' \<mapsto> 14, 
         ''Node'' \<mapsto> 15, ''Word'' \<mapsto> 16, ''KW'' \<mapsto> 17, ''Assign'' \<mapsto> 18, ''BoolUnary'' \<mapsto> 19, ''BoolBinary'' \<mapsto> 20)"
    unfolding ke21 ke20 ke19 ke18 ke17 ke16 ke15 ke14 ke13 ke12 ke11 ke10 ke9 ke8 ke7 ke6 ke5 ke4 ke3 ke2 ke1 e0(2) by (rule refl)
  note h1 = st1(8)[unfolded stage_eval t0, simplified]
  have id1: "id_enum s21 ''Undefined_Tok'' = Some 1"
    by (simp_all add: st2(7) st3(7) st4(7) st5(7) st6(7) st7(7) st8(7) st9(7) st10(7) st11(7) st12(7) st13(7) st14(7) st15(7) st16(7) st17(7) st18(7) st19(7) st20(7) st21(7) h1)
  note h3 = st3(8)[unfolded stage_eval t2, simplified]
  have id3: "id_enum s21 ''Eof_Real'' = Some 3"
    by (simp_all add: st4(7) st5(7) st6(7) st7(7) st8(7) st9(7) st10(7) st11(7) st12(7) st13(7) st14(7) st15(7) st16(7) st17(7) st18(7) st19(7) st20(7) st21(7) h3)
  note h6 = st6(8)[unfolded stage_eval t5, simplified]
  have id6: "id_enum s21 ''Lit_Chars'' = Some 10"
    "id_enum s21 ''Lit_VarLike'' = Some 11"
    "id_enum s21 ''Lit_EscapedChar'' = Some 13"
    "id_enum s21 ''Lit_DRightBracket'' = Some 17"
    "id_enum s21 ''Lit_Tilde'' = Some 18"
    "id_enum s21 ''Lit_ArithVarLike'' = Some 24"
    by (simp_all add: st7(7) st8(7) st9(7) st10(7) st11(7) st12(7) st13(7) st14(7) st15(7) st16(7) st17(7) st18(7) st19(7) st20(7) st21(7) h6)
  note h7 = st7(8)[unfolded stage_eval t6, simplified]
  have id7: "id_enum s21 ''Op_Newline'' = Some 25"
    "id_enum s21 ''Op_DAmp'' = Some 29"
    "id_enum s21 ''Op_DPipe'' = Some 30"
    "id_enum s21 ''Op_LParen'' = Some 33"
    "id_enum s21 ''Op_RParen'' = Some 34"
    by (simp_all add: st8(7) st9(7) st10(7) st11(7) st12(7) st13(7) st14(7) st15(7) st16(7) st17(7) st18(7) st19(7) st20(7) st21(7) h7)
  note h8 = st8(8)[unfolded stage_eval t7, simplified]
  have id8: "id_enum s21 ''Redir_Less'' = Some 37"
    "id_enum s21 ''Redir_Great'' = Some 38"
    by (simp_all add: st9(7) st10(7) st11(7) st12(7) st13(7) st14(7) st15(7) st16(7) st17(7) st18(7) st19(7) st20(7) st21(7) h8)
  note h9 = st9(8)[unfolded stage_eval t8, simplified]
  have id9: "id_enum s21 ''Left_DoubleQuote'' = Some 47"
    "id_enum s21 ''Left_SingleQuote'' = Some 48"
    "id_enum s21 ''Left_CommandSub'' = Some 50"
    "id_enum s21 ''Left_VarSub'' = Some 51"
    "id_enum s21 ''Left_ArithSub'' = Some 52"
    by (simp_all add: st10(7) st11(7) st12(7) st13(7) st14(7) st15(7) st16(7) st17(7) st18(7) st19(7) st20(7) st21(7) h9)
  note h10 = st10(8)[unfolded stage_eval t9, simplified]
  have id10: "id_enum s21 ''Right_ArrayLiteral'' = Some 69"
    by (simp_all add: st11(7) st12(7) st13(7) st14(7) st15(7) st16(7) st17(7) st18(7) st19(7) st20(7) st21(7) h10)
  note h17 = st17(8)[unfolded stage_eval t16, simplified]
  have id17: "id_enum s21 ''Word_Compound'' = Some 163"
    by (simp_all add: st18(7) st19(7) st20(7) st21(7) h17)
  note h18 = st18(8)[unfolded stage_eval t17, simplified]
  have id18: "id_enum s21 ''KW_Bang'' = Some 165"
    by (simp_all add: st19(7) st20(7) st21(7) h18)
  note h20 = st20(8)[unfolded stage_eval t19, simplified]
  have id20: "id_enum s21 ''BoolUnary_z'' = Some 184"
    "id_enum s21 ''BoolUnary_n'' = Some 185"
    "id_enum s21 ''BoolUnary_o'' = Some 186"
    "id_enum s21 ''BoolUnary_v'' = Some 187"
    "id_enum s21 ''BoolUnary_R'' = Some 188"
    "id_enum s21 ''BoolUnary_a'' = Some 189"
    "id_enum s21 ''BoolUnary_b'' = Some 190"
    "id_enum s21 ''BoolUnary_c'' = Some 191"
    "id_enum s21 ''BoolUnary_d'' = Some 192"
    "id_enum s21 ''BoolUnary_e'' = Some 193"
    "id_enum s21 ''BoolUnary_f'' = Some 194"
    "id_enum s21 ''BoolUnary_g'' = Some 195"
    "id_enum s21 ''BoolUnary_h'' = Some 196"
    "id_enum s21 ''BoolUnary_L'' = Some 197"
    "id_enum s21 ''BoolUnary_p'' = Some 198"
    "id_enum s21 ''BoolUnary_r'' = Some 199"
    "id_enum s21 ''BoolUnary_s'' = Some 200"
    "id_enum s21 ''BoolUnary_S'' = Some 201"
    "id_enum s21 ''BoolUnary_t'' = Some 202"
    "id_enum s21 ''BoolUnary_u'' = Some 203"
    "id_enum s21 ''BoolUnary_w'' = Some 204"
    "id_enum s21 ''BoolUnary_x'' = Some 205"
    "id_enum s21 ''BoolUnary_O'' = Some 206"
    "id_enum s21 ''BoolUnary_G'' = Some 207"
    "id_enum s21 ''BoolUnary_N'' = Some 208"
    by (simp_all add: st21(7) h20)
  note h21 = st21(8)[unfolded stage_eval t20, simplified]
  have id21: "id_enum s21 ''BoolBinary_Equal'' = Some 209"
    "id_enum s21 ''BoolBinary_DEqual'' = Some 210"
    "id_enum s21 ''BoolBinary_NEqual'' = Some 211"
    "id_enum s21 ''BoolBinary_EqualTilde'' = Some 212"
    "id_enum s21 ''BoolBinary_ef'' = Some 213"
    "id_enum s21 ''BoolBinary_nt'' = Some 214"
    "id_enum s21 ''BoolBinary_ot'' = Some 215"
    "id_enum s21 ''BoolBinary_eq'' = Some 216"
    "id_enum s21 ''BoolBinary_ne'' = Some 217"
    "id_enum s21 ''BoolBinary_gt'' = Some 218"
    "id_enum s21 ''BoolBinary_ge'' = Some 219"
    "id_enum s21 ''BoolBinary_lt'' = Some 220"
    "id_enum s21 ''BoolBinary_le'' = Some 221"
    by (simp_all add:  h21)
  note b20 = st20(9)[unfolded stage_eval t19, simplified]
  note b21 = st21(9)[unfolded stage_eval t20, simplified]
  have bo21: "bool_ops s21 209 = Some OperandType_Str"
    "bool_ops s21 210 = Some OperandType_Str"
    "bool_ops s21 211 = Some OperandType_Str"
    "bool_ops s21 212 = Some OperandType_Str"
    "bool_ops s21 213 = Some OperandType_Path"
    "bool_ops s21 214 = Some OperandType_Path"
    "bool_ops s21 215 = Some OperandType_Path"
    "bool_ops s21 216 = Some OperandType_Int"
    "bool_ops s21 217 = Some OperandType_Int"
    "bool_ops s21 218 = Some OperandType_Int"
    "bool_ops s21 219 = Some OperandType_Int"
    "bool_ops s21 220 = Some OperandType_Int"
    "bool_ops s21 221 = Some OperandType_Int"
    by (simp_all add: b21)
  have bo20': "bool_ops s21 184 = Some OperandType_Str"
    "bool_ops s21 185 = Some OperandType_Str"
    "bool_ops s21 186 = Some OperandType_Other"
    "bool_ops s21 187 = Some OperandType_Other"
    "bool_ops s21 188 = Some OperandType_Other"
    "bool_ops s21 189 = Some OperandType_Path"
    "bool_ops s21 190 = Some OperandType_Path"
    "bool_ops s21 191 = Some OperandType_Path"
    "bool_ops s21 192 = Some OperandType_Path"
    "bool_ops s21 193 = Some OperandType_Path"
    "bool_ops s21 194 = Some OperandType_Path"
    "bool_ops s21 195 = Some OperandType_Path"
    "bool_ops s21 196 = Some OperandType_Path"
    "bool_ops s21 197 = Some OperandType_Path"
    "bool_ops s21 198 = Some OperandType_Path"
    "bool_ops s21 199 = Some OperandType_Path"
    "bool_ops s21 200 = Some OperandType_Path"
    "bool_ops s21 201 = Some OperandType_Path"
    "bool_ops s21 202 = Some OperandType_Path"
    "bool_ops s21 203 = Some OperandType_Path"
    "bool_ops s21 204 = Some OperandType_Path"
    "bool_ops s21 205 = Some OperandType_Path"
    "bool_ops s21 206 = Some OperandType_Path"
    "bool_ops s21 207 = Some OperandType_Path"
    "bool_ops s21 208 = Some OperandType_Path"
    by (simp_all add: b21 b20)
  have dom: "bool_ops s21 i \<noteq> None" if "183 < i" and "i \<le> 221" for i
    using that by (simp add: st21(4) st20(4) t20 t19 stage_eval)
  define spec where "spec = AddBoolOp 38 OperandType_Str (AddBoolOp 37 OperandType_Str
     (AddBoolOp 165 OperandType_Undefined (AddBoolOp 30 OperandType_Undefined
     (AddBoolOp 29 OperandType_Undefined s21))))"
  have build: "ID_SPEC_build = Inr spec"
    by (simp add: ID_SPEC_build_def priv_AddBoolKinds_def AddBoolOp_named_def kinds bools
        AddBoolOp_fields spec_def id1 id3 id6 id7 id8 id9 id10 id17 id18 id20 id21)
  have spec: "ID_SPEC = spec"
    by (simp add: ID_SPEC_def build)
  show "ID_SPEC_build = Inr ID_SPEC"
    by (simp add: build spec)
  show "token_index ID_SPEC = 221" "kind_index ID_SPEC = 21"
    by (simp_all add: spec spec_def AddBoolOp_fields t21)
  show "kind_lookup ID_SPEC i =
       (if 208 < i \<and> i \<le> 221 then Some 20
        else (if 183 < i \<and> i \<le> 208 then Some 19
        else (if 179 < i \<and> i \<le> 183 then Some 18
        else (if 163 < i \<and> i \<le> 179 then Some 17
        else (if 162 < i \<and> i \<le> 163 then Some 16
        else (if 142 < i \<and> i \<le> 162 then Some 15
        else (if 99 < i \<and> i \<le> 142 then Some 14
        else (if 95 < i \<and> i \<le> 99 then Some 13
        else (if 87 < i \<and> i \<le> 95 then Some 12
        else (if 79 < i \<and> i \<le> 87 then Some 11
        else (if 69 < i \<and> i \<le> 79 then Some 10
        else (if 57 < i \<and> i \<le> 69 then Some 9
        else (if 46 < i \<and> i \<le> 57 then Some 8
        else (if 36 < i \<and> i \<le> 46 then Some 7
        else (if 24 < i \<and> i \<le> 36 then Some 6
        else (if 9 < i \<and> i \<le> 24 then Some 5
        else (if 8 < i \<and> i \<le> 9 then Some 4
        else (if 5 < i \<and> i \<le> 8 then Some 3
        else (if 2 < i \<and> i \<le> 5 then Some 2
        else (if 1 < i \<and> i \<le> 2 then Some 1
        else (if 0 < i \<and> i \<le> 1 then Some 0
        else None)))))))))))))))))))))"
    unfolding spec spec_def AddBoolOp_fields by (rule kl)
  show "kind_enum ID_SPEC =
       Map.empty(''Undefined'' \<mapsto> 0, ''Unknown'' \<mapsto> 1, ''Eof'' \<mapsto> 2, ''Ignored'' \<mapsto> 3, ''WS'' \<mapsto> 4, ''Lit'' \<mapsto> 5, ''Op'' \<mapsto> 6, ''Redir'' \<mapsto> 7, 
         ''Left'' \<mapsto> 8, ''Right'' \<mapsto> 9, ''VSub'' \<mapsto> 10, ''VTest'' \<mapsto> 11, ''VOp1'' \<mapsto> 12, ''VOp2'' \<mapsto> 13, ''Arith'' \<mapsto> 14, 
         ''Node'' \<mapsto> 15, ''Word'' \<mapsto> 16, ''KW'' \<mapsto> 17, ''Assign'' \<mapsto> 18, ''BoolUnary'' \<mapsto> 19, ''BoolBinary'' \<mapsto> 20)"
    unfolding spec spec_def AddBoolOp_fields by (rule ke)
  show "\<forall>i. 183 < i \<and> i \<le> 221 \<longrightarrow> bool_ops ID_SPEC i \<noteq> None"
    using dom by (simp add: spec spec_def AddBoolOp_bool_ops)
  show
      "id_enum ID_SPEC ''Undefined_Tok'' = Some 1"
      "id_enum ID_SPEC ''Eof_Real'' = Some 3"
      "id_enum ID_SPEC ''Lit_Chars'' = Some 10"
      "id_enum ID_SPEC ''Lit_VarLike'' = Some 11"
      "id_enum ID_SPEC ''Lit_EscapedChar'' = Some 13"
      "id_enum ID_SPEC ''Lit_DRightBracket'' = Some 17"
      "id_enum ID_SPEC ''Lit_Tilde'' = Some 18"
      "id_enum ID_SPEC ''Lit_ArithVarLike'' = Some 24"
      "id_enum ID_SPEC ''Op_Newline'' = Some 25"
      "id_enum ID_SPEC ''Op_DAmp'' = Some 29"
      "id_enum ID_SPEC ''Op_DPipe'' = Some 30"
      "id_enum ID_SPEC ''Op_LParen'' = Some 33"
      "id_enum ID_SPEC ''Op_RParen'' = Some 34"
      "id_enum ID_SPEC ''Redir_Less'' = Some 37"
      "id_enum ID_SPEC ''Redir_Great'' = Some 38"
      "id_enum ID_SPEC ''Left_DoubleQuote'' = Some 47"
      "id_enum ID_SPEC ''Left_SingleQuote'' = Some 48"
      "id_enum ID_SPEC ''Left_CommandSub'' = Some 50"
      "id_enum ID_SPEC ''Left_VarSub'' = Some 51"
      "id_enum ID_SPEC ''Left_ArithSub'' = Some 52"
      "id_enum ID_SPEC ''Right_ArrayLiteral'' = Some 69"
      "id_enum ID_SPEC ''Word_Compound'' = Some 163"
      "id_enum ID_SPEC ''KW_Bang'' = Some 165"
      "id_enum ID_SPEC ''BoolUnary_z'' = Some 184"
      "id_enum ID_SPEC ''BoolUnary_n'' = Some 185"
      "id_enum ID_SPEC ''BoolUnary_o'' = Some 186"
      "id_enum ID_SPEC ''BoolUnary_v'' = Some 187"
      "id_enum ID_SPEC ''BoolUnary_R'' = Some 188"
      "id_enum ID_SPEC ''BoolUnary_a'' = Some 189"
      "id_enum ID_SPEC ''BoolUnary_b'' = Some 190"
      "id_enum ID_SPEC ''BoolUnary_c'' = Some 191"
      "id_enum ID_SPEC ''BoolUnary_d'' = Some 192"
      "id_enum ID_SPEC ''BoolUnary_e'' = Some 193"
      "id_enum ID_SPEC ''BoolUnary_f'' = Some 194"
      "id_enum ID_SPEC ''BoolUnary_g'' = Some 195"
      "id_enum ID_SPEC ''BoolUnary_h'' = Some 196"
      "id_enum ID_SPEC ''BoolUnary_L'' = Some 197"
      "id_enum ID_SPEC ''BoolUnary_p'' = Some 198"
      "id_enum ID_SPEC ''BoolUnary_r'' = Some 199"
      "id_enum ID_SPEC ''BoolUnary_s'' = Some 200"
      "id_enum ID_SPEC ''BoolUnary_S'' = Some 201"
      "id_enum ID_SPEC ''BoolUnary_t'' = Some 202"
      "id_enum ID_SPEC ''BoolUnary_u'' = Some 203"
      "id_enum ID_SPEC ''BoolUnary_w'' = Some 204"
      "id_enum ID_SPEC ''BoolUnary_x'' = Some 205"
      "id_enum ID_SPEC ''BoolUnary_O'' = Some 206"
      "id_enum ID_SPEC ''BoolUnary_G'' = Some 207"
      "id_enum ID_SPEC ''BoolUnary_N'' = Some 208"
      "id_enum ID_SPEC ''BoolBinary_Equal'' = Some 209"
      "id_enum ID_SPEC ''BoolBinary_DEqual'' = Some 210"
      "id_enum ID_SPEC ''BoolBinary_NEqual'' = Some 211"
      "id_enum ID_SPEC ''BoolBinary_EqualTilde'' = Some 212"
      "id_enum ID_SPEC ''BoolBinary_ef'' = Some 213"
      "id_enum ID_SPEC ''BoolBinary_nt'' = Some 214"
      "id_enum ID_SPEC ''BoolBinary_ot'' = Some 215"
      "id_enum ID_SPEC ''BoolBinary_eq'' = Some 216"
      "id_enum ID_SPEC ''BoolBinary_ne'' = Some 217"
      "id_enum ID_SPEC ''BoolBinary_gt'' = Some 218"
      "id_enum ID_SPEC ''BoolBinary_ge'' = Some 219"
      "id_enum ID_SPEC ''BoolBinary_lt'' = Some 220"
      "id_enum ID_SPEC ''BoolBinary_le'' = Some 221"
    unfolding spec spec_def AddBoolOp_fields by (simp_all only: id1 id3 id6 id7 id8 id9 id10 id17 id18 id20 id21)
  show
      "bool_ops ID_SPEC 184 = Some OperandType_Str"
      "bool_ops ID_SPEC 185 = Some OperandType_Str"
      "bool_ops ID_SPEC 186 = Some OperandType_Other"
      "bool_ops ID_SPEC 187 = Some OperandType_Other"
      "bool_ops ID_SPEC 188 = Some OperandType_Other"
      "bool_ops ID_SPEC 189 = Some OperandType_Path"
      "bool_ops ID_SPEC 190 = Some OperandType_Path"
      "bool_ops ID_SPEC 191 = Some OperandType_Path"
      "bool_ops ID_SPEC 192 = Some OperandType_Path"
      "bool_ops ID_SPEC 193 = Some OperandType_Path"
      "bool_ops ID_SPEC 194 = Some OperandType_Path"
      "bool_ops ID_SPEC 195 = Some OperandType_Path"
      "bool_ops ID_SPEC 196 = Some OperandType_Path"
      "bool_ops ID_SPEC 197 = Some OperandType_Path"
      "bool_ops ID_SPEC 198 = Some OperandType_Path"
      "bool_ops ID_SPEC 199 = Some OperandType_Path"
      "bool_ops ID_SPEC 200 = Some OperandType_Path"
      "bool_ops ID_SPEC 201 = Some OperandType_Path"
      "bool_ops ID_SPEC 202 = Some OperandType_Path"
      "bool_ops ID_SPEC 203 = Some OperandType_Path"
      "bool_ops ID_SPEC 204 = Some OperandType_Path"
      "bool_ops ID_SPEC 205 = Some OperandType_Path"
      "bool_ops ID_SPEC 206 = Some OperandType_Path"
      "bool_ops ID_SPEC 207 = Some OperandType_Path"
      "bool_ops ID_SPEC 208 = Some OperandType_Path"
      "bool_ops ID_SPEC 209 = Some OperandType_Str"
      "bool_ops ID_SPEC 210 = Some OperandType_Str"
      "bool_ops ID_SPEC 211 = Some OperandType_Str"
      "bool_ops ID_SPEC 212 = Some OperandType_Str"
      "bool_ops ID_SPEC 213 = Some OperandType_Path"
      "bool_ops ID_SPEC 214 = Some OperandType_Path"
      "bool_ops ID_SPEC 215 = Some OperandType_Path"
      "bool_ops ID_SPEC 216 = Some OperandType_Int"
      "bool_ops ID_SPEC 217 = Some OperandType_Int"
      "bool_ops ID_SPEC 218 = Some OperandType_Int"
      "bool_ops ID_SPEC 219 = Some OperandType_Int"
      "bool_ops ID_SPEC 220 = Some OperandType_Int"
      "bool_ops ID_SPEC 221 = Some OperandType_Int"
      "bool_ops ID_SPEC 29 = Some OperandType_Undefined"
      "bool_ops ID_SPEC 30 = Some OperandType_Undefined"
      "bool_ops ID_SPEC 165 = Some OperandType_Undefined"
      "bool_ops ID_SPEC 37 = Some OperandType_Str"
      "bool_ops ID_SPEC 38 = Some OperandType_Str"
    unfolding spec spec_def by (simp_all add: AddBoolOp_bool_ops bo21 bo20')
qed

section \<open>The registry after the import\<close>

lemma AddBoolOp_named_Inr:
  assumes "AddBoolOp_named x t r = Inr s'"
  shows "\<exists>s i. r = Inr s \<and> s' = AddBoolOp i t s"
  using assms by (auto simp add: AddBoolOp_named_def split: sum.splits option.splits)

lemma reg_inv_AddBoolKinds:
  assumes inv: "reg_inv (kind_index s) s" and res: "priv_AddBoolKinds s = Inr s'"
  shows "reg_inv (kind_index s') s'"
proof -
  let ?s0 = "priv_AddBoolKinds_kinds s"
  have inv0: "reg_inv (kind_index ?s0) ?s0"
    unfolding priv_AddBoolKinds_kinds_def
    by (intro reg_inv_AddBoolKind inv)
  from res obtain s4 i5 where r5: "s' = AddBoolOp i5 OperandType_Str s4"
    and a4: "AddBoolOp_named ''Redir_Less'' OperandType_Str
      (AddBoolOp_named ''KW_Bang'' OperandType_Undefined
      (AddBoolOp_named ''Op_DPipe'' OperandType_Undefined
      (AddBoolOp_named ''Op_DAmp'' OperandType_Undefined (Inr ?s0)))) = Inr s4"
    unfolding priv_AddBoolKinds_def by (blast dest: AddBoolOp_named_Inr)
  from a4 obtain s3 i4 where r4: "s4 = AddBoolOp i4 OperandType_Str s3"
    and a3: "AddBoolOp_named ''KW_Bang'' OperandType_Undefined
      (AddBoolOp_named ''Op_DPipe'' OperandType_Undefined
      (AddBoolOp_named ''Op_DAmp'' OperandType_Undefined (Inr ?s0))) = Inr s3"
    by (blast dest: AddBoolOp_named_Inr)
  from a3 obtain s2 i3 where r3: "s3 = AddBoolOp i3 OperandType_Undefined s2"
    and a2: "AddBoolOp_named ''Op_DPipe'' OperandType_Undefined
      (AddBoolOp_named ''Op_DAmp'' OperandType_Undefined (Inr ?s0)) = Inr s2"
    by (blast dest: AddBoolOp_named_Inr)
  from a2 obtain s1 i2 where r2: "s2 = AddBoolOp i2 OperandType_Undefined s1"
    and a1: "AddBoolOp_named ''Op_DAmp'' OperandType_Undefined (Inr ?s0) = Inr s1"
    by (blast dest: AddBoolOp_named_Inr)
  from a1 obtain i1 where r1: "s1 = AddBoolOp i1 OperandType_Undefined ?s0"
    by (blast dest: AddBoolOp_named_Inr)
  show ?thesis
    unfolding r5 r4 r3 r2 r1 AddBoolOp_fields
    by (intro reg_inv_AddBoolOp inv0)
qed

lemma reg_inv_ID_SPEC: "reg_inv (kind_index ID_SPEC) ID_SPEC"
  by (rule reg_inv_AddBoolKinds[OF reg_inv_AddKinds])
     (simp add: ID_SPEC_build_ok[unfolded ID_SPEC_build_def])

lemma Kind_names_values: "map (kind_enum ID_SPEC) Kind_names = map Some [0 ..< 21]"
  apply (simp add: kind_enum_ID_SPEC Kind_names_def del: upt_Suc)
  by code_simp

lemma replicate_small:
  "replicate 2 x = [x, x]" "replicate 3 x = [x, x, x]" "replicate 4 x = [x, x, x, x]"
  "replicate 6 x = [x, x, x, x, x, x]"
  "replicate 20 x = [x, x, x, x, x, x, x, x, x, x, x, x, x, x, x, x, x, x, x, x]"
  by (simp_all add: numeral_eq_Suc)

lemma Kind_names_nth:
  assumes "k < 21"
  shows "kind_enum ID_SPEC (Kind_names ! k) = Some k" and "Kind_names ! k \<in> set Kind_names"
proof -
  have len: "length Kind_names = 21" by (simp add: Kind_names_def)
  from assms len have "map (kind_enum ID_SPEC) Kind_names ! k = map Some [0 ..< 21] ! k"
    by (simp only: Kind_names_values)
  with assms len show "kind_enum ID_SPEC (Kind_names ! k) = Some k"
    by (simp del: upt_Suc)
  from assms len show "Kind_names ! k \<in> set Kind_names" by simp
qed

lemma Id_values:
  "Id_Undefined_Tok = 1" "Id_Eof_Real = 3" "Id_Lit_Chars = 10" "Id_Lit_VarLike = 11"
  "Id_Lit_EscapedChar = 13" "Id_Lit_DRightBracket = 17" "Id_Lit_Tilde = 18"
  "Id_Lit_ArithVarLike = 24" "Id_Op_Newline = 25" "Id_Op_DAmp = 29" "Id_Op_DPipe = 30"
  "Id_Op_LParen = 33" "Id_Op_RParen = 34" "Id_Left_DoubleQuote = 47"
  "Id_Left_SingleQuote = 48" "Id_Left_CommandSub = 50" "Id_Left_VarSub = 51"
  "Id_Left_ArithSub = 52" "Id_Right_ArrayLiteral = 69" "Id_Word_Compound = 163"
  "Id_KW_Bang = 165" "Id_BoolUnary_z = 184" "Id_BoolBinary_DEqual = 210"
  "Id_BoolBinary_EqualTilde = 212"
  by (simp_all only: id_enum_ID_SPEC option.sel Id_attr_def Id_Undefined_Tok_def Id_Eof_Real_def Id_Lit_Chars_def
      Id_Lit_VarLike_def Id_Lit_EscapedChar_def Id_Lit_DRightBracket_def Id_Lit_Tilde_def
      Id_Lit_ArithVarLike_def Id_Op_Newline_def Id_Op_DAmp_def Id_Op_DPipe_def
      Id_Op_LParen_def Id_Op_RParen_def Id_Left_DoubleQuote_def Id_Left_SingleQuote_def
      Id_Left_CommandSub_def Id_Left_VarSub_def Id_Left_ArithSub_def
      Id_Right_ArrayLiteral_def Id_Word_Compound_def Id_KW_Bang_def Id_BoolUnary_z_def
      Id_BoolBinary_DEqual_def Id_BoolBinary_EqualTilde_def)

lemma Kind_values:
  "Kind_Undefined = 0" "Kind_Redir = 7" "Kind_Word = 16" "Kind_BoolUnary = 19"
  "Kind_BoolBinary = 20"
  by (simp_all add: Kind_attr_def Kind_Undefined_def Kind_Redir_def Kind_Word_def
      Kind_BoolUnary_def Kind_BoolBinary_def kind_enum_ID_SPEC)

lemmas LookupKind_eval = LookupKind_def kind_lookup_ID_SPEC

lemma LookupKind_values:
  "LookupKind 1 = Inr 0" "LookupKind 3 = Inr 2" "LookupKind 17 = Inr 5" "LookupKind 25 = Inr 6"
  "LookupKind 29 = Inr 6" "LookupKind 30 = Inr 6" "LookupKind 33 = Inr 6" "LookupKind 34 = Inr 6"
  "LookupKind 37 = Inr 7" "LookupKind 38 = Inr 7" "LookupKind 163 = Inr 16"
  "LookupKind 165 = Inr 17" "LookupKind 184 = Inr 19" "LookupKind 210 = Inr 20"
  "LookupKind 212 = Inr 20"
  by (simp_all add: LookupKind_eval)

lemma LookupKind_Inr_iff:
  "(\<exists>k. LookupKind i = Inr k) \<longleftrightarrow> 0 < i \<and> i \<le> 221"
  "LookupKind i = Inl e \<longleftrightarrow> e = KeyError \<and> \<not> (0 < i \<and> i \<le> 221)"
  by (auto simp add: LookupKind_eval)

lemma LookupKind_BoolUnary: "LookupKind i = Inr 19 \<longleftrightarrow> 183 < i \<and> i \<le> 208"
  by (auto simp add: LookupKind_eval)

lemma LookupKind_BoolBinary: "LookupKind i = Inr 20 \<longleftrightarrow> 208 < i \<and> i \<le> 221"
  by (auto simp add: LookupKind_eval)

section \<open>Claims about the registry\<close>

text \<open>
  C5.  After the registry is built, no two registered Ids (attributes of \<open>Id\<close>) have the
  same integer: the import succeeds, every Id is a value of the one counter shared by all
  Kinds (between 1 and its final value 221), two attribute names with the same integer
  are the same name, and \<open>LookupKind\<close> maps every registered Id to a Kind that is the
  value of one of the 21 Kind names; those 21 names have the 21 distinct values 0..20.
\<close>

theorem C5_registry_ids_unique_and_kinded:
  "ID_SPEC_build = Inr ID_SPEC \<and>
   token_index ID_SPEC = 221 \<and>
   (\<forall>x y i. id_enum ID_SPEC x = Some i \<and> id_enum ID_SPEC y = Some i \<longrightarrow> x = y) \<and>
   (\<forall>x i. id_enum ID_SPEC x = Some i \<longrightarrow>
      0 < i \<and> i \<le> token_index ID_SPEC \<and>
      (\<exists>k kn. LookupKind i = Inr k \<and> kn \<in> set Kind_names \<and> kind_enum ID_SPEC kn = Some k)) \<and>
   map (kind_enum ID_SPEC) Kind_names = map Some [0 ..< 21]"
proof -
  have ki: "kind_index ID_SPEC = 21" and ti: "token_index ID_SPEC = 221"
    by (rule ID_SPEC_index)+
  from reg_inv_ID_SPEC have
    a1: "\<And>x i. id_enum ID_SPEC x = Some i \<Longrightarrow>
           0 < i \<and> i \<le> token_index ID_SPEC \<and> token_names ID_SPEC i = Some x" and
    a2: "\<And>i. 0 < i \<Longrightarrow> i \<le> token_index ID_SPEC \<Longrightarrow>
           \<exists>k. kind_lookup ID_SPEC i = Some k \<and> k < 21"
    unfolding reg_inv_def ki by blast+
  have uniq: "x = y" if "id_enum ID_SPEC x = Some i" and "id_enum ID_SPEC y = Some i" for x y i
    using a1[OF that(1)] a1[OF that(2)] by simp
  have kinded: "0 < i \<and> i \<le> token_index ID_SPEC \<and>
      (\<exists>k kn. LookupKind i = Inr k \<and> kn \<in> set Kind_names \<and> kind_enum ID_SPEC kn = Some k)"
    if "id_enum ID_SPEC x = Some i" for x i
  proof -
    from a1[OF that] have r: "0 < i" "i \<le> token_index ID_SPEC" by simp_all
    from a2[OF r] obtain k where k: "kind_lookup ID_SPEC i = Some k" "k < 21" by blast
    from k(1) have "LookupKind i = Inr k" by (simp add: LookupKind_def)
    with Kind_names_nth[OF k(2)] r show ?thesis by blast
  qed
  show ?thesis
    using ID_SPEC_build_ok ti uniq kinded Kind_names_values by blast
qed

text \<open>
  A witness for C5 at the Id \<open>Lit_VarLike\<close>: it is registered with the value 11, its Kind is
  the value of the Kind name \<open>Lit\<close>, and the name \<open>Lit_ArithVarLike\<close> has another value.
\<close>

theorem C5_registry_witness:
  "id_enum ID_SPEC ''Lit_VarLike'' = Some 11 \<and>
   id_enum ID_SPEC ''Lit_ArithVarLike'' \<noteq> Some 11 \<and>
   LookupKind 11 = Inr 5 \<and> ''Lit'' \<in> set Kind_names \<and> kind_enum ID_SPEC ''Lit'' = Some 5"
proof -
  have v: "id_enum ID_SPEC ''Lit_VarLike'' = Some 11"
    by (rule id_enum_ID_SPEC)
  from C5_registry_ids_unique_and_kinded have
    u: "\<And>x y i. id_enum ID_SPEC x = Some i \<and> id_enum ID_SPEC y = Some i \<Longrightarrow> x = y"
    by blast
  have "id_enum ID_SPEC ''Lit_ArithVarLike'' \<noteq> Some 11"
  proof
    assume "id_enum ID_SPEC ''Lit_ArithVarLike'' = Some 11"
    with v have "''Lit_ArithVarLike'' = ''Lit_VarLike''" by (intro u) simp
    then show False by simp
  qed
  moreover have "LookupKind 11 = Inr 5" by (simp add: LookupKind_eval)
  moreover have "''Lit'' \<in> set Kind_names" by (simp add: Kind_names_def)
  moreover have "kind_enum ID_SPEC ''Lit'' = Some 5" by (simp add: kind_enum_ID_SPEC)
  ultimately show ?thesis using v by simp
qed

text \<open>
  C6.  \<open>BOOL_OPS\<close> gives an operand type to every Id whose Kind is \<open>BoolUnary\<close> or
  \<open>BoolBinary\<close>: \<open>-z\<close> and \<open>-n\<close> take a string; \<open>-o\<close>, \<open>-v\<close>, \<open>-R\<close> are of type Other; the twenty
  file tests take a path; \<open>=\<close>, \<open>==\<close>, \<open>!=\<close>, \<open>=~\<close> take strings; \<open>-ef\<close>, \<open>-nt\<close>, \<open>-ot\<close> paths;
  \<open>-eq\<close>, \<open>-ne\<close>, \<open>-gt\<close>, \<open>-ge\<close>, \<open>-lt\<close>, \<open>-le\<close> integers; and the logical connectives
  \<open>Op_DAmp\<close>, \<open>Op_DPipe\<close>, \<open>KW_Bang\<close> have the type Undefined.
\<close>

theorem C6_operand_types:
  "map (\<lambda>c. BOOL_OPS (Id_attr (''BoolUnary_'' @ [c]))) ''zn'' =
     replicate 2 (Some OperandType_Str) \<and>
   map (\<lambda>c. BOOL_OPS (Id_attr (''BoolUnary_'' @ [c]))) ''ovR'' =
     replicate 3 (Some OperandType_Other) \<and>
   map (\<lambda>c. BOOL_OPS (Id_attr (''BoolUnary_'' @ [c]))) ''abcdefghLprsStuwxOGN'' =
     replicate 20 (Some OperandType_Path) \<and>
   map (\<lambda>x. BOOL_OPS (Id_attr (''BoolBinary_'' @ x))) [''Equal'', ''DEqual'', ''NEqual'', ''EqualTilde''] =
     replicate 4 (Some OperandType_Str) \<and>
   map (\<lambda>x. BOOL_OPS (Id_attr (''BoolBinary_'' @ x))) [''ef'', ''nt'', ''ot''] =
     replicate 3 (Some OperandType_Path) \<and>
   map (\<lambda>x. BOOL_OPS (Id_attr (''BoolBinary_'' @ x))) [''eq'', ''ne'', ''gt'', ''ge'', ''lt'', ''le''] =
     replicate 6 (Some OperandType_Int) \<and>
   map (\<lambda>x. BOOL_OPS (Id_attr x)) [''Op_DAmp'', ''Op_DPipe'', ''KW_Bang''] =
     replicate 3 (Some OperandType_Undefined) \<and>
   (\<forall>i. LookupKind i = Inr Kind_BoolUnary \<or> LookupKind i = Inr Kind_BoolBinary \<longrightarrow>
        (\<exists>t. BOOL_OPS i = Some t))"
proof -
  have dom: "\<exists>t. BOOL_OPS i = Some t"
    if "LookupKind i = Inr Kind_BoolUnary \<or> LookupKind i = Inr Kind_BoolBinary" for i
  proof -
    from that have "183 < i \<and> i \<le> 221"
      by (auto simp add: Kind_values LookupKind_BoolUnary LookupKind_BoolBinary)
    with bool_ops_ID_SPEC_dom show ?thesis by (auto simp add: BOOL_OPS_def)
  qed
  have vals: "map (\<lambda>c. BOOL_OPS (Id_attr (''BoolUnary_'' @ [c]))) ''zn'' =
       replicate 2 (Some OperandType_Str)"
    "map (\<lambda>c. BOOL_OPS (Id_attr (''BoolUnary_'' @ [c]))) ''ovR'' =
       replicate 3 (Some OperandType_Other)"
    "map (\<lambda>c. BOOL_OPS (Id_attr (''BoolUnary_'' @ [c]))) ''abcdefghLprsStuwxOGN'' =
       replicate 20 (Some OperandType_Path)"
    "map (\<lambda>x. BOOL_OPS (Id_attr (''BoolBinary_'' @ x))) [''Equal'', ''DEqual'', ''NEqual'', ''EqualTilde''] =
       replicate 4 (Some OperandType_Str)"
    "map (\<lambda>x. BOOL_OPS (Id_attr (''BoolBinary_'' @ x))) [''ef'', ''nt'', ''ot''] =
       replicate 3 (Some OperandType_Path)"
    "map (\<lambda>x. BOOL_OPS (Id_attr (''BoolBinary_'' @ x))) [''eq'', ''ne'', ''gt'', ''ge'', ''lt'', ''le''] =
       replicate 6 (Some OperandType_Int)"
    "map (\<lambda>x. BOOL_OPS (Id_attr x)) [''Op_DAmp'', ''Op_DPipe'', ''KW_Bang''] =
       replicate 3 (Some OperandType_Undefined)"
    by (simp_all add: BOOL_OPS_def Id_attr_def replicate_small id_enum_ID_SPEC bool_ops_ID_SPEC)
  show ?thesis
    using vals dom by blast
qed

text \<open>
  A witness for C6 at the Id of \<open>=~\<close>: its Kind is \<open>BoolBinary\<close> and its operand type is Str.
\<close>

theorem C6_operand_types_witness:
  "LookupKind Id_BoolBinary_EqualTilde = Inr Kind_BoolBinary \<and>
   BOOL_OPS Id_BoolBinary_EqualTilde = Some OperandType_Str"
proof -
  have k: "LookupKind Id_BoolBinary_EqualTilde = Inr Kind_BoolBinary"
    by (simp add: Id_values Kind_values LookupKind_values)
  from C6_operand_types k obtain t where t: "BOOL_OPS Id_BoolBinary_EqualTilde = Some t"
    by blast
  from C6_operand_types
  have "BOOL_OPS (Id_attr (''BoolBinary_'' @ ''EqualTilde'')) = Some OperandType_Str"
    by (simp add: replicate_small)
  then show ?thesis using k by (simp add: Id_BoolBinary_EqualTilde_def)
qed


section \<open>Claims about words\<close>

subsection \<open>Static evaluation\<close>

lemma no_array_returns:
  "\<not> has_array p \<Longrightarrow> \<exists>r. WordPart_EvalStatic p = Inr r"
  "\<forall>p \<in> set ps. \<not> has_array p \<Longrightarrow> \<exists>r. DoubleQuotedPart_loop ps acc = Inr r"
proof (induction p and ps acc rule: WordPart_EvalStatic_DoubleQuotedPart_loop.induct)
  case (11 p ps ret)
  then obtain r where r: "WordPart_EvalStatic p = Inr r" by auto
  with 11 show ?case by (cases "fst r") auto
qed auto

lemma static_part_eval:
  "static_part p \<Longrightarrow> WordPart_EvalStatic p = Inr (True, static_text p, part_quoted p)"
  "\<forall>p \<in> set ps. static_part p \<Longrightarrow>
     DoubleQuotedPart_loop ps acc = Inr (True, acc @ concat (map static_text ps), True)"
  by (induction p and ps acc rule: WordPart_EvalStatic_DoubleQuotedPart_loop.induct) auto

lemma has_subst_eval:
  "\<not> has_array p \<Longrightarrow> has_subst p \<Longrightarrow> \<exists>q. WordPart_EvalStatic p = Inr (False, [], q)"
  "\<forall>p \<in> set ps. \<not> has_array p \<Longrightarrow> \<exists>p \<in> set ps. has_subst p \<Longrightarrow>
     DoubleQuotedPart_loop ps acc = Inr (False, [], True)"
proof (induction p and ps acc rule: WordPart_EvalStatic_DoubleQuotedPart_loop.induct)
  case (11 p ps ret)
  from 11(3) have na: "\<not> has_array p" and nas: "\<forall>p \<in> set ps. \<not> has_array p" by simp_all
  from no_array_returns(1)[OF na] obtain r where r: "WordPart_EvalStatic p = Inr r" by blast
  show ?case
  proof (cases "fst r")
    case False
    with r show ?thesis by simp
  next
    case True
    have "\<not> has_subst p"
    proof
      assume "has_subst p"
      from 11(1)[OF na this] r True show False by auto
    qed
    with 11(4) have "\<exists>p \<in> set ps. has_subst p" by simp
    from 11(2)[OF r _ nas this] True r show ?thesis by simp
  qed
qed auto

lemma CompoundWord_loop_has_subst:
  assumes "\<forall>q \<in> set pre. \<not> has_array q" and "\<not> has_array p" and "has_subst p"
  shows "\<exists>q. CompoundWord_loop (pre @ p # post) acc quoted = Inr (False, [], q)"
  using assms(1)
proof (induction pre arbitrary: acc quoted)
  case Nil
  from has_subst_eval(1)[OF assms(2,3)] show ?case by auto
next
  case (Cons a pre)
  from Cons.prems have "\<not> has_array a" by simp
  from no_array_returns(1)[OF this] obtain r where r: "WordPart_EvalStatic a = Inr r" by blast
  from Cons.prems have "\<forall>q \<in> set pre. \<not> has_array q" by simp
  from Cons.IH[OF this] r show ?case by (cases "fst r") auto
qed

lemma CompoundWord_loop_static:
  assumes "\<forall>p \<in> set parts. static_part p"
  shows "CompoundWord_loop parts acc quoted =
     Inr (True, acc @ concat (map static_text parts), quoted \<or> (\<exists>p \<in> set parts. part_quoted p))"
  using assms
proof (induction parts arbitrary: acc quoted)
  case Nil
  show ?case by simp
next
  case (Cons a parts)
  then show ?case by (auto simp add: static_part_eval(1))
qed

text \<open>
  Where no array literal is met, static evaluation does what is said of it.  A compound
  word that has a command, variable or arithmetic substitution among its parts, or inside
  a double-quoted part at any depth, with no array literal in that part nor in the parts
  before it, evaluates to \<open>ok = false\<close>.  A word built from literal, escaped,
  single-quoted and double-quoted parts (the double-quoted ones holding such parts only)
  evaluates to \<open>ok = true\<close> with the concatenation of the texts of its parts: the text of a
  literal, the text after the first character of an escaped literal, the texts of the
  tokens between single quotes; and \<open>quoted\<close> is true exactly when some part is not a plain
  literal.  The single-quoted word \<open>'EOF'\<close> evaluates to \<open>(true, "EOF", true)\<close>.
\<close>

lemma EvalStatic_substitution:
  assumes "\<forall>q \<in> set pre. \<not> has_array q" and "\<not> has_array p" and "has_subst p"
  shows "\<exists>q. EvalStatic (CompoundWord (pre @ p # post)) = Inr (False, [], q)"
  using CompoundWord_loop_has_subst[OF assms, of post "[]" False] by simp

lemma EvalStatic_static_parts:
  assumes "\<forall>p \<in> set parts. static_part p"
  shows "EvalStatic (CompoundWord parts) =
     Inr (True, concat (map static_text parts), \<exists>p \<in> set parts. part_quoted p)"
  using CompoundWord_loop_static[OF assms, of "[]" False] by simp

lemma EvalStatic_single_quoted_EOF:
  "EvalStatic (CompoundWord
      [SingleQuotedPart [\<lparr>token_id = Id_Lit_Chars, token_val = ''EOF'', token_span = sp\<rparr>]])
     = Inr (True, ''EOF'', True)"
  by simp

lemma EvalStatic_examples:
  "\<exists>q. EvalStatic (CompoundWord
      [LiteralPart \<lparr>token_id = Id_Lit_Chars, token_val = ''x'', token_span = 0\<rparr>,
       DoubleQuotedPart [VarSubPart ''foo'' None None None None],
       SingleQuotedPart []]) = Inr (False, [], q)"
  "EvalStatic (CompoundWord
      [EscapedLiteralPart \<lparr>token_id = Id_Lit_EscapedChar, token_val = [CHR 0x5C, CHR ''E''], token_span = 0\<rparr>,
       LiteralPart \<lparr>token_id = Id_Lit_Chars, token_val = ''O'', token_span = 2\<rparr>,
       DoubleQuotedPart [LiteralPart \<lparr>token_id = Id_Lit_Chars, token_val = ''F'', token_span = 4\<rparr>]])
     = Inr (True, ''EOF'', True)"
  using EvalStatic_substitution[of
      "[LiteralPart \<lparr>token_id = Id_Lit_Chars, token_val = ''x'', token_span = 0\<rparr>]"
      "DoubleQuotedPart [VarSubPart ''foo'' None None None None]" "[SingleQuotedPart []]"]
    EvalStatic_static_parts[of
      "[EscapedLiteralPart \<lparr>token_id = Id_Lit_EscapedChar, token_val = [CHR 0x5C, CHR ''E''], token_span = 0\<rparr>,
       LiteralPart \<lparr>token_id = Id_Lit_Chars, token_val = ''O'', token_span = 2\<rparr>,
       DoubleQuotedPart [LiteralPart \<lparr>token_id = Id_Lit_Chars, token_val = ''F'', token_span = 4\<rparr>]]"]
  by simp_all

text \<open>
  C9.  Every compound word with a command, variable or arithmetic substitution part is to
  evaluate statically to \<open>ok = false\<close>.  \<open>ArrayLiteralPart\<close> is the one part class that does
  not define \<open>EvalStatic\<close>, so the call reaches the method of \<open>WordPart\<close>, which raises
  \<open>NotImplementedError\<close> although its docstring promises the triple
  \<open>(ok, value, quoted)\<close>.  For the word \<open>a=()$(...)\<close> (a literal, an array literal, a
  command substitution) \<open>EvalStatic\<close> raises at the array literal and returns nothing; so
  it does for \<open>a=($(...))\<close>, where the substitution is a word of the array literal.
\<close>

theorem C9_array_literal_raises:
  "has_subst (CommandSubPart \<lparr>token_id = Id_Left_CommandSub, token_val = ''$('', token_span = 4\<rparr> 0) \<and>
   EvalStatic (CompoundWord
     [LiteralPart \<lparr>token_id = Id_Lit_VarLike, token_val = ''a='', token_span = 0\<rparr>,
      ArrayLiteralPart [],
      CommandSubPart \<lparr>token_id = Id_Left_CommandSub, token_val = ''$('', token_span = 4\<rparr> 0])
     = Inl NotImplementedError \<and>
   EvalStatic (CompoundWord
     [LiteralPart \<lparr>token_id = Id_Lit_VarLike, token_val = ''a='', token_span = 0\<rparr>,
      ArrayLiteralPart [CompoundWord
        [CommandSubPart \<lparr>token_id = Id_Left_CommandSub, token_val = ''$('', token_span = 3\<rparr> 0]]])
     = Inl NotImplementedError"
  by simp

subsection \<open>Classification\<close>

text \<open>
  C4.  For a compound word whose literal tokens carry registered Ids, \<open>BoolId\<close> returns the
  Id of the token when the word is one literal part, the Id is not \<open>Undefined_Tok\<close>, and
  the Id is of Kind \<open>BoolUnary\<close> or \<open>BoolBinary\<close> or is \<open>KW_Bang\<close> or \<open>Lit_DRightBracket\<close>;
  in every other case (no part, several parts, a part that is not a literal, any other
  Id) it returns \<open>Word_Compound\<close>.
\<close>

theorem C4_bool_id:
  assumes "\<forall>t. parts = [LiteralPart t] \<longrightarrow> (\<exists>k. LookupKind (token_id t) = Inr k)"
  shows "BoolId (CompoundWord parts) =
     Inr (case parts of
            [LiteralPart t] \<Rightarrow>
              if token_id t \<noteq> Id_Undefined_Tok \<and>
                 (LookupKind (token_id t) = Inr Kind_BoolUnary \<or>
                  LookupKind (token_id t) = Inr Kind_BoolBinary \<or>
                  token_id t = Id_KW_Bang \<or> token_id t = Id_Lit_DRightBracket)
              then token_id t else Id_Word_Compound
          | _ \<Rightarrow> Id_Word_Compound)"
proof (cases parts)
  case Nil
  then show ?thesis by simp
next
  case (Cons p ps)
  show ?thesis
  proof (cases ps)
    case (Cons q qs)
    with \<open>parts = p # ps\<close> show ?thesis by (simp split: WordPart.splits)
  next
    case Nil
    show ?thesis
    proof (cases p)
      case (LiteralPart t)
      with Nil \<open>parts = p # ps\<close> have "parts = [LiteralPart t]" by simp
      with assms obtain k where k: "LookupKind (token_id t) = Inr k" by blast
      with \<open>parts = [LiteralPart t]\<close> show ?thesis
        by (auto simp add: Let_def)
    qed (use Nil \<open>parts = p # ps\<close> in \<open>simp_all add: Let_def\<close>)
  qed
qed

theorem C4_bool_id_witness:
  "(\<exists>k. LookupKind Id_BoolUnary_z = Inr k) \<and>
   BoolId (CompoundWord [LiteralPart \<lparr>token_id = Id_BoolUnary_z, token_val = ''-z'', token_span = 0\<rparr>])
     = Inr Id_BoolUnary_z \<and>
   BoolId (CompoundWord [LiteralPart \<lparr>token_id = Id_Lit_Chars, token_val = ''foo'', token_span = 0\<rparr>])
     = Inr Id_Word_Compound \<and>
   BoolId (CompoundWord [LiteralPart \<lparr>token_id = Id_Lit_DRightBracket, token_val = '']]'', token_span = 0\<rparr>])
     = Inr Id_Lit_DRightBracket"
proof -
  have k: "LookupKind 184 = Inr 19" "LookupKind 10 = Inr 5" "LookupKind 17 = Inr 5"
    by (simp_all add: LookupKind_eval)
  show ?thesis
    using C4_bool_id[of "[LiteralPart \<lparr>token_id = Id_BoolUnary_z, token_val = ''-z'', token_span = 0\<rparr>]"]
      C4_bool_id[of "[LiteralPart \<lparr>token_id = Id_Lit_Chars, token_val = ''foo'', token_span = 0\<rparr>]"]
      C4_bool_id[of "[LiteralPart \<lparr>token_id = Id_Lit_DRightBracket, token_val = '']]'', token_span = 0\<rparr>]"]
    by (simp add: Id_values Kind_values k)
qed

text \<open>
  C3, as stated, fails: the literal token \<open>=\<close> with the Id \<open>Lit_VarLike\<close> gives the empty
  name, which Python takes for false, and \<open>LooksLikeAssignment\<close> returns \<open>False\<close>.
\<close>

theorem C3_counterexample:
  "LiteralId (LiteralPart \<lparr>token_id = Id_Lit_VarLike, token_val = ''='', token_span = 0\<rparr>)
     = Id_Lit_VarLike \<and>
   LooksLikeAssignment
     (CompoundWord [LiteralPart \<lparr>token_id = Id_Lit_VarLike, token_val = ''='', token_span = 0\<rparr>])
     = Inr None"
  by simp

text \<open>
  The name is the text without its last character, so it ends in \<open>=\<close> when the text
  ends in \<open>==\<close>.
\<close>

lemma LooksLikeAssignment_double_equals:
  "LooksLikeAssignment
     (CompoundWord [LiteralPart \<lparr>token_id = Id_Lit_VarLike, token_val = ''a=='', token_span = 0\<rparr>])
     = Inr (Some (PyStr ''a='', CompoundWord [SingleQuotedPart []]))"
  by simp

text \<open>
  C3, amended.  For every compound word whose first part is a literal part with the Id
  \<open>Lit_VarLike\<close> and whose text is a name followed by \<open>=\<close>, the name being non-empty and
  not ending in \<open>=\<close>, \<open>LooksLikeAssignment\<close> returns the pair of that name and a new compound
  word: the remaining parts, or one empty single-quoted part when none remain.
\<close>

theorem C3_looks_like_assignment:
  assumes "parts = LiteralPart t # rest"
    and "token_id t = Id_Lit_VarLike"
    and "token_val t = name @ ''=''" and "name \<noteq> []" and "last name \<noteq> CHR ''=''"
  shows "LooksLikeAssignment (CompoundWord parts) =
     Inr (Some (PyStr name,
                CompoundWord (if rest = [] then [SingleQuotedPart []] else rest)))"
  using assms by (cases rest) simp_all

theorem C3_looks_like_assignment_witness:
  "LooksLikeAssignment (CompoundWord
      [LiteralPart \<lparr>token_id = Id_Lit_VarLike, token_val = ''FOO='', token_span = 0\<rparr>])
     = Inr (Some (PyStr ''FOO'', CompoundWord [SingleQuotedPart []])) \<and>
   LooksLikeAssignment (CompoundWord
      [LiteralPart \<lparr>token_id = Id_Lit_VarLike, token_val = ''FOO='', token_span = 0\<rparr>,
       LiteralPart \<lparr>token_id = Id_Lit_Chars, token_val = ''bar'', token_span = 4\<rparr>])
     = Inr (Some (PyStr ''FOO'',
          CompoundWord [LiteralPart \<lparr>token_id = Id_Lit_Chars, token_val = ''bar'', token_span = 4\<rparr>]))"
  using C3_looks_like_assignment[of
      "[LiteralPart \<lparr>token_id = Id_Lit_VarLike, token_val = ''FOO='', token_span = 0\<rparr>]"
      "\<lparr>token_id = Id_Lit_VarLike, token_val = ''FOO='', token_span = 0\<rparr>" "[]" "''FOO''"]
    C3_looks_like_assignment[of
      "[LiteralPart \<lparr>token_id = Id_Lit_VarLike, token_val = ''FOO='', token_span = 0\<rparr>,
        LiteralPart \<lparr>token_id = Id_Lit_Chars, token_val = ''bar'', token_span = 4\<rparr>]"
      "\<lparr>token_id = Id_Lit_VarLike, token_val = ''FOO='', token_span = 0\<rparr>"
      "[LiteralPart \<lparr>token_id = Id_Lit_Chars, token_val = ''bar'', token_span = 4\<rparr>]" "''FOO''"]
  by simp

text \<open>
  C8.  A compound word without an array part for which \<open>AsArithVarName\<close> returns a
  non-empty name does not look like an assignment: \<open>LooksLikeAssignment\<close> returns
  \<open>False\<close>.
\<close>

theorem C8_arith_var_name_not_assignment:
  assumes "HasArrayPart w = Inr False"
    and "AsArithVarName w = Inr (PyStr name)" and "name \<noteq> []"
  shows "LooksLikeAssignment w = Inr None"
proof (cases w)
  case (TokenWord t)
  with assms(2) show ?thesis by simp
next
  case (CompoundWord parts)
  with assms(2,3) have len: "length parts = 1" and n: "ArithVarLikeName (parts ! 0) = PyStr name"
    by (auto split: if_splits)
  from len obtain p where parts: "parts = [p]"
    by (cases parts) auto
  from n parts obtain t where p: "p = LiteralPart t" and t: "token_id t = Id_Lit_ArithVarLike"
    by (cases p) (auto split: if_splits)
  from t have "token_id t \<noteq> Id_Lit_VarLike" by (simp add: Id_values)
  with CompoundWord parts p show ?thesis by simp
qed

theorem C8_arith_var_name_not_assignment_witness:
  "HasArrayPart (CompoundWord
      [LiteralPart \<lparr>token_id = Id_Lit_ArithVarLike, token_val = ''x'', token_span = 0\<rparr>]) = Inr False \<and>
   AsArithVarName (CompoundWord
      [LiteralPart \<lparr>token_id = Id_Lit_ArithVarLike, token_val = ''x'', token_span = 0\<rparr>]) = Inr (PyStr ''x'') \<and>
   LooksLikeAssignment (CompoundWord
      [LiteralPart \<lparr>token_id = Id_Lit_ArithVarLike, token_val = ''x'', token_span = 0\<rparr>]) = Inr None"
proof -
  have h: "HasArrayPart (CompoundWord
      [LiteralPart \<lparr>token_id = Id_Lit_ArithVarLike, token_val = ''x'', token_span = 0\<rparr>]) = Inr False"
    by (simp add: Id_values)
  have a: "AsArithVarName (CompoundWord
      [LiteralPart \<lparr>token_id = Id_Lit_ArithVarLike, token_val = ''x'', token_span = 0\<rparr>]) = Inr (PyStr ''x'')"
    by simp
  from C8_arith_var_name_not_assignment[OF h a] h a show ?thesis by simp
qed


section \<open>The parser: combinators\<close>

lemma bind_outcome_Some:
  "bind_outcome x k = Some out \<longleftrightarrow>
     (\<exists>e. x = Some (Inl e) \<and> out = Inl e) \<or>
     (\<exists>v s. x = Some (Inr (v, s)) \<and> k v s = Some out)"
  by (auto simp add: bind_outcome_def split: option.splits sum.splits)

lemma or_return_None_Some:
  "or_return_None x k = Some out \<longleftrightarrow>
     (\<exists>e. x = Some (Inl e) \<and> out = Inl e) \<or>
     (\<exists>s. x = Some (Inr (False, s)) \<and> out = Inr (PyNone, s)) \<or>
     (\<exists>s. x = Some (Inr (True, s)) \<and> k s = Some out)"
  by (auto simp add: or_return_None_def bind_outcome_Some)

lemma bind_outcome_simps [simp]:
  "bind_outcome None k = None"
  "bind_outcome (Some (Inl e)) k = Some (Inl e)"
  "bind_outcome (Some (Inr (v, s))) k = k v s"
  by (simp_all add: bind_outcome_def)

lemma or_return_None_simps [simp]:
  "or_return_None None k = None"
  "or_return_None (Some (Inl e)) k = Some (Inl e)"
  "or_return_None (Some (Inr (True, s))) k = k s"
  "or_return_None (Some (Inr (False, s))) k = Some (Inr (PyNone, s))"
  by (simp_all add: or_return_None_def)

section \<open>The buffer of pending words\<close>

lemma LookupKind_Inl: "LookupKind i = Inl e \<Longrightarrow> e = KeyError"
  by (simp add: LookupKind_def split: option.splits)

lemma BoolId_Inl: "BoolId w = Inl e \<Longrightarrow> e = KeyError"
  by (cases w) (auto simp add: Let_def split: if_splits sum.splits dest: LookupKind_Inl)

lemma set_op_id_cases:
  assumes "set_op_id s = out"
  shows "(\<exists>e s'. out = Inl (e, s') \<and> no_assert e \<and> words s' = words s \<and>
            w_parser s' = w_parser s \<and> error_stack s' = error_stack s \<and> cur_word s' = cur_word s) \<or>
         (\<exists>s'. out = Inr (True, s') \<and> words s' = words s \<and> w_parser s' = w_parser s \<and>
            error_stack s' = error_stack s \<and> cur_word s' = cur_word s \<and> cur_word s \<noteq> None)"
  using assms
  by (auto simp add: set_op_id_def no_assert_def split: option.splits sum.splits
      dest: LookupKind_Inl BoolId_Inl)

lemma priv_NextOne_buffer:
  assumes "priv_NextOne rd m s = out"
    and "length (words s) \<le> 1 \<or> (length (words s) = 2 \<and> m = DBRACKET)"
  shows "(\<exists>e s'. out = Inl (e, s') \<and> no_assert e \<and> length (words s') = 1) \<or>
         (\<exists>s'. out = Inr (True, s') \<and> length (words s') = 1 \<and> cur_word s' \<noteq> None \<and>
              error_stack s' = error_stack s) \<or>
         (\<exists>s' errs. out = Inr (False, s') \<and> words s' = words s \<and> cur_word s' = cur_word s \<and>
              length (words s) \<le> 1 \<and> error_stack s' = error_stack s @ errs \<and>
              (reports_errors rd \<longrightarrow> errs \<noteq> []))"
proof -
  consider (two) "length (words s) = 2" "m = DBRACKET" | (read) "length (words s) \<le> 1"
    using assms(2) by auto
  then show ?thesis
  proof cases
    case two
    let ?s1 = "s\<lparr>words := [words s ! 1], cur_word := words s ! 1\<rparr>"
    from two assms(1) have "set_op_id ?s1 = out"
      by (simp add: priv_NextOne_def)
    from set_op_id_cases[OF this] show ?thesis by auto
  next
    case read
    then have n: "length (words s) = 0 \<or> length (words s) = 1" by arith
    obtain w r where rw: "ReadWord rd m (w_parser s) = (w, r)" by (cases "ReadWord rd m (w_parser s)")
    show ?thesis
    proof (cases w)
      case None
      with rw have "reports_errors rd \<longrightarrow> Error rd r \<noteq> []"
        by (auto simp add: reports_errors_def)
      with None rw n assms(1) read show ?thesis
        by (auto simp add: priv_NextOne_def)
    next
      case (Some w')
      let ?s1 = "s\<lparr>w_parser := r, words := [Some w'], cur_word := Some w'\<rparr>"
      from Some rw n assms(1) have "set_op_id ?s1 = out"
        by (auto simp add: priv_NextOne_def)
      from set_op_id_cases[OF this] show ?thesis by auto
    qed
  qed
qed

lemma priv_Next_buffer:
  assumes "priv_Next n rd m s = Some out"
    and "length (words s) \<le> 1 \<or> (length (words s) = 2 \<and> m = DBRACKET)"
  shows "(\<exists>e s'. out = Inl (e, s') \<and> no_assert e \<and> length (words s') = 1) \<or>
         (\<exists>s'. out = Inr (True, s') \<and> length (words s') = 1 \<and> cur_word s' \<noteq> None \<and>
              error_stack s' = error_stack s) \<or>
         (\<exists>s' errs. out = Inr (False, s') \<and> length (words s') \<le> 1 \<and>
              (length (words s) \<noteq> 0 \<longrightarrow>
                 length (words s') = 1 \<and> (cur_word s \<noteq> None \<longrightarrow> cur_word s' \<noteq> None)) \<and>
              error_stack s' = error_stack s @ errs \<and> (reports_errors rd \<longrightarrow> errs \<noteq> []))"
  using assms
proof (induction n arbitrary: s)
  case 0
  then show ?case by simp
next
  case (Suc n)
  from priv_NextOne_buffer[OF refl Suc.prems(2)]
  consider (err) e s' where "priv_NextOne rd m s = Inl (e, s')" "no_assert e" "length (words s') = 1"
    | (ok) s' where "priv_NextOne rd m s = Inr (True, s')" "length (words s') = 1" "cur_word s' \<noteq> None"
        "error_stack s' = error_stack s"
    | (fail) s' errs where "priv_NextOne rd m s = Inr (False, s')" "words s' = words s"
        "cur_word s' = cur_word s" "length (words s) \<le> 1" "error_stack s' = error_stack s @ errs"
        "reports_errors rd \<longrightarrow> errs \<noteq> []"
    by blast
  then show ?case
  proof cases
    case err
    with Suc.prems(1) have "out = Inl (e, s')" by simp
    with err(2-) show ?thesis by blast
  next
    case fail
    with Suc.prems(1) have "out = Inr (False, s')" by simp
    with fail show ?thesis by (cases "words s") auto
  next
    case ok
    show ?thesis
    proof (cases "op_id s' \<noteq> Id_Op_Newline")
      case True
      with ok(1) Suc.prems(1) have "out = Inr (True, s')" by simp
      with ok(2-) show ?thesis by blast
    next
      case False
      with ok(1) Suc.prems(1) have "priv_Next n rd m s' = Some out" by simp
      from Suc.IH[OF this] ok(2-) show ?thesis by auto
    qed
  qed
qed

lemma parse_post_Inl [simp]:
  "parse_post rd st (Inl x) \<longleftrightarrow> no_assert (fst x) \<and> length (words (snd x)) \<le> 2"
  by (simp add: parse_post_def)

lemma parse_post_Inr:
  "parse_post rd st (Inr (v, s')) \<longleftrightarrow>
     length (words s') = 1 \<and> cur_word s' \<noteq> None \<and>
     (\<exists>es. error_stack s' = st @ es \<and> (reports_errors rd \<longrightarrow> v = PyNone \<longrightarrow> es \<noteq> []))"
  by (simp add: parse_post_def)

lemma parse_post_extend:
  assumes "parse_post rd (st @ es1) out"
  shows "parse_post rd st out"
  using assms by (cases out) (auto simp add: parse_post_def)

text \<open>A step \<open>if not self._Next(...): return None\<close> followed by the rest \<open>k\<close>.\<close>

lemma next_post_gen:
  assumes run: "or_return_None (priv_Next n rd m s) k = Some out"
    and buf: "length (words s) = 1 \<or> (length (words s) = 2 \<and> m = DBRACKET)"
    and cur: "cur_word s \<noteq> None"
    and st: "error_stack s = st @ esa"
    and k: "\<And>s1. k s1 = Some out \<Longrightarrow> length (words s1) = 1 \<Longrightarrow> cur_word s1 \<noteq> None \<Longrightarrow>
              error_stack s1 = error_stack s \<Longrightarrow> parse_post rd st out"
  shows "parse_post rd st out"
proof -
  from run consider (err) e where "priv_Next n rd m s = Some (Inl e)" "out = Inl e"
    | (fail) s1 where "priv_Next n rd m s = Some (Inr (False, s1))" "out = Inr (PyNone, s1)"
    | (ok) s1 where "priv_Next n rd m s = Some (Inr (True, s1))" "k s1 = Some out"
    unfolding or_return_None_Some by blast
  then show ?thesis
  proof cases
    case err
    from priv_Next_buffer[OF err(1)] buf err(2) show ?thesis by auto
  next
    case fail
    from priv_Next_buffer[OF fail(1)] buf cur fail(2) st show ?thesis
      by (auto simp add: parse_post_Inr)
  next
    case ok
    from priv_Next_buffer[OF ok(1)] buf have "length (words s1) = 1" "cur_word s1 \<noteq> None"
      "error_stack s1 = error_stack s" by auto
    from k[OF ok(2) this] show ?thesis .
  qed
qed

lemma next_post:
  assumes "or_return_None (priv_Next n rd m s) k = Some out"
    and "length (words s) = 1 \<or> (length (words s) = 2 \<and> m = DBRACKET)"
    and "cur_word s \<noteq> None"
    and "\<And>s1. k s1 = Some out \<Longrightarrow> length (words s1) = 1 \<Longrightarrow> cur_word s1 \<noteq> None \<Longrightarrow>
              error_stack s1 = error_stack s \<Longrightarrow> parse_post rd (error_stack s) out"
  shows "parse_post rd (error_stack s) out"
proof (rule next_post_gen[where esa = "[]" and st = "error_stack s", OF assms(1-3)])
  show "error_stack s = error_stack s @ []" by simp
next
  fix s1
  assume "k s1 = Some out" "length (words s1) = 1" "cur_word s1 \<noteq> None"
    "error_stack s1 = error_stack s"
  then show "parse_post rd (error_stack s) out" by (rule assms(4))
qed

lemma parse_post_value:
  assumes "parse_post rd st (Inr (v, s'))" and "v' \<noteq> PyNone"
  shows "parse_post rd st (Inr (v', s'))"
  using assms by (auto simp add: parse_post_Inr)

lemma WordPart_EvalStatic_Inl:
  "WordPart_EvalStatic p = Inl e \<Longrightarrow> e = NotImplementedError"
  "DoubleQuotedPart_loop ps acc = Inl e \<Longrightarrow> e = NotImplementedError"
  by (induction p and ps acc rule: WordPart_EvalStatic_DoubleQuotedPart_loop.induct)
     (auto split: sum.splits if_splits)

lemma CompoundWord_loop_Inl:
  "CompoundWord_loop ps acc q = Inl e \<Longrightarrow> e = NotImplementedError"
  by (induction ps acc q rule: CompoundWord_loop.induct)
     (auto split: sum.splits if_splits dest: WordPart_EvalStatic_Inl)

lemma EvalStatic_Inl: "EvalStatic w = Inl e \<Longrightarrow> e = AttributeError \<or> e = NotImplementedError"
  by (cases w) (auto dest: CompoundWord_loop_Inl)

lemma invalid_regex_Inl: "invalid_regex rp right = Inl e \<Longrightarrow> no_assert e"
  by (auto simp add: invalid_regex_def no_assert_def split: option.splits sum.splits
      dest: EvalStatic_Inl)

lemma priv_LookAhead_one:
  assumes "length (words s) = 1"
  shows "\<exists>w s1. priv_LookAhead rd s = Inr (w, s1) \<and> length (words s1) = 2 \<and>
           cur_word s1 = cur_word s \<and> error_stack s1 = error_stack s \<and>
           op_id s1 = op_id s \<and> b_kind s1 = b_kind s"
  using assms by (auto simp add: priv_LookAhead_def split: prod.splits)

text \<open>The shape shared by \<open>ParseExpr\<close> and \<open>ParseTerm\<close>: a left operand, then
  perhaps an operator and a right operand.\<close>

lemma parse_chain_post:
  assumes inv: "length (words s) = 1" "cur_word s \<noteq> None"
      and run: "bind_outcome (L s) (\<lambda>left s1.
         if op_id s1 = opr then
           or_return_None (priv_Next n rd DBRACKET s1) (\<lambda>s2.
             bind_outcome (R s2) (\<lambda>right s3.
               Some (Inr (BinaryExprNode opr left right, s3))))
         else Some (Inr (left, s1))) = Some out"
      and L: "\<And>s out. length (words s) = 1 \<Longrightarrow> cur_word s \<noteq> None \<Longrightarrow>
         L s = Some out \<Longrightarrow> parse_post rd (error_stack s) out"
      and R: "\<And>s out. length (words s) = 1 \<Longrightarrow> cur_word s \<noteq> None \<Longrightarrow>
         R s = Some out \<Longrightarrow> parse_post rd (error_stack s) out"
  shows "parse_post rd (error_stack s) out"
proof -
  from run consider (err) e where "L s = Some (Inl e)" "out = Inl e"
    | (ok) left s1 where "L s = Some (Inr (left, s1))"
        "(if op_id s1 = opr then
           or_return_None (priv_Next n rd DBRACKET s1) (\<lambda>s2.
             bind_outcome (R s2) (\<lambda>right s3.
               Some (Inr (BinaryExprNode opr left right, s3))))
         else Some (Inr (left, s1))) = Some out"
    unfolding bind_outcome_Some by blast
  then show ?thesis
  proof cases
    case err
    with L[OF inv err(1)] show ?thesis by simp
  next
    case ok
    from L[OF inv ok(1)] have p1: "parse_post rd (error_stack s) (Inr (left, s1))" .
    then have inv1: "length (words s1) = 1" "cur_word s1 \<noteq> None"
      and st1: "\<exists>es. error_stack s1 = error_stack s @ es"
      by (auto simp add: parse_post_Inr)
    show ?thesis
    proof (cases "op_id s1 = opr")
      case False
      with ok(2) p1 show ?thesis by simp
    next
      case True
      with ok(2) have run2: "or_return_None (priv_Next n rd DBRACKET s1) (\<lambda>s2.
             bind_outcome (R s2) (\<lambda>right s3.
               Some (Inr (BinaryExprNode opr left right, s3)))) = Some out"
        by simp
      have "parse_post rd (error_stack s1) out"
      proof (rule next_post[OF run2 _ inv1(2)])
        show "length (words s1) = 1 \<or> length (words s1) = 2 \<and> DBRACKET = DBRACKET"
          using inv1(1) by simp
      next
        fix s2
        assume k: "bind_outcome (R s2) (\<lambda>right s3.
               Some (Inr (BinaryExprNode opr left right, s3))) = Some out"
          and inv2: "length (words s2) = 1" "cur_word s2 \<noteq> None"
          and st2: "error_stack s2 = error_stack s1"
        from k consider (err) e where "R s2 = Some (Inl e)" "out = Inl e"
          | (ok) right s3 where "R s2 = Some (Inr (right, s3))"
              "out = Inr (BinaryExprNode opr left right, s3)"
          unfolding bind_outcome_Some by auto
        then show "parse_post rd (error_stack s1) out"
        proof cases
          case err
          with R[OF inv2 err(1)] show ?thesis by simp
        next
          case ok
          from R[OF inv2 ok(1)] have "parse_post rd (error_stack s1) (Inr (right, s3))"
            by (simp add: st2)
          from parse_post_value[OF this] ok(2) show ?thesis by simp
        qed
      qed
      with st1 show ?thesis by (auto intro: parse_post_extend)
    qed
  qed
qed


text \<open>The branch \<open>WORD BINARY_OP WORD\<close> of \<open>ParseFactor\<close>, after the lookahead.\<close>

lemma binary_tail_post:
  assumes len1: "length (words s1) = 2" and cur1: "cur_word s1 \<noteq> None"
    and run: "or_return_None (priv_Next n rd DBRACKET s1) (\<lambda>s2.
        let op = op_id s2; is_regex = rx in
        or_return_None (priv_Next n rd (if is_regex then BASH_REGEX else DBRACKET) s2) (\<lambda>s3.
          let right = cur_word s3 in
          case (if is_regex then invalid_regex rp right else Inr (False, [])) of
            Inl e \<Rightarrow> Some (Inl (e, s3))
          | Inr chk \<Rightarrow>
              if fst chk then
                Some (Inr (PyNone,
                  AddErrorContext (Formatted ''Invalid regex: %r'' [ArgStr (snd chk)]) [] None right s3))
              else
                or_return_None (priv_Next n rd DBRACKET s3) (\<lambda>s4.
                  Some (Inr (BinaryExprNode op lft (node_of right), s4))))) = Some out"
  shows "parse_post rd (error_stack s1) out"
proof (rule next_post[OF run _ cur1])
  show "length (words s1) = 1 \<or> length (words s1) = 2 \<and> DBRACKET = DBRACKET"
    using len1 by simp
next
  fix s2
  assume run2: "(let op = op_id s2; is_regex = rx in
        or_return_None (priv_Next n rd (if is_regex then BASH_REGEX else DBRACKET) s2) (\<lambda>s3.
          let right = cur_word s3 in
          case (if is_regex then invalid_regex rp right else Inr (False, [])) of
            Inl e \<Rightarrow> Some (Inl (e, s3))
          | Inr chk \<Rightarrow>
              if fst chk then
                Some (Inr (PyNone,
                  AddErrorContext (Formatted ''Invalid regex: %r'' [ArgStr (snd chk)]) [] None right s3))
              else
                or_return_None (priv_Next n rd DBRACKET s3) (\<lambda>s4.
                  Some (Inr (BinaryExprNode op lft (node_of right), s4))))) = Some out"
    and inv2: "length (words s2) = 1" "cur_word s2 \<noteq> None"
    and st2: "error_stack s2 = error_stack s1"
  let ?k3 = "\<lambda>s3. case (if rx then invalid_regex rp (cur_word s3) else Inr (False, [])) of
            Inl e \<Rightarrow> Some (Inl (e, s3))
          | Inr chk \<Rightarrow>
              if fst chk then
                Some (Inr (PyNone,
                  AddErrorContext (Formatted ''Invalid regex: %r'' [ArgStr (snd chk)]) [] None (cur_word s3) s3))
              else
                or_return_None (priv_Next n rd DBRACKET s3) (\<lambda>s4.
                  Some (Inr (BinaryExprNode (op_id s2) lft (node_of (cur_word s3)), s4)))"
  from run2 have run2': "or_return_None
      (priv_Next n rd (if rx then BASH_REGEX else DBRACKET) s2) ?k3 = Some out"
    by (simp add: Let_def)
  have "parse_post rd (error_stack s2) out"
  proof (rule next_post[OF run2' _ inv2(2)])
    show "length (words s2) = 1 \<or>
        length (words s2) = 2 \<and> (if rx then BASH_REGEX else DBRACKET) = DBRACKET"
      using inv2(1) by simp
  next
    fix s3
    assume k3: "?k3 s3 = Some out"
      and inv3: "length (words s3) = 1" "cur_word s3 \<noteq> None"
      and st3: "error_stack s3 = error_stack s2"
    show "parse_post rd (error_stack s2) out"
    proof (cases "if rx then invalid_regex rp (cur_word s3) else Inr (False, [])")
      case (Inl e)
      with k3 have out: "out = Inl (e, s3)" by simp
      from Inl have "no_assert e"
        by (auto split: if_splits dest: invalid_regex_Inl)
      with out inv3 show ?thesis by simp
    next
      case (Inr chk)
      show ?thesis
      proof (cases "fst chk")
        case True
        with Inr k3 have "out = Inr (PyNone,
            AddErrorContext (Formatted ''Invalid regex: %r'' [ArgStr (snd chk)]) [] None (cur_word s3) s3)"
          by simp
        with inv3 st3 show ?thesis
          by (simp add: parse_post_Inr AddErrorContext_def)
      next
        case False
        with Inr k3 have run4: "or_return_None (priv_Next n rd DBRACKET s3) (\<lambda>s4.
            Some (Inr (BinaryExprNode (op_id s2) lft (node_of (cur_word s3)), s4))) = Some out"
          by simp
        have "parse_post rd (error_stack s3) out"
        proof (rule next_post[OF run4 _ inv3(2)])
          show "length (words s3) = 1 \<or> length (words s3) = 2 \<and> DBRACKET = DBRACKET"
            using inv3(1) by simp
        next
          fix s4
          assume "Some (Inr (BinaryExprNode (op_id s2) lft (node_of (cur_word s3)), s4)) = Some out"
            and "length (words s4) = 1" "cur_word s4 \<noteq> None" "error_stack s4 = error_stack s3"
          then show "parse_post rd (error_stack s3) out"
            by (auto simp add: parse_post_Inr)
        qed
        with st3 show ?thesis by simp
      qed
    qed
  qed
  with st2 show "parse_post rd (error_stack s1) out" by simp
qed

lemma parse_inv:
  "(\<forall>s out. length (words s) = 1 \<longrightarrow> cur_word s \<noteq> None \<longrightarrow>
       ParseExpr n rd rp s = Some out \<longrightarrow> parse_post rd (error_stack s) out) \<and>
   (\<forall>s out. length (words s) = 1 \<longrightarrow> cur_word s \<noteq> None \<longrightarrow>
       ParseTerm n rd rp s = Some out \<longrightarrow> parse_post rd (error_stack s) out) \<and>
   (\<forall>s out. length (words s) = 1 \<longrightarrow> cur_word s \<noteq> None \<longrightarrow>
       ParseNegatedFactor n rd rp s = Some out \<longrightarrow> parse_post rd (error_stack s) out) \<and>
   (\<forall>s out. length (words s) = 1 \<longrightarrow> cur_word s \<noteq> None \<longrightarrow>
       ParseFactor n rd rp s = Some out \<longrightarrow> parse_post rd (error_stack s) out)"
proof (induction n)
  case 0
  show ?case by simp
next
  case (Suc n)
  then have
    IHE: "\<And>s out. length (words s) = 1 \<Longrightarrow> cur_word s \<noteq> None \<Longrightarrow>
       ParseExpr n rd rp s = Some out \<Longrightarrow> parse_post rd (error_stack s) out" and
    IHT: "\<And>s out. length (words s) = 1 \<Longrightarrow> cur_word s \<noteq> None \<Longrightarrow>
       ParseTerm n rd rp s = Some out \<Longrightarrow> parse_post rd (error_stack s) out" and
    IHN: "\<And>s out. length (words s) = 1 \<Longrightarrow> cur_word s \<noteq> None \<Longrightarrow>
       ParseNegatedFactor n rd rp s = Some out \<Longrightarrow> parse_post rd (error_stack s) out" and
    IHF: "\<And>s out. length (words s) = 1 \<Longrightarrow> cur_word s \<noteq> None \<Longrightarrow>
       ParseFactor n rd rp s = Some out \<Longrightarrow> parse_post rd (error_stack s) out"
    by blast+
  have E: "parse_post rd (error_stack s) out"
    if "length (words s) = 1" "cur_word s \<noteq> None" "ParseExpr (Suc n) rd rp s = Some out"
    for s out
    by (rule parse_chain_post[where L = "ParseTerm n rd rp" and R = "ParseExpr n rd rp"
          and opr = Id_Op_DPipe, OF that(1,2) _ IHT IHE]) (use that(3) in simp)
  have T: "parse_post rd (error_stack s) out"
    if "length (words s) = 1" "cur_word s \<noteq> None" "ParseTerm (Suc n) rd rp s = Some out"
    for s out
    by (rule parse_chain_post[where L = "ParseNegatedFactor n rd rp" and R = "ParseTerm n rd rp"
          and opr = Id_Op_DAmp, OF that(1,2) _ IHN IHT]) (use that(3) in simp)
  have N: "parse_post rd (error_stack s) out"
    if inv: "length (words s) = 1" "cur_word s \<noteq> None"
      and run: "ParseNegatedFactor (Suc n) rd rp s = Some out"
    for s out
  proof (cases "op_id s = Id_KW_Bang")
    case False
    with run have "ParseFactor n rd rp s = Some out" by simp
    from IHF[OF inv this] show ?thesis .
  next
    case True
    with run have run1: "or_return_None (priv_Next n rd DBRACKET s) (\<lambda>s1.
          bind_outcome (ParseFactor n rd rp s1) (\<lambda>child s2.
            Some (Inr (LogicalNot child, s2)))) = Some out"
      by simp
    show ?thesis
    proof (rule next_post[OF run1 _ inv(2)])
      show "length (words s) = 1 \<or> length (words s) = 2 \<and> DBRACKET = DBRACKET"
        using inv(1) by simp
    next
      fix s1
      assume k: "bind_outcome (ParseFactor n rd rp s1) (\<lambda>child s2.
            Some (Inr (LogicalNot child, s2))) = Some out"
        and inv1: "length (words s1) = 1" "cur_word s1 \<noteq> None"
        and st1: "error_stack s1 = error_stack s"
      from k consider (err) e where "ParseFactor n rd rp s1 = Some (Inl e)" "out = Inl e"
        | (ok) child s2 where "ParseFactor n rd rp s1 = Some (Inr (child, s2))"
            "out = Inr (LogicalNot child, s2)"
        unfolding bind_outcome_Some by auto
      then show "parse_post rd (error_stack s) out"
      proof cases
        case err
        with IHF[OF inv1 err(1)] show ?thesis by simp
      next
        case ok
        from IHF[OF inv1 ok(1)] have "parse_post rd (error_stack s) (Inr (child, s2))"
          by (simp add: st1)
        from parse_post_value[OF this] ok(2) show ?thesis by simp
      qed
    qed
  qed
  have F: "parse_post rd (error_stack s) out"
    if inv: "length (words s) = 1" "cur_word s \<noteq> None"
      and run: "ParseFactor (Suc n) rd rp s = Some out"
    for s out
  proof -
    consider (unary) "b_kind s = Kind_BoolUnary"
      | (word) "b_kind s \<noteq> Kind_BoolUnary" "b_kind s = Kind_Word"
      | (paren) "b_kind s \<noteq> Kind_BoolUnary" "b_kind s \<noteq> Kind_Word" "op_id s = Id_Op_LParen"
      | (other) "b_kind s \<noteq> Kind_BoolUnary" "b_kind s \<noteq> Kind_Word" "op_id s \<noteq> Id_Op_LParen"
      by blast
    then show ?thesis
    proof cases
      case other
      with run have "out = Inl (AssertionError_UnexpectedToken, s)" by simp
      with inv show ?thesis by (simp add: no_assert_def)
    next
      case unary
      with run have run1: "or_return_None (priv_Next n rd DBRACKET s) (\<lambda>s1.
           or_return_None (priv_Next n rd DBRACKET s1) (\<lambda>s2.
             Some (Inr (UnaryExprNode (op_id s) (node_of (cur_word s1)), s2)))) = Some out"
        by (simp add: Let_def)
      show ?thesis
      proof (rule next_post[OF run1 _ inv(2)])
        show "length (words s) = 1 \<or> length (words s) = 2 \<and> DBRACKET = DBRACKET"
          using inv(1) by simp
      next
        fix s1
        assume run2: "or_return_None (priv_Next n rd DBRACKET s1) (\<lambda>s2.
             Some (Inr (UnaryExprNode (op_id s) (node_of (cur_word s1)), s2))) = Some out"
          and inv1: "length (words s1) = 1" "cur_word s1 \<noteq> None"
          and st1: "error_stack s1 = error_stack s"
        have "parse_post rd (error_stack s1) out"
        proof (rule next_post[OF run2 _ inv1(2)])
          show "length (words s1) = 1 \<or> length (words s1) = 2 \<and> DBRACKET = DBRACKET"
            using inv1(1) by simp
        next
          fix s2
          assume "Some (Inr (UnaryExprNode (op_id s) (node_of (cur_word s1)), s2)) = Some out"
            and "length (words s2) = 1" "cur_word s2 \<noteq> None" "error_stack s2 = error_stack s1"
          then show "parse_post rd (error_stack s1) out"
            by (auto simp add: parse_post_Inr)
        qed
        with st1 show "parse_post rd (error_stack s) out" by simp
      qed
    next
      case paren
      with run have run1: "or_return_None (priv_Next n rd DBRACKET s) (\<lambda>s1.
          bind_outcome (ParseExpr n rd rp s1) (\<lambda>node s2.
            if op_id s2 \<noteq> Id_Op_RParen then Some (Inl (RuntimeError_ExpectedRParen, s2))
            else or_return_None (priv_Next n rd DBRACKET s2) (\<lambda>s3. Some (Inr (node, s3))))) = Some out"
        by simp
      show ?thesis
      proof (rule next_post[OF run1 _ inv(2)])
        show "length (words s) = 1 \<or> length (words s) = 2 \<and> DBRACKET = DBRACKET"
          using inv(1) by simp
      next
        fix s1
        assume k: "bind_outcome (ParseExpr n rd rp s1) (\<lambda>node s2.
            if op_id s2 \<noteq> Id_Op_RParen then Some (Inl (RuntimeError_ExpectedRParen, s2))
            else or_return_None (priv_Next n rd DBRACKET s2) (\<lambda>s3. Some (Inr (node, s3)))) = Some out"
          and inv1: "length (words s1) = 1" "cur_word s1 \<noteq> None"
          and st1: "error_stack s1 = error_stack s"
        from k consider (err) e where "ParseExpr n rd rp s1 = Some (Inl e)" "out = Inl e"
          | (ok) node s2 where "ParseExpr n rd rp s1 = Some (Inr (node, s2))"
              "(if op_id s2 \<noteq> Id_Op_RParen then Some (Inl (RuntimeError_ExpectedRParen, s2))
                else or_return_None (priv_Next n rd DBRACKET s2) (\<lambda>s3. Some (Inr (node, s3)))) = Some out"
          unfolding bind_outcome_Some by blast
        then show "parse_post rd (error_stack s) out"
        proof cases
          case err
          with IHE[OF inv1 err(1)] show ?thesis by simp
        next
          case ok
          from IHE[OF inv1 ok(1)] have p2: "parse_post rd (error_stack s) (Inr (node, s2))"
            by (simp add: st1)
          then obtain es where inv2: "length (words s2) = 1" "cur_word s2 \<noteq> None"
            and st2: "error_stack s2 = error_stack s @ es"
            and none2: "reports_errors rd \<longrightarrow> node = PyNone \<longrightarrow> es \<noteq> []"
            by (auto simp add: parse_post_Inr)
          show ?thesis
          proof (cases "op_id s2 \<noteq> Id_Op_RParen")
            case True
            with ok(2) have "out = Inl (RuntimeError_ExpectedRParen, s2)" by simp
            with inv2 show ?thesis by (simp add: no_assert_def)
          next
            case False
            with ok(2) have run3: "or_return_None (priv_Next n rd DBRACKET s2)
                 (\<lambda>s3. Some (Inr (node, s3))) = Some out"
              by simp
            show ?thesis
            proof (rule next_post_gen[OF run3 _ inv2(2) st2])
              show "length (words s2) = 1 \<or> length (words s2) = 2 \<and> DBRACKET = DBRACKET"
                using inv2(1) by simp
            next
              fix s3
              assume "Some (Inr (node, s3)) = Some out"
                and "length (words s3) = 1" "cur_word s3 \<noteq> None" "error_stack s3 = error_stack s2"
              with st2 none2 show "parse_post rd (error_stack s) out"
                by (auto simp add: parse_post_Inr)
            qed
          qed
        qed
      qed
    next
      case word
      from priv_LookAhead_one[OF inv(1), of rd] obtain t2 s1 where
        la: "priv_LookAhead rd s = Inr (t2, s1)" and len1: "length (words s1) = 2"
        and cur1: "cur_word s1 = cur_word s" and st1: "error_stack s1 = error_stack s"
        by blast
      from word run la have run1: "(case t2 of
            None \<Rightarrow> Some (Inl (AttributeError, s1))
          | Some w2 \<Rightarrow>
             (case BoolId w2 of
                Inl e \<Rightarrow> Some (Inl (e, s1))
              | Inr t2_op_id \<Rightarrow>
                 (case LookupKind t2_op_id of
                    Inl e \<Rightarrow> Some (Inl (e, s1))
                  | Inr t2_b_kind \<Rightarrow>
                     if t2_b_kind = Kind_BoolBinary \<or> t2_b_kind = Kind_Redir then
                       (let left = cur_word s1 in
                        or_return_None (priv_Next n rd DBRACKET s1) (\<lambda>s2.
                          let op = op_id s2;
                              is_regex = (t2_op_id = Id_BoolBinary_EqualTilde)
                          in
                          or_return_None
                            (priv_Next n rd (if is_regex then BASH_REGEX else DBRACKET) s2) (\<lambda>s3.
                            let right = cur_word s3 in
                            case (if is_regex then invalid_regex rp right
                                  else Inr (False, [])) of
                              Inl e \<Rightarrow> Some (Inl (e, s3))
                            | Inr chk \<Rightarrow>
                                if fst chk then
                                  Some (Inr (PyNone,
                                    AddErrorContext (Formatted ''Invalid regex: %r'' [ArgStr (snd chk)]) []
                                      None right s3))
                                else
                                  or_return_None (priv_Next n rd DBRACKET s3) (\<lambda>s4.
                                    Some (Inr (BinaryExprNode op (node_of left) (node_of right),
                                               s4))))))
                     else
                       (let word = cur_word s1 in
                        or_return_None (priv_Next n rd DBRACKET s1) (\<lambda>s2.
                          Some (Inr (node_of word, s2))))))) = Some out"
        by simp
      have cur1': "cur_word s1 \<noteq> None" using cur1 inv(2) by simp
      have "parse_post rd (error_stack s1) out"
      proof (cases t2)
        case None
        with run1 len1 show ?thesis by (auto simp add: no_assert_def)
      next
        case (Some w2)
        show ?thesis
        proof (cases "BoolId w2")
          case (Inl e)
          with Some run1 len1 show ?thesis
            by (auto simp add: no_assert_def dest: BoolId_Inl)
        next
          case i: (Inr i)
          show ?thesis
          proof (cases "LookupKind i")
            case (Inl e)
            with Some i run1 len1 show ?thesis
              by (auto simp add: no_assert_def dest: LookupKind_Inl)
          next
            case k: (Inr k)
            show ?thesis
            proof (cases "k = Kind_BoolBinary \<or> k = Kind_Redir")
              case True
              with Some i k run1 show ?thesis
                by (intro binary_tail_post[OF len1 cur1',
                      where rx = "i = Id_BoolBinary_EqualTilde"
                        and lft = "node_of (cur_word s1)" and rp = rp]) (simp add: Let_def)
            next
              case False
              with Some i k run1 have run2: "or_return_None (priv_Next n rd DBRACKET s1) (\<lambda>s2.
                  Some (Inr (node_of (cur_word s1), s2))) = Some out"
                by (simp add: Let_def)
              show ?thesis
              proof (rule next_post[OF run2 _ cur1'])
                show "length (words s1) = 1 \<or> length (words s1) = 2 \<and> DBRACKET = DBRACKET"
                  using len1 by simp
              next
                fix s2
                assume "Some (Inr (node_of (cur_word s1), s2)) = Some out"
                  and "length (words s2) = 1" "cur_word s2 \<noteq> None" "error_stack s2 = error_stack s1"
                with cur1' show "parse_post rd (error_stack s1) out"
                  by (auto simp add: parse_post_Inr)
              qed
            qed
          qed
        qed
      qed
      with st1 show ?thesis by simp
    qed
  qed
  from E T N F show ?case by blast
qed


lemma Parse_post:
  assumes run: "Parse n rd rp (BoolParser_init r) = Some out"
  shows "case out of
      Inl x \<Rightarrow> fst x \<noteq> AssertionError_LexMode \<and> fst x \<noteq> AssertionError_LookAhead \<and>
               length (words (snd x)) \<le> 2
    | Inr x \<Rightarrow> length (words (snd x)) \<le> 1 \<and>
        (reports_errors rd \<longrightarrow> fst x = PyNone \<longrightarrow> error_stack (snd x) \<noteq> [])"
proof -
  let ?s = "BoolParser_init r :: 'a BoolParser"
  have init: "length (words ?s) = 0" "error_stack ?s = []"
    by (simp_all add: BoolParser_init_def)
  let ?k = "\<lambda>s1. bind_outcome (ParseExpr n rd rp s1) (\<lambda>node s2.
         if \<not> AtEnd s2 then
           Some (Inr (PyNone,
             AddErrorContext (Text ''Unexpected extra word %r'') [ArgWord (cur_word s2)]
               None (cur_word s2) s2))
         else Some (Inr (node, s2)))"
  from run have run': "or_return_None (priv_Next n rd DBRACKET ?s) ?k = Some out"
    by (simp add: Parse_def)
  then consider (err) e where "priv_Next n rd DBRACKET ?s = Some (Inl e)" "out = Inl e"
    | (fail) s1 where "priv_Next n rd DBRACKET ?s = Some (Inr (False, s1))" "out = Inr (PyNone, s1)"
    | (ok) s1 where "priv_Next n rd DBRACKET ?s = Some (Inr (True, s1))" "?k s1 = Some out"
    unfolding or_return_None_Some by blast
  then show ?thesis
  proof cases
    case err
    from priv_Next_buffer[OF err(1)] init err(2) show ?thesis
      by (auto simp add: no_assert_def)
  next
    case fail
    from priv_Next_buffer[OF fail(1)] init fail(2) show ?thesis by auto
  next
    case ok
    from priv_Next_buffer[OF ok(1)] init have inv1: "length (words s1) = 1" "cur_word s1 \<noteq> None"
      and st1: "error_stack s1 = []" by auto
    from ok(2) consider (err) e where "ParseExpr n rd rp s1 = Some (Inl e)" "out = Inl e"
      | (ret) node s2 where "ParseExpr n rd rp s1 = Some (Inr (node, s2))"
          "(if \<not> AtEnd s2 then
             Some (Inr (PyNone,
               AddErrorContext (Text ''Unexpected extra word %r'') [ArgWord (cur_word s2)]
                 None (cur_word s2) s2))
           else Some (Inr (node, s2))) = Some out"
      unfolding bind_outcome_Some by blast
    then show ?thesis
    proof cases
      case err
      from parse_inv[of n rd rp] inv1 err(1) have "parse_post rd (error_stack s1) (Inl e)"
        by blast
      with err(2) show ?thesis by (simp add: no_assert_def)
    next
      case ret
      from parse_inv[of n rd rp] inv1 ret(1) have "parse_post rd (error_stack s1) (Inr (node, s2))"
        by blast
      with st1 ret(2) show ?thesis
        by (auto simp add: parse_post_Inr AddErrorContext_def split: if_splits)
    qed
  qed
qed


section \<open>More fuel does not change a result\<close>

lemma bind_outcome_mono:
  assumes "bind_outcome x f = Some out"
    and "\<And>r. x = Some r \<Longrightarrow> x' = Some r"
    and "\<And>v s. f v s = Some out \<Longrightarrow> f' v s = Some out"
  shows "bind_outcome x' f' = Some out"
  using assms unfolding bind_outcome_Some by blast

lemma or_return_None_mono:
  assumes "or_return_None x f = Some out"
    and "\<And>r. x = Some r \<Longrightarrow> x' = Some r"
    and "\<And>s. f s = Some out \<Longrightarrow> f' s = Some out"
  shows "or_return_None x' f' = Some out"
  using assms unfolding or_return_None_Some by blast

lemma priv_Next_mono:
  "priv_Next n rd m s = Some out \<Longrightarrow> priv_Next (n + k) rd m s = Some out"
  by (induction n arbitrary: s) (auto split: sum.splits if_splits)

lemma Parse_fuel_mono:
  "(\<forall>s out. ParseExpr n rd rp s = Some out \<longrightarrow> ParseExpr (n + k) rd rp s = Some out) \<and>
   (\<forall>s out. ParseTerm n rd rp s = Some out \<longrightarrow> ParseTerm (n + k) rd rp s = Some out) \<and>
   (\<forall>s out. ParseNegatedFactor n rd rp s = Some out \<longrightarrow>
       ParseNegatedFactor (n + k) rd rp s = Some out) \<and>
   (\<forall>s out. ParseFactor n rd rp s = Some out \<longrightarrow> ParseFactor (n + k) rd rp s = Some out)"
proof (induction n)
  case 0
  show ?case by simp
next
  case (Suc n)
  then have
    IHE: "\<And>s out. ParseExpr n rd rp s = Some out \<Longrightarrow> ParseExpr (n + k) rd rp s = Some out" and
    IHT: "\<And>s out. ParseTerm n rd rp s = Some out \<Longrightarrow> ParseTerm (n + k) rd rp s = Some out" and
    IHN: "\<And>s out. ParseNegatedFactor n rd rp s = Some out \<Longrightarrow>
       ParseNegatedFactor (n + k) rd rp s = Some out" and
    IHF: "\<And>s out. ParseFactor n rd rp s = Some out \<Longrightarrow> ParseFactor (n + k) rd rp s = Some out"
    by blast+
  note mono = bind_outcome_mono or_return_None_mono
  note step = IHE IHT IHN IHF priv_Next_mono
  have E: "ParseExpr (Suc n + k) rd rp s = Some out" if "ParseExpr (Suc n) rd rp s = Some out" for s out
    using that
    by (auto elim!: mono intro: step split: if_splits)
  have T: "ParseTerm (Suc n + k) rd rp s = Some out" if "ParseTerm (Suc n) rd rp s = Some out" for s out
    using that
    by (auto elim!: mono intro: step split: if_splits)
  have N: "ParseNegatedFactor (Suc n + k) rd rp s = Some out"
    if "ParseNegatedFactor (Suc n) rd rp s = Some out" for s out
    using that
    by (auto elim!: mono intro: step split: if_splits)
  have F: "ParseFactor (Suc n + k) rd rp s = Some out"
    if "ParseFactor (Suc n) rd rp s = Some out" for s out
    using that
    apply (auto simp add: Let_def elim!: mono split: if_splits option.splits sum.splits)
    apply (erule step)+
    done
  from E T N F show ?case by blast
qed


section \<open>The parser on explicit inputs\<close>

lemma list_reader_simps:
  "ReadWord list_reader m (w # ws, lg) = (w, (ws, lg @ [m]))"
  "ReadWord list_reader m ([], lg) = (None, ([], lg @ [m]))"
  "Error list_reader r = [\<lparr> err_msg = Text ''word parser error'', err_args = [], err_token = None,
                     err_word = None \<rparr>]"
  by (simp_all add: list_reader_def)

lemma BoolId_lit_word:
  "BoolId (lit_word i v) =
     (if i = Id_Undefined_Tok then Inr Id_Word_Compound
      else if i = Id_KW_Bang \<or> i = Id_Lit_DRightBracket then Inr i
      else case LookupKind i of
          Inl e \<Rightarrow> Inl e
        | Inr token_kind \<Rightarrow>
            if token_kind = Kind_BoolUnary \<or> token_kind = Kind_BoolBinary then Inr i
            else Inr Id_Word_Compound)"
  "BoolId (op_word i v) = Inr i"
  by (simp_all add: lit_word_def op_word_def)

lemma EvalStatic_lit_word: "EvalStatic (lit_word i v) = Inr (True, v, False)"
  by (simp add: lit_word_def)

lemmas run_eval = Parse_def BoolParser_init_def priv_NextOne_def set_op_id_def
     list_reader_simps BoolId_lit_word EvalStatic_lit_word Id_values Kind_values LookupKind_eval priv_LookAhead_def
     invalid_regex_def AtEnd_def Let_def AddErrorContext_def

lemma reports_errors_list_reader: "reports_errors list_reader"
  by (simp add: reports_errors_def list_reader_def)

section \<open>Claims about the parser\<close>

subsection \<open>The buffer of pending words and the lookahead\<close>

text \<open>
  The buffer \<open>words\<close> changes in \<open>_NextOne\<close> and \<open>_LookAhead\<close> only.  A lookahead that returns
  was entered with one word buffered and leaves two; an advance from a buffer of at most
  two words leaves at most one.
\<close>

lemma priv_LookAhead_buffer:
  "priv_LookAhead rd s = Inr (w, s') \<Longrightarrow> length (words s) = 1 \<and> length (words s') = 2"
  "priv_LookAhead rd s = Inl (e, s') \<Longrightarrow> length (words s) \<noteq> 1 \<and> e = AssertionError_LookAhead"
  by (auto simp add: priv_LookAhead_def split: if_splits prod.splits)

lemma priv_NextOne_length:
  assumes "length (words s) \<le> 2" and "priv_NextOne rd m s = Inr (b, s')"
  shows "length (words s') \<le> 1"
proof -
  have keep: "set_op_id t = Inr (b, t') \<Longrightarrow> words t' = words t" for t t' :: "'a BoolParser"
    by (auto simp add: set_op_id_def split: option.splits sum.splits)
  from assms show ?thesis
    by (auto simp add: priv_NextOne_def Let_def dest!: keep split: if_splits prod.splits option.splits)
qed

text \<open>
  C10.  In every run of \<open>Parse\<close> from a fresh parser, whatever the word parser returns and
  for every amount of fuel: the run does not raise the assertion of \<open>_NextOne\<close> (a buffer of
  two words drained under a mode other than \<open>DBRACKET\<close>, which is what a \<open>BASH_REGEX\<close> read
  with the lookahead still buffered would do) nor the one of \<open>_LookAhead\<close> (a lookahead
  with a number of buffered words other than one); when it raises another exception the
  buffer holds at most two words, and when it returns the buffer holds at most one.
\<close>

theorem C10_lookahead_buffer:
  assumes "Parse n rd regex_parse (BoolParser_init r) = Some out"
  shows "case out of
      Inl x \<Rightarrow> fst x \<noteq> AssertionError_LexMode \<and> fst x \<noteq> AssertionError_LookAhead \<and>
               length (words (snd x)) \<le> 2
    | Inr x \<Rightarrow> length (words (snd x)) \<le> 1"
  using Parse_post[OF assms] by (auto split: sum.splits)

theorem C10_lookahead_buffer_witness:
  "Parse (Suc (Suc (Suc (Suc (Suc 0))))) list_reader (\<lambda>s. True)
     (BoolParser_init
        ([Some (lit_word Id_Lit_Chars ''x''), Some (lit_word Id_BoolBinary_EqualTilde ''=~''),
          Some (lit_word Id_Lit_Chars ''a''), Some (lit_word Id_Lit_DRightBracket '']]'')], [])) =
     Some (Inr (BinaryExprNode Id_BoolBinary_EqualTilde (WordNode (lit_word Id_Lit_Chars ''x''))
                  (WordNode (lit_word Id_Lit_Chars ''a'')),
       \<lparr> w_parser = ([], [DBRACKET, DBRACKET, BASH_REGEX, DBRACKET]),
         words = [Some (lit_word Id_Lit_DRightBracket '']]'')],
         cur_word = Some (lit_word Id_Lit_DRightBracket '']]''),
         op_id = Id_Lit_DRightBracket, b_kind = 5, error_stack = [] \<rparr>)) \<and>
   length [Some (lit_word Id_Lit_DRightBracket '']]'')] \<le> 1"
proof -
  let ?r = "([Some (lit_word Id_Lit_Chars ''x''), Some (lit_word Id_BoolBinary_EqualTilde ''=~''),
          Some (lit_word Id_Lit_Chars ''a''), Some (lit_word Id_Lit_DRightBracket '']]'')], [])"
  let ?out = "Inr (BinaryExprNode Id_BoolBinary_EqualTilde (WordNode (lit_word Id_Lit_Chars ''x''))
                  (WordNode (lit_word Id_Lit_Chars ''a'')),
       \<lparr> w_parser = ([], [DBRACKET, DBRACKET, BASH_REGEX, DBRACKET]),
         words = [Some (lit_word Id_Lit_DRightBracket '']]'')],
         cur_word = Some (lit_word Id_Lit_DRightBracket '']]''),
         op_id = Id_Lit_DRightBracket, b_kind = 5, error_stack = [] \<rparr>)"
  have run: "Parse (Suc (Suc (Suc (Suc (Suc 0))))) list_reader (\<lambda>s. True) (BoolParser_init ?r)
      = Some ?out"
    by (simp add: run_eval)
  from C10_lookahead_buffer[OF run] run show ?thesis by simp
qed

subsection \<open>The right operand of the regex operator\<close>

lemma ParseFactor_unary_operand:
  assumes "b_kind s = Kind_BoolUnary" and "length (words s) \<le> 1"
    and "ReadWord rd DBRACKET (w_parser s) = (Some w1, r1)"
    and "BoolId w1 = Inr i1" and "LookupKind i1 = Inr k1" and "i1 \<noteq> Id_Op_Newline"
    and "ReadWord rd DBRACKET r1 = (Some w2, r2)"
    and "BoolId w2 = Inr i2" and "LookupKind i2 = Inr k2" and "i2 \<noteq> Id_Op_Newline"
  shows "ParseFactor (Suc (Suc n)) rd regex_parse s =
     Some (Inr (UnaryExprNode (op_id s) (WordNode w1),
       s\<lparr> w_parser := r2, words := [Some w2], cur_word := Some w2, op_id := i2, b_kind := k2 \<rparr>))"
proof -
  from assms(2) have "words s = [] \<or> (\<exists>c. words s = [c])" by (cases "words s") auto
  with assms show ?thesis
    by (auto simp add: priv_NextOne_def set_op_id_def Let_def)
qed



subsection \<open>Chains of logical operators\<close>

lemma fuel_le:
  assumes "n \<le> m"
  shows "priv_Next n rd lm s = Some b \<Longrightarrow> priv_Next m rd lm s = Some b"
    and "ParseExpr n rd rp s = Some out \<Longrightarrow> ParseExpr m rd rp s = Some out"
    and "ParseTerm n rd rp s = Some out \<Longrightarrow> ParseTerm m rd rp s = Some out"
    and "ParseNegatedFactor n rd rp s = Some out \<Longrightarrow> ParseNegatedFactor m rd rp s = Some out"
    and "ParseFactor n rd rp s = Some out \<Longrightarrow> ParseFactor m rd rp s = Some out"
proof -
  from assms obtain k where m: "m = n + k" by (auto simp add: le_iff_add)
  show "priv_Next n rd lm s = Some b \<Longrightarrow> priv_Next m rd lm s = Some b"
    unfolding m by (rule priv_Next_mono)
  show "ParseExpr n rd rp s = Some out \<Longrightarrow> ParseExpr m rd rp s = Some out"
    unfolding m using Parse_fuel_mono[of n rd rp k] by blast
  show "ParseTerm n rd rp s = Some out \<Longrightarrow> ParseTerm m rd rp s = Some out"
    unfolding m using Parse_fuel_mono[of n rd rp k] by blast
  show "ParseNegatedFactor n rd rp s = Some out \<Longrightarrow> ParseNegatedFactor m rd rp s = Some out"
    unfolding m using Parse_fuel_mono[of n rd rp k] by blast
  show "ParseFactor n rd rp s = Some out \<Longrightarrow> ParseFactor m rd rp s = Some out"
    unfolding m using Parse_fuel_mono[of n rd rp k] by blast
qed

lemma ParseTerm_single:
  assumes "ParseNegatedFactor n rd rp s = Some (Inr (a, s1))" and "op_id s1 \<noteq> Id_Op_DAmp"
  shows "ParseTerm (Suc n) rd rp s = Some (Inr (a, s1))"
  using assms by simp

lemma ParseTerm_and:
  assumes "ParseNegatedFactor n rd rp s = Some (Inr (a, s1))" and "op_id s1 = Id_Op_DAmp"
    and "priv_Next n rd DBRACKET s1 = Some (Inr (True, s2))"
    and "ParseTerm n rd rp s2 = Some (Inr (b, s3))"
  shows "ParseTerm (Suc n) rd rp s = Some (Inr (BinaryExprNode Id_Op_DAmp a b, s3))"
  using assms by simp

lemma ParseExpr_single:
  assumes "ParseTerm n rd rp s = Some (Inr (a, s1))" and "op_id s1 \<noteq> Id_Op_DPipe"
  shows "ParseExpr (Suc n) rd rp s = Some (Inr (a, s1))"
  using assms by simp

lemma ParseExpr_or:
  assumes "ParseTerm n rd rp s = Some (Inr (a, s1))" and "op_id s1 = Id_Op_DPipe"
    and "priv_Next n rd DBRACKET s1 = Some (Inr (True, s2))"
    and "ParseExpr n rd rp s2 = Some (Inr (b, s3))"
  shows "ParseExpr (Suc n) rd rp s = Some (Inr (BinaryExprNode Id_Op_DPipe a b, s3))"
  using assms by simp

text \<open>
  C7.  Chains of \<open>||\<close> and of \<open>&&\<close> lean to the right, and \<open>&&\<close> binds tighter than \<open>||\<close>.
  Let the operands \<open>a\<close>, \<open>b\<close>, \<open>c\<close> be what the parser returns for three operand expressions,
  each followed by the operator named (\<open>s1\<close>, \<open>s3\<close>, \<open>s5\<close> are the states after the
  operands, \<open>s2\<close>, \<open>s4\<close> the states after advancing over the operators).  Then
  \<open>a || b || c\<close> with terms as operands parses to
  \<open>BinaryExprNode(Op_DPipe, a, BinaryExprNode(Op_DPipe, b, c))\<close>; \<open>a && b && c\<close> with negated
  factors as operands parses to \<open>BinaryExprNode(Op_DAmp, a, BinaryExprNode(Op_DAmp, b, c))\<close>;
  and \<open>a || b && c\<close> parses to \<open>BinaryExprNode(Op_DPipe, a, BinaryExprNode(Op_DAmp, b, c))\<close>.
\<close>

theorem C7_right_leaning:
  "(ParseTerm n rd rp s = Some (Inr (a, s1)) \<and> op_id s1 = Id_Op_DPipe \<and>
    priv_Next n rd DBRACKET s1 = Some (Inr (True, s2)) \<and>
    ParseTerm n rd rp s2 = Some (Inr (b, s3)) \<and> op_id s3 = Id_Op_DPipe \<and>
    priv_Next n rd DBRACKET s3 = Some (Inr (True, s4)) \<and>
    ParseTerm n rd rp s4 = Some (Inr (c, s5)) \<and> op_id s5 \<noteq> Id_Op_DPipe \<longrightarrow>
    ParseExpr (n + 3) rd rp s =
      Some (Inr (BinaryExprNode Id_Op_DPipe a (BinaryExprNode Id_Op_DPipe b c), s5))) \<and>
   (ParseNegatedFactor n rd rp s = Some (Inr (a, s1)) \<and> op_id s1 = Id_Op_DAmp \<and>
    priv_Next n rd DBRACKET s1 = Some (Inr (True, s2)) \<and>
    ParseNegatedFactor n rd rp s2 = Some (Inr (b, s3)) \<and> op_id s3 = Id_Op_DAmp \<and>
    priv_Next n rd DBRACKET s3 = Some (Inr (True, s4)) \<and>
    ParseNegatedFactor n rd rp s4 = Some (Inr (c, s5)) \<and> op_id s5 \<noteq> Id_Op_DAmp \<longrightarrow>
    ParseTerm (n + 3) rd rp s =
      Some (Inr (BinaryExprNode Id_Op_DAmp a (BinaryExprNode Id_Op_DAmp b c), s5))) \<and>
   (ParseNegatedFactor n rd rp s = Some (Inr (a, s1)) \<and> op_id s1 = Id_Op_DPipe \<and>
    priv_Next n rd DBRACKET s1 = Some (Inr (True, s2)) \<and>
    ParseNegatedFactor n rd rp s2 = Some (Inr (b, s3)) \<and> op_id s3 = Id_Op_DAmp \<and>
    priv_Next n rd DBRACKET s3 = Some (Inr (True, s4)) \<and>
    ParseNegatedFactor n rd rp s4 = Some (Inr (c, s5)) \<and>
    op_id s5 \<noteq> Id_Op_DAmp \<and> op_id s5 \<noteq> Id_Op_DPipe \<longrightarrow>
    ParseExpr (n + 4) rd rp s =
      Some (Inr (BinaryExprNode Id_Op_DPipe a (BinaryExprNode Id_Op_DAmp b c), s5)))"
proof (intro conjI impI; elim conjE)
  assume a: "ParseTerm n rd rp s = Some (Inr (a, s1))" and oa: "op_id s1 = Id_Op_DPipe"
    and n1: "priv_Next n rd DBRACKET s1 = Some (Inr (True, s2))"
    and b: "ParseTerm n rd rp s2 = Some (Inr (b, s3))" and ob: "op_id s3 = Id_Op_DPipe"
    and n2: "priv_Next n rd DBRACKET s3 = Some (Inr (True, s4))"
    and c: "ParseTerm n rd rp s4 = Some (Inr (c, s5))" and oc: "op_id s5 \<noteq> Id_Op_DPipe"
  from ParseExpr_single[OF c oc]
  have "ParseExpr (Suc n) rd rp s4 = Some (Inr (c, s5))" .
  from ParseExpr_or[OF fuel_le(3)[OF _ b] ob fuel_le(1)[OF _ n2] this]
  have "ParseExpr (Suc (Suc n)) rd rp s2 = Some (Inr (BinaryExprNode Id_Op_DPipe b c, s5))"
    by simp
  from ParseExpr_or[OF fuel_le(3)[OF _ a] oa fuel_le(1)[OF _ n1] this]
  show "ParseExpr (n + 3) rd rp s =
      Some (Inr (BinaryExprNode Id_Op_DPipe a (BinaryExprNode Id_Op_DPipe b c), s5))"
    by (simp add: numeral_3_eq_3)
next
  assume a: "ParseNegatedFactor n rd rp s = Some (Inr (a, s1))" and oa: "op_id s1 = Id_Op_DAmp"
    and n1: "priv_Next n rd DBRACKET s1 = Some (Inr (True, s2))"
    and b: "ParseNegatedFactor n rd rp s2 = Some (Inr (b, s3))" and ob: "op_id s3 = Id_Op_DAmp"
    and n2: "priv_Next n rd DBRACKET s3 = Some (Inr (True, s4))"
    and c: "ParseNegatedFactor n rd rp s4 = Some (Inr (c, s5))" and oc: "op_id s5 \<noteq> Id_Op_DAmp"
  from ParseTerm_single[OF c oc]
  have "ParseTerm (Suc n) rd rp s4 = Some (Inr (c, s5))" .
  from ParseTerm_and[OF fuel_le(4)[OF _ b] ob fuel_le(1)[OF _ n2] this]
  have "ParseTerm (Suc (Suc n)) rd rp s2 = Some (Inr (BinaryExprNode Id_Op_DAmp b c, s5))"
    by simp
  from ParseTerm_and[OF fuel_le(4)[OF _ a] oa fuel_le(1)[OF _ n1] this]
  show "ParseTerm (n + 3) rd rp s =
      Some (Inr (BinaryExprNode Id_Op_DAmp a (BinaryExprNode Id_Op_DAmp b c), s5))"
    by (simp add: numeral_3_eq_3)
next
  assume a: "ParseNegatedFactor n rd rp s = Some (Inr (a, s1))" and oa: "op_id s1 = Id_Op_DPipe"
    and n1: "priv_Next n rd DBRACKET s1 = Some (Inr (True, s2))"
    and b: "ParseNegatedFactor n rd rp s2 = Some (Inr (b, s3))" and ob: "op_id s3 = Id_Op_DAmp"
    and n2: "priv_Next n rd DBRACKET s3 = Some (Inr (True, s4))"
    and c: "ParseNegatedFactor n rd rp s4 = Some (Inr (c, s5))"
    and oc: "op_id s5 \<noteq> Id_Op_DAmp" "op_id s5 \<noteq> Id_Op_DPipe"
  from oa have oa': "op_id s1 \<noteq> Id_Op_DAmp" by (simp add: Id_values)
  from ParseTerm_single[OF c oc(1)]
  have "ParseTerm (Suc n) rd rp s4 = Some (Inr (c, s5))" .
  from ParseTerm_and[OF fuel_le(4)[OF _ b] ob fuel_le(1)[OF _ n2] this]
  have "ParseTerm (Suc (Suc n)) rd rp s2 = Some (Inr (BinaryExprNode Id_Op_DAmp b c, s5))"
    by simp
  from ParseExpr_single[OF this oc(2)]
  have r: "ParseExpr (Suc (Suc (Suc n))) rd rp s2 =
      Some (Inr (BinaryExprNode Id_Op_DAmp b c, s5))" .
  from ParseTerm_single[OF fuel_le(4)[OF _ a] oa', of "Suc (Suc n)"]
  have "ParseTerm (Suc (Suc (Suc n))) rd rp s = Some (Inr (a, s1))" by simp
  from ParseExpr_or[OF this oa fuel_le(1)[OF _ n1] r]
  show "ParseExpr (n + 4) rd rp s =
      Some (Inr (BinaryExprNode Id_Op_DPipe a (BinaryExprNode Id_Op_DAmp b c), s5))"
    by (simp add: numeral_eq_Suc)
qed

theorem C7_right_leaning_witness:
  "ParseExpr (Suc (Suc (Suc (Suc 0))) + 3) list_reader (\<lambda>re. True)
     (at_word (lit_word Id_Lit_Chars ''a'') Id_Word_Compound Kind_Word
        ([Some (op_word Id_Op_DPipe ''||''), Some (lit_word Id_Lit_Chars ''b''),
          Some (op_word Id_Op_DPipe ''||''), Some (lit_word Id_Lit_Chars ''c''),
          Some (lit_word Id_Lit_DRightBracket '']]'')], [])) =
     Some (Inr (BinaryExprNode Id_Op_DPipe (WordNode (lit_word Id_Lit_Chars ''a''))
                 (BinaryExprNode Id_Op_DPipe (WordNode (lit_word Id_Lit_Chars ''b''))
                    (WordNode (lit_word Id_Lit_Chars ''c''))),
       at_word (lit_word Id_Lit_DRightBracket '']]'') Id_Lit_DRightBracket 5
         ([], [DBRACKET, DBRACKET, DBRACKET, DBRACKET, DBRACKET]))) \<and>
   ParseTerm (Suc (Suc (Suc 0)) + 3) list_reader (\<lambda>re. True)
     (at_word (lit_word Id_Lit_Chars ''a'') Id_Word_Compound Kind_Word
        ([Some (op_word Id_Op_DAmp ''&&''), Some (lit_word Id_Lit_Chars ''b''),
          Some (op_word Id_Op_DAmp ''&&''), Some (lit_word Id_Lit_Chars ''c''),
          Some (lit_word Id_Lit_DRightBracket '']]'')], [])) =
     Some (Inr (BinaryExprNode Id_Op_DAmp (WordNode (lit_word Id_Lit_Chars ''a''))
                 (BinaryExprNode Id_Op_DAmp (WordNode (lit_word Id_Lit_Chars ''b''))
                    (WordNode (lit_word Id_Lit_Chars ''c''))),
       at_word (lit_word Id_Lit_DRightBracket '']]'') Id_Lit_DRightBracket 5
         ([], [DBRACKET, DBRACKET, DBRACKET, DBRACKET, DBRACKET]))) \<and>
   ParseExpr (Suc (Suc (Suc 0)) + 4) list_reader (\<lambda>re. True)
     (at_word (lit_word Id_Lit_Chars ''a'') Id_Word_Compound Kind_Word
        ([Some (op_word Id_Op_DPipe ''||''), Some (lit_word Id_Lit_Chars ''b''),
          Some (op_word Id_Op_DAmp ''&&''), Some (lit_word Id_Lit_Chars ''c''),
          Some (lit_word Id_Lit_DRightBracket '']]'')], [])) =
     Some (Inr (BinaryExprNode Id_Op_DPipe (WordNode (lit_word Id_Lit_Chars ''a''))
                 (BinaryExprNode Id_Op_DAmp (WordNode (lit_word Id_Lit_Chars ''b''))
                    (WordNode (lit_word Id_Lit_Chars ''c''))),
       at_word (lit_word Id_Lit_DRightBracket '']]'') Id_Lit_DRightBracket 5
         ([], [DBRACKET, DBRACKET, DBRACKET, DBRACKET, DBRACKET])))"
proof -
  let ?a = "lit_word Id_Lit_Chars ''a''"
  let ?b = "lit_word Id_Lit_Chars ''b''"
  let ?c = "lit_word Id_Lit_Chars ''c''"
  let ?or = "op_word Id_Op_DPipe ''||''"
  let ?and = "op_word Id_Op_DAmp ''&&''"
  let ?end = "lit_word Id_Lit_DRightBracket '']]''"
  let ?D = DBRACKET
  note x = C7_right_leaning[where rd = list_reader and rp = "\<lambda>re. True"
      and n = "Suc (Suc (Suc (Suc 0)))"
      and a = "WordNode ?a" and b = "WordNode ?b" and c = "WordNode ?c"
      and s = "at_word ?a Id_Word_Compound Kind_Word
                 ([Some ?or, Some ?b, Some ?or, Some ?c, Some ?end], [])"
      and ?s1.0 = "at_word ?or Id_Op_DPipe 6 ([Some ?b, Some ?or, Some ?c, Some ?end], [?D])"
      and ?s2.0 = "at_word ?b Id_Word_Compound Kind_Word ([Some ?or, Some ?c, Some ?end], [?D, ?D])"
      and ?s3.0 = "at_word ?or Id_Op_DPipe 6 ([Some ?c, Some ?end], [?D, ?D, ?D])"
      and ?s4.0 = "at_word ?c Id_Word_Compound Kind_Word ([Some ?end], [?D, ?D, ?D, ?D])"
      and ?s5.0 = "at_word ?end Id_Lit_DRightBracket 5 ([], [?D, ?D, ?D, ?D, ?D])",
      THEN conjunct1]
  note y = C7_right_leaning[where rd = list_reader and rp = "\<lambda>re. True"
      and n = "Suc (Suc (Suc 0))"
      and a = "WordNode ?a" and b = "WordNode ?b" and c = "WordNode ?c"
      and s = "at_word ?a Id_Word_Compound Kind_Word
                 ([Some ?and, Some ?b, Some ?and, Some ?c, Some ?end], [])"
      and ?s1.0 = "at_word ?and Id_Op_DAmp 6 ([Some ?b, Some ?and, Some ?c, Some ?end], [?D])"
      and ?s2.0 = "at_word ?b Id_Word_Compound Kind_Word ([Some ?and, Some ?c, Some ?end], [?D, ?D])"
      and ?s3.0 = "at_word ?and Id_Op_DAmp 6 ([Some ?c, Some ?end], [?D, ?D, ?D])"
      and ?s4.0 = "at_word ?c Id_Word_Compound Kind_Word ([Some ?end], [?D, ?D, ?D, ?D])"
      and ?s5.0 = "at_word ?end Id_Lit_DRightBracket 5 ([], [?D, ?D, ?D, ?D, ?D])",
      THEN conjunct2, THEN conjunct1]
  note z = C7_right_leaning[where rd = list_reader and rp = "\<lambda>re. True"
      and n = "Suc (Suc (Suc 0))"
      and a = "WordNode ?a" and b = "WordNode ?b" and c = "WordNode ?c"
      and s = "at_word ?a Id_Word_Compound Kind_Word
                 ([Some ?or, Some ?b, Some ?and, Some ?c, Some ?end], [])"
      and ?s1.0 = "at_word ?or Id_Op_DPipe 6 ([Some ?b, Some ?and, Some ?c, Some ?end], [?D])"
      and ?s2.0 = "at_word ?b Id_Word_Compound Kind_Word ([Some ?and, Some ?c, Some ?end], [?D, ?D])"
      and ?s3.0 = "at_word ?and Id_Op_DAmp 6 ([Some ?c, Some ?end], [?D, ?D, ?D])"
      and ?s4.0 = "at_word ?c Id_Word_Compound Kind_Word ([Some ?end], [?D, ?D, ?D, ?D])"
      and ?s5.0 = "at_word ?end Id_Lit_DRightBracket 5 ([], [?D, ?D, ?D, ?D, ?D])",
      THEN conjunct2, THEN conjunct2]
  from x y z show ?thesis
    by (simp add: at_word_def run_eval)
qed

subsection \<open>Malformed input\<close>

text \<open>
  When \<open>Parse\<close> returns \<open>None\<close> and the word parser reports an error each time it returns no
  word, the error stack is not empty.
\<close>

lemma Parse_none_has_error:
  assumes "reports_errors rd" and "Parse n rd regex_parse (BoolParser_init r) = Some (Inr (PyNone, s'))"
  shows "error_stack s' \<noteq> []"
  using Parse_post[OF assms(2)] assms(1) by simp

text \<open>
  C1.  A malformed expression is to make \<open>Parse\<close> return \<open>None\<close> with a record on the error
  stack.  For a stray operator, \<open>[[ && ]]\<close>, \<open>ParseFactor\<close> falls through to
  \<open>raise AssertionError("Unexpected token: ...")\<close>, above which the source notes
  \<open>TODO: A proper error, e.g. for "&&"\<close>; for an unbalanced parenthesis, \<open>[[ ( foo ]]\<close>, it
  raises \<open>RuntimeError("Expected ), got %s", ...)\<close>.  In both runs \<open>Parse\<close> returns nothing
  and the error stack stays empty.
\<close>

theorem C1_malformed_input_raises:
  "Parse (Suc (Suc (Suc (Suc (Suc 0))))) list_reader (\<lambda>re. True)
     (BoolParser_init ([Some (op_word Id_Op_DAmp ''&&''),
        Some (lit_word Id_Lit_DRightBracket '']]'')], [])) =
     Some (Inl (AssertionError_UnexpectedToken,
       at_word (op_word Id_Op_DAmp ''&&'') Id_Op_DAmp 6
         ([Some (lit_word Id_Lit_DRightBracket '']]'')], [DBRACKET]))) \<and>
   Parse (Suc (Suc (Suc (Suc (Suc (Suc (Suc (Suc (Suc 0))))))))) list_reader (\<lambda>re. True)
     (BoolParser_init ([Some (op_word Id_Op_LParen ''(''), Some (lit_word Id_Lit_Chars ''foo''),
        Some (lit_word Id_Lit_DRightBracket '']]'')], [])) =
     Some (Inl (RuntimeError_ExpectedRParen,
       at_word (lit_word Id_Lit_DRightBracket '']]'') Id_Lit_DRightBracket 5
         ([], [DBRACKET, DBRACKET, DBRACKET])))"
  by (simp add: at_word_def run_eval)

section \<open>Every parse of a finite list of words returns\<close>

text \<open>
  Over \<open>list_reader\<close> each successful advance consumes a word, so a run of \<open>Parse\<close> on a
  list of \<open>L\<close> entries returns (a node, \<open>None\<close> or an exception) within the fuel
  \<open>4 * L + 3\<close>.
\<close>

lemma ret_Inl [simp]: "ret p (Some (Inl e))"
  by (simp add: ret_def)

lemma ret_Inr [simp]: "ret p (Some (Inr (v, s))) \<longleftrightarrow> p v s"
  by (simp add: ret_def)

lemma ret_bind:
  assumes "ret q x" and "\<And>v s. q v s \<Longrightarrow> ret p (k v s)"
  shows "ret p (bind_outcome x k)"
proof -
  from assms(1) obtain out where x: "x = Some out" and q: "\<forall>v s. out = Inr (v, s) \<longrightarrow> q v s"
    by (auto simp add: ret_def)
  show ?thesis
  proof (cases out)
    case (Inl e)
    with x show ?thesis by simp
  next
    case (Inr r)
    with x q assms(2)[of "fst r" "snd r"] show ?thesis by (cases r) simp
  qed
qed

lemma ret_or:
  assumes "ret q x" and "\<And>s. q False s \<Longrightarrow> p PyNone s" and "\<And>s. q True s \<Longrightarrow> ret p (k s)"
  shows "ret p (or_return_None x k)"
  unfolding or_return_None_def
  by (rule ret_bind[OF assms(1)]) (auto intro: assms(2,3))

lemma ret_weaken:
  assumes "ret q x" and "\<And>v s. q v s \<Longrightarrow> p v s"
  shows "ret p x"
  using assms by (auto simp add: ret_def)

lemma set_op_id_keeps:
  "set_op_id t = Inr (b, t') \<Longrightarrow>
     b \<and> words t' = words t \<and> w_parser t' = w_parser t \<and> cur_word t' = cur_word t \<and>
     cur_word t \<noteq> None \<and> error_stack t' = error_stack t"
  by (auto simp add: set_op_id_def split: option.splits sum.splits)

lemma list_reader_shrinks:
  assumes "ReadWord list_reader m r = (w, r')"
  shows "length (fst r') \<le> length (fst r)"
    and "w \<noteq> None \<Longrightarrow> Suc (length (fst r')) = length (fst r)"
  using assms by (auto simp add: list_reader_def split: list.splits)

lemma priv_NextOne_pending:
  assumes "length (words s) \<le> 2" and "priv_NextOne list_reader m s = Inr (ok, s')"
  shows "(ok \<or> one_word s \<or> length (words s) = 2 \<longrightarrow> one_word s') \<and>
     pending s' \<le> pending s \<and> (ok \<and> 1 \<le> length (words s) \<longrightarrow> pending s' < pending s)"
proof -
  from assms(1) have "length (words s) = 0 \<or> length (words s) = 1 \<or> length (words s) = 2"
    by arith
  then consider "words s = []" | a where "words s = [a]" | a b where "words s = [a, b]"
    by (auto simp add: length_Suc_conv numeral_2_eq_2)
  then show ?thesis
  proof cases
    case 1
    with assms(2) show ?thesis
      by (auto simp add: priv_NextOne_def Let_def pending_def one_word_def
          dest!: set_op_id_keeps dest: list_reader_shrinks split: prod.splits option.splits)
  next
    case 2
    with assms(2) show ?thesis
      by (auto simp add: priv_NextOne_def Let_def pending_def one_word_def
          dest!: set_op_id_keeps dest: list_reader_shrinks split: prod.splits option.splits)
  next
    case 3
    with assms(2) show ?thesis
      by (auto simp add: priv_NextOne_def Let_def pending_def one_word_def
          dest!: set_op_id_keeps split: if_splits)
  qed
qed

lemma priv_Next_pending_gen:
  assumes "length (words s) \<le> 2"
    and "length (fst (w_parser s)) + max 1 (length (words s)) \<le> n"
  shows "ret (\<lambda>ok s'. (ok \<or> one_word s \<or> length (words s) = 2 \<longrightarrow> one_word s') \<and>
     pending s' \<le> pending s \<and> (ok \<and> 1 \<le> length (words s) \<longrightarrow> pending s' < pending s))
     (priv_Next n list_reader m s)"
  using assms
proof (induction n arbitrary: s)
  case 0
  then show ?case by simp
next
  case (Suc n)
  show ?case
  proof (cases "priv_NextOne list_reader m s")
    case (Inl e)
    then show ?thesis by simp
  next
    case (Inr r)
    obtain ok s1 where r: "r = (ok, s1)" by (cases r)
    note one = priv_NextOne_pending[OF Suc.prems(1) Inr[unfolded r]]
    show ?thesis
    proof (cases "ok \<and> op_id s1 = Id_Op_Newline")
      case False
      with Inr r one show ?thesis by auto
    next
      case True
      with one have w1: "one_word s1" and le: "pending s1 \<le> pending s"
        and lt: "1 \<le> length (words s) \<longrightarrow> pending s1 < pending s" by auto
      have fuel: "length (fst (w_parser s1)) + max 1 (length (words s1)) \<le> n"
        using w1 le lt Suc.prems(2) by (cases "words s") (auto simp add: pending_def one_word_def)
      from w1 have "length (words s1) \<le> 2" by (simp add: one_word_def)
      from Suc.IH[OF this fuel] have
        "ret (\<lambda>ok s'. (ok \<or> one_word s1 \<or> length (words s1) = 2 \<longrightarrow> one_word s') \<and>
           pending s' \<le> pending s1 \<and> (ok \<and> 1 \<le> length (words s1) \<longrightarrow> pending s' < pending s1))
         (priv_Next n list_reader m s1)" .
      then have "ret (\<lambda>ok s'. (ok \<or> one_word s \<or> length (words s) = 2 \<longrightarrow> one_word s') \<and>
           pending s' \<le> pending s \<and> (ok \<and> 1 \<le> length (words s) \<longrightarrow> pending s' < pending s))
         (priv_Next n list_reader m s1)"
        by (rule ret_weaken) (use w1 le lt in \<open>auto simp add: one_word_def\<close>)
      with Inr r True show ?thesis by simp
    qed
  qed
qed

lemma priv_Next_pending:
  assumes "length (words s) \<le> 2" and "pending s + 1 \<le> n"
  shows "ret (\<lambda>ok s'. (ok \<or> one_word s \<or> length (words s) = 2 \<longrightarrow> one_word s') \<and>
     pending s' \<le> pending s \<and> (ok \<and> 1 \<le> length (words s) \<longrightarrow> pending s' < pending s))
     (priv_Next n list_reader m s)"
  using assms(2) by (intro priv_Next_pending_gen[OF assms(1)]) (simp add: pending_def)

text \<open>An advance from a state with one word buffered.\<close>

lemma next_ret:
  assumes "one_word t" and "pending t + 1 \<le> n"
    and "\<And>s'. one_word s' \<Longrightarrow> pending s' \<le> pending t \<Longrightarrow> p PyNone s'"
    and "\<And>s'. one_word s' \<Longrightarrow> pending s' < pending t \<Longrightarrow> ret p (k s')"
  shows "ret p (or_return_None (priv_Next n list_reader m t) k)"
proof (rule ret_or[OF priv_Next_pending[OF _ assms(2)]])
  from assms(1) show "length (words t) \<le> 2" by (simp add: one_word_def)
next
  fix s'
  assume "(False \<or> one_word t \<or> length (words t) = 2 \<longrightarrow> one_word s') \<and>
     pending s' \<le> pending t \<and> (False \<and> 1 \<le> length (words t) \<longrightarrow> pending s' < pending t)"
  with assms(1) show "p PyNone s'" by (intro assms(3)) auto
next
  fix s'
  assume "(True \<or> one_word t \<or> length (words t) = 2 \<longrightarrow> one_word s') \<and>
     pending s' \<le> pending t \<and> (True \<and> 1 \<le> length (words t) \<longrightarrow> pending s' < pending t)"
  with assms(1) show "ret p (k s')" by (intro assms(4)) (auto simp add: one_word_def)
qed


text \<open>An advance right after the lookahead, which promotes the buffered word.\<close>

lemma next_ret_lookahead:
  assumes "length (words t) = 2" and "pending t + 1 \<le> n"
    and "\<And>s'. one_word s' \<Longrightarrow> pending s' \<le> pending t \<Longrightarrow> p PyNone s'"
    and "\<And>s'. one_word s' \<Longrightarrow> pending s' < pending t \<Longrightarrow> ret p (k s')"
  shows "ret p (or_return_None (priv_Next n list_reader m t) k)"
proof (rule ret_or[OF priv_Next_pending[OF _ assms(2)]])
  from assms(1) show "length (words t) \<le> 2" by simp
next
  fix s'
  assume "(False \<or> one_word t \<or> length (words t) = 2 \<longrightarrow> one_word s') \<and>
     pending s' \<le> pending t \<and> (False \<and> 1 \<le> length (words t) \<longrightarrow> pending s' < pending t)"
  with assms(1) show "p PyNone s'" by (intro assms(3)) auto
next
  fix s'
  assume "(True \<or> one_word t \<or> length (words t) = 2 \<longrightarrow> one_word s') \<and>
     pending s' \<le> pending t \<and> (True \<and> 1 \<le> length (words t) \<longrightarrow> pending s' < pending t)"
  with assms(1) show "ret p (k s')" by (intro assms(4)) auto
qed

lemma priv_LookAhead_pending:
  assumes "one_word s" and "priv_LookAhead list_reader s = Inr (Some w2, s1)"
  shows "length (words s1) = 2 \<and> pending s1 = pending s"
  using assms
  by (auto simp add: priv_LookAhead_def one_word_def pending_def split: if_splits prod.splits
      dest: list_reader_shrinks(2))

lemma AddErrorContext_fields [simp]:
  "words (AddErrorContext m a t w s) = words s"
  "cur_word (AddErrorContext m a t w s) = cur_word s"
  "w_parser (AddErrorContext m a t w s) = w_parser s"
  "one_word (AddErrorContext m a t w s) = one_word s"
  "pending (AddErrorContext m a t w r) = pending r"
  by (simp_all add: AddErrorContext_def one_word_def pending_def)

lemma ParseFactor_returns:
  assumes g: "one_word s" and n: "pending s + 1 \<le> n"
    and E: "\<And>t. one_word t \<Longrightarrow> pending t < pending s \<Longrightarrow>
       ret (\<lambda>v s'. one_word s' \<and> pending s' \<le> pending t) (ParseExpr n list_reader rp t)"
  shows "ret (\<lambda>v s'. one_word s' \<and> pending s' \<le> pending s) (ParseFactor (Suc n) list_reader rp s)"
proof -
  have fuel: "pending t + 1 \<le> n" if "pending t \<le> pending s" for t :: "(Word option list \<times> LexMode list) BoolParser"
    using that n by simp
  consider (unary) "b_kind s = Kind_BoolUnary"
    | (word) "b_kind s \<noteq> Kind_BoolUnary" "b_kind s = Kind_Word"
    | (paren) "b_kind s \<noteq> Kind_BoolUnary" "b_kind s \<noteq> Kind_Word" "op_id s = Id_Op_LParen"
    | (other) "b_kind s \<noteq> Kind_BoolUnary" "b_kind s \<noteq> Kind_Word" "op_id s \<noteq> Id_Op_LParen"
    by blast
  then show ?thesis
  proof cases
    case unary
    show ?thesis
      apply (simp add: unary Let_def)
      apply (rule next_ret[OF g n])
       apply simp
      apply (rule next_ret)
         apply assumption
        apply (rule fuel)
        apply simp
       apply simp
      apply simp
      done
  next
    case word
    show ?thesis
    proof (cases "priv_LookAhead list_reader s")
      case (Inl e)
      then show ?thesis by (simp add: word Kind_values)
    next
      case (Inr r)
      obtain t2 s1 where r: "r = (t2, s1)" by (cases r)
      show ?thesis
      proof (cases t2)
        case None
        with Inr r show ?thesis by (simp add: word Kind_values)
      next
        case (Some w2)
        from priv_LookAhead_pending[OF g Inr[unfolded r Some]]
        have la: "length (words s1) = 2" "pending s1 = pending s" by simp_all
        have nx: "ret p (or_return_None (priv_Next n list_reader m t) k)"
          if "one_word t \<or> length (words t) = 2" and "pending t \<le> pending s"
            and "\<And>s'. one_word s' \<Longrightarrow> pending s' \<le> pending t \<Longrightarrow> p PyNone s'"
            and "\<And>s'. one_word s' \<Longrightarrow> pending s' < pending t \<Longrightarrow> ret p (k s')"
          for p m t k
          using that(1)
        proof
          assume "one_word t"
          from next_ret[OF this fuel[OF that(2)] that(3,4)] show ?thesis .
        next
          assume "length (words t) = 2"
          from next_ret_lookahead[OF this fuel[OF that(2)] that(3,4)] show ?thesis .
        qed
        show ?thesis
          apply (simp add: word Kind_values Inr r Some Let_def split: sum.split)
          apply (intro conjI impI allI)
          apply (auto intro!: nx simp add: la split: sum.split)
          done
      qed
    qed
  next
    case paren
    show ?thesis
      apply (simp add: paren)
      apply (rule next_ret[OF g n])
       apply simp
      apply (rule ret_bind)
       apply (erule (1) E)
      apply (auto intro!: next_ret fuel)
      done
  next
    case other
    then show ?thesis by simp
  qed
qed


lemma parse_returns:
  "\<forall>s. pending s \<le> k \<longrightarrow> one_word s \<longrightarrow>
     (\<forall>n. 4 * k \<le> n \<longrightarrow>
        ret (\<lambda>v s'. one_word s' \<and> pending s' \<le> pending s) (ParseFactor n list_reader rp s)) \<and>
     (\<forall>n. 4 * k + 1 \<le> n \<longrightarrow>
        ret (\<lambda>v s'. one_word s' \<and> pending s' \<le> pending s)
          (ParseNegatedFactor n list_reader rp s)) \<and>
     (\<forall>n. 4 * k + 2 \<le> n \<longrightarrow>
        ret (\<lambda>v s'. one_word s' \<and> pending s' \<le> pending s) (ParseTerm n list_reader rp s)) \<and>
     (\<forall>n. 4 * k + 3 \<le> n \<longrightarrow>
        ret (\<lambda>v s'. one_word s' \<and> pending s' \<le> pending s) (ParseExpr n list_reader rp s))"
proof (induction k)
  case 0
  show ?case by (auto simp add: pending_def one_word_def)
next
  case (Suc k)
  show ?case
  proof (intro allI impI)
    fix s :: "(Word option list \<times> LexMode list) BoolParser"
    assume pk: "pending s \<le> Suc k" and g: "one_word s"
    let ?P = "\<lambda>t (v :: py_node) s'. one_word s' \<and> pending s' \<le> pending (t :: (Word option list \<times> LexMode list) BoolParser)"
    have IHT: "ret (?P t) (ParseTerm n list_reader rp t)"
      if "one_word t" "pending t < pending s" "4 * k + 2 \<le> n" for t n
      using Suc.IH that pk by auto
    have IHE: "ret (?P t) (ParseExpr n list_reader rp t)"
      if "one_word t" "pending t < pending s" "4 * k + 3 \<le> n" for t n
      using Suc.IH that pk by auto
    have IHF: "ret (?P t) (ParseFactor n list_reader rp t)"
      if "one_word t" "pending t < pending s" "4 * k \<le> n" for t n
      using Suc.IH that pk by auto
    have F: "ret (?P s) (ParseFactor n list_reader rp s)" if "4 * Suc k \<le> n" for n
    proof -
      from that obtain n' where n: "n = Suc n'" and n': "4 * k + 3 \<le> n'" by (cases n) auto
      show ?thesis unfolding n
        by (rule ParseFactor_returns[OF g]) (use pk n' in \<open>auto intro: IHE\<close>)
    qed
    have N: "ret (?P s) (ParseNegatedFactor n list_reader rp s)" if "4 * Suc k + 1 \<le> n" for n
    proof -
      from that obtain n' where n: "n = Suc n'" and n': "4 * Suc k \<le> n'" by (cases n) auto
      show ?thesis unfolding n
        apply simp
        apply (intro conjI impI)
         apply (rule next_ret[OF g])
           apply (use pk n' in simp)
          apply simp
         apply (rule ret_bind)
          apply (rule IHF)
            apply assumption
           apply assumption
          apply (use n' in simp)
         apply simp
        apply (rule F[OF n'])
        done
    qed
    have T: "ret (?P s) (ParseTerm n list_reader rp s)" if "4 * Suc k + 2 \<le> n" for n
    proof -
      from that obtain n' where n: "n = Suc n'" and n': "4 * Suc k + 1 \<le> n'" by (cases n) auto
      show ?thesis unfolding n
        apply simp
        apply (rule ret_bind)
         apply (rule N[OF n'])
        apply (auto intro!: next_ret)
          apply (use pk n' in simp)
        apply (rule ret_bind)
         apply (rule IHT)
           apply assumption
          apply simp
         apply (use n' in simp)
        apply simp
        done
    qed
    have E: "ret (?P s) (ParseExpr n list_reader rp s)" if "4 * Suc k + 3 \<le> n" for n
    proof -
      from that obtain n' where n: "n = Suc n'" and n': "4 * Suc k + 2 \<le> n'" by (cases n) auto
      show ?thesis unfolding n
        apply simp
        apply (rule ret_bind)
         apply (rule T[OF n'])
        apply (auto intro!: next_ret)
          apply (use pk n' in simp)
        apply (rule ret_bind)
         apply (rule IHE)
           apply assumption
          apply simp
         apply (use n' in simp)
        apply simp
        done
    qed
    from F N T E show "(\<forall>n. 4 * Suc k \<le> n \<longrightarrow> ret (?P s) (ParseFactor n list_reader rp s)) \<and>
       (\<forall>n. 4 * Suc k + 1 \<le> n \<longrightarrow> ret (?P s) (ParseNegatedFactor n list_reader rp s)) \<and>
       (\<forall>n. 4 * Suc k + 2 \<le> n \<longrightarrow> ret (?P s) (ParseTerm n list_reader rp s)) \<and>
       (\<forall>n. 4 * Suc k + 3 \<le> n \<longrightarrow> ret (?P s) (ParseExpr n list_reader rp s))"
      by blast
  qed
qed


lemma Parse_list_reader_returns:
  assumes "4 * length ws + 3 \<le> n"
  shows "\<exists>out. Parse n list_reader rp (BoolParser_init (ws, lg)) = Some out"
proof -
  let ?s = "BoolParser_init (ws, lg)"
  have init: "length (words ?s) \<le> 2" "pending ?s = length ws"
    by (simp_all add: BoolParser_init_def pending_def)
  from assms init have fuel: "pending ?s + 1 \<le> n" by simp
  have "ret (\<lambda>v s'. True) (Parse n list_reader rp ?s)"
    unfolding Parse_def
  proof (rule ret_or[OF priv_Next_pending[OF init(1) fuel]])
    fix s1
    assume "(True \<or> one_word ?s \<or> length (words ?s) = 2 \<longrightarrow> one_word s1) \<and>
       pending s1 \<le> pending ?s \<and> (True \<and> 1 \<le> length (words ?s) \<longrightarrow> pending s1 < pending ?s)"
    then have g: "one_word s1" and p: "pending s1 \<le> length ws" using init(2) by simp_all
    from parse_returns[of "length ws" rp] g p assms
    have "ret (\<lambda>v s'. one_word s' \<and> pending s' \<le> pending s1) (ParseExpr n list_reader rp s1)"
      by simp
    then show "ret (\<lambda>v s'. True) (bind_outcome (ParseExpr n list_reader rp s1) (\<lambda>node s2.
        if \<not> AtEnd s2 then
          Some (Inr (PyNone,
            AddErrorContext (Text ''Unexpected extra word %r'') [ArgWord (cur_word s2)]
              None (cur_word s2) s2))
        else Some (Inr (node, s2))))"
      by (rule ret_bind) simp
  qed simp
  then show ?thesis by (auto simp add: ret_def)
qed

end
